theory Spec2Isabelle
  imports Main "HOL-Library.Sublist" "HOL-Library.AList" "HOL-Library.Word"
begin

section \<open>JavaScript values as the generator sees them\<close>

text \<open>
  The generator in \<^verbatim>\<open>backend/generators/kubernetes.js\<close> receives a parsed JSON body.
  Scalar fields are only ever tested for truthiness, compared with \<^verbatim>\<open>===\<close> against
  string constants, or spliced into a template literal. A scalar is therefore modelled
  by the datatype \<open>jsval\<close>.

  A number \<open>JNum w\<close> is the integer \<open>sint w\<close> of a 54-bit word: the integers from
  \<open>-2\<^sup>5\<^sup>3\<close> to \<open>2\<^sup>5\<^sup>3 - 1\<close> (ports, replica counts, LUNs), each of which JavaScript holds
  exactly and prints in plain decimal. The generator does no arithmetic on numbers, so
  a word never wraps. Fractions, numbers beyond that range (printed with an exponent
  from \<open>10\<^sup>2\<^sup>1\<close> on), \<^verbatim>\<open>NaN\<close> and the infinities have no representation in \<open>jsval\<close>.
\<close>

datatype jsval = JUndef | JNull | JBool bool | JNum "54 word" | JStr string

fun truthy :: "jsval \<Rightarrow> bool" where
  "truthy JUndef = False"
| "truthy JNull = False"
| "truthy (JBool b) = b"
| "truthy (JNum n) = (n \<noteq> 0)"
| "truthy (JStr s) = (s \<noteq> [])"

definition digit_char :: "nat \<Rightarrow> char" where
  "digit_char d = (''0123456789'' ! d)"

function show_nat :: "nat \<Rightarrow> string" where
  "show_nat n = (if n < 10 then [digit_char n]
                 else show_nat (n div 10) @ [digit_char (n mod 10)])"
  by pat_completeness auto
termination
  by (relation "measure id") auto

declare show_nat.simps [simp del]

definition show_int :: "int \<Rightarrow> string" where
  "show_int i = (if i < 0 then ''-'' @ show_nat (nat (- i)) else show_nat (nat i))"

text \<open>\<open>to_str v\<close> is what the template literal \<^verbatim>\<open>`${v}`\<close> yields.\<close>

fun to_str :: "jsval \<Rightarrow> string" where
  "to_str JUndef = ''undefined''"
| "to_str JNull = ''null''"
| "to_str (JBool b) = (if b then ''true'' else ''false'')"
| "to_str (JNum n) = show_int (sint n)"
| "to_str (JStr s) = s"

text \<open>\<^verbatim>\<open>a || b\<close> on values.\<close>

definition js_or :: "jsval \<Rightarrow> jsval \<Rightarrow> jsval" where
  "js_or a b = (if truthy a then a else b)"

text \<open>A destructuring default \<^verbatim>\<open>{ x = d } = obj\<close> applies only when the field is
  \<^verbatim>\<open>undefined\<close>.\<close>

definition dflt :: "jsval \<Rightarrow> jsval \<Rightarrow> jsval" where
  "dflt v d = (if v = JUndef then d else v)"

abbreviation dq :: string where
  "dq \<equiv> [CHR 0x22]"

abbreviation nl :: string where
  "nl \<equiv> ''\<newline>''"

text \<open>\<^verbatim>\<open>Array.prototype.join\<close> on an array of strings.\<close>

fun join :: "string \<Rightarrow> string list \<Rightarrow> string" where
  "join sep [] = []"
| "join sep [x] = x"
| "join sep (x # y # ys) = x @ sep @ join sep (y # ys)"

definition startsWith :: "string \<Rightarrow> string \<Rightarrow> bool" where
  "startsWith s p = (take (length p) s = p)"

section \<open>The request: payload and tiers\<close>

record envvar =
  env_name :: jsval
  env_value :: jsval

record kv =
  kv_key :: jsval
  kv_value :: jsval

record resources_spec =
  requestsCpu :: jsval
  requestsMemory :: jsval
  limitsCpu :: jsval
  limitsMemory :: jsval

record probe_spec =
  probe_path :: jsval
  probe_port :: jsval
  initialDelaySeconds :: jsval
  periodSeconds :: jsval

record pvc_spec =
  pvc_enabled :: jsval
  pvc_storageClass :: jsval
  pvc_size :: jsval
  pvc_accessMode :: jsval
  pvc_mountPath :: jsval

record pv_spec =
  pv_enabled :: jsval
  pv_type :: jsval
  pv_size :: jsval
  pv_accessMode :: jsval
  reclaimPolicy :: jsval
  pv_storageClass :: jsval
  hostPath :: jsval
  nfsServer :: jsval
  nfsPath :: jsval
  localPath :: jsval
  awsVolumeID :: jsval
  awsFsType :: jsval
  gcePdName :: jsval
  gceFsType :: jsval
  azureDiskName :: jsval
  azureDiskURI :: jsval
  azureKind :: jsval
  azureCachingMode :: jsval
  cephMonitors :: jsval
  cephPool :: jsval
  cephImage :: jsval
  cephUser :: jsval
  cephSecretName :: jsval
  cephFsType :: jsval
  iscsiTargetPortal :: jsval
  iscsiIqn :: jsval
  iscsiLun :: jsval
  iscsiFsType :: jsval

record service_spec =
  svc_type :: jsval
  svc_port :: jsval
  targetPort :: jsval

record ingress_spec =
  ing_host :: jsval
  ing_path :: jsval

text \<open>
  A tier is an object with the fields of the specification's data model. The value
  \<open>None\<close> of an optional field is the absent field (\<^verbatim>\<open>undefined\<close>).

  The probes, \<^verbatim>\<open>pvc\<close>, \<^verbatim>\<open>pv\<close>, \<^verbatim>\<open>service\<close> and \<^verbatim>\<open>ingress\<close> are tested for truthiness
  before they are read (\<^verbatim>\<open>!probe\<close>, \<^verbatim>\<open>tier.pvc || {}\<close>, \<^verbatim>\<open>tier?.pvc?.mountPath\<close>,
  \<^verbatim>\<open>!service\<close>, \<^verbatim>\<open>!tier.ingress\<close>), so for them \<open>None\<close> stands for \<^verbatim>\<open>null\<close> as well.

  For \<^verbatim>\<open>env\<close>, \<^verbatim>\<open>configMapData\<close>, \<^verbatim>\<open>secretData\<close> and \<^verbatim>\<open>resources\<close> the source relies on
  a default (\<^verbatim>\<open>env = []\<close>, \<^verbatim>\<open>resources = {}\<close>, \<^verbatim>\<open>{ configMapData = [] }\<close>), which
  applies to \<^verbatim>\<open>undefined\<close> only: there \<open>None\<close> is \<^verbatim>\<open>undefined\<close> and nothing else. A
  \<^verbatim>\<open>null\<close> in one of these four fields, on which the source raises a \<^verbatim>\<open>TypeError\<close>
  when it reads \<^verbatim>\<open>.length\<close> or destructures, has no representation in \<open>tier\<close>; nor
  has an element of \<^verbatim>\<open>tiers\<close>, \<^verbatim>\<open>env\<close>, \<^verbatim>\<open>configMapData\<close> or \<^verbatim>\<open>secretData\<close> that is
  not an object.
\<close>

record tier =
  name :: jsval
  replicas :: jsval
  image :: jsval
  containerPort :: jsval
  workloadType :: jsval
  env :: "envvar list option"
  configMapData :: "kv list option"
  secretData :: "kv list option"
  resources :: "resources_spec option"
  livenessProbe :: "probe_spec option"
  readinessProbe :: "probe_spec option"
  pvc :: "pvc_spec option"
  pv :: "pv_spec option"
  service :: "service_spec option"
  ingress :: "ingress_spec option"

text \<open>\<open>tiers = None\<close> stands for a \<^verbatim>\<open>tiers\<close> field that is not an array.\<close>

record payload =
  appName :: jsval
  namespace :: jsval
  createNamespace :: jsval
  enableRBAC :: jsval
  tiers :: "tier list option"

section \<open>Field renderers\<close>

definition renderEnv :: "envvar list option \<Rightarrow> string" where
  "renderEnv env0 =
     (let env = (case env0 of None \<Rightarrow> [] | Some es \<Rightarrow> es) in
      if env = [] then []
      else nl @ ''          env:'' @ nl @
           join nl (map (\<lambda>e. ''            - name: '' @ to_str (env_name e) @ nl @
                               ''              value: '' @ dq @ to_str (env_value e) @ dq) env))"

definition resources_lines :: "jsval \<Rightarrow> jsval \<Rightarrow> jsval \<Rightarrow> jsval \<Rightarrow> string list" where
  "resources_lines rc rm lc lm =
     (if truthy rc \<or> truthy rm
      then [''requests:''] @
           (if truthy rc then [''  cpu: '' @ dq @ to_str rc @ dq] else []) @
           (if truthy rm then [''  memory: '' @ dq @ to_str rm @ dq] else [])
      else []) @
     (if truthy lc \<or> truthy lm
      then [''limits:''] @
           (if truthy lc then [''  cpu: '' @ dq @ to_str lc @ dq] else []) @
           (if truthy lm then [''  memory: '' @ dq @ to_str lm @ dq] else [])
      else [])"

definition renderResources :: "resources_spec option \<Rightarrow> string" where
  "renderResources res0 =
     (let rc = (case res0 of None \<Rightarrow> JUndef | Some r \<Rightarrow> requestsCpu r);
          rm = (case res0 of None \<Rightarrow> JUndef | Some r \<Rightarrow> requestsMemory r);
          lc = (case res0 of None \<Rightarrow> JUndef | Some r \<Rightarrow> limitsCpu r);
          lm = (case res0 of None \<Rightarrow> JUndef | Some r \<Rightarrow> limitsMemory r) in
      if \<not> truthy rc \<and> \<not> truthy rm \<and> \<not> truthy lc \<and> \<not> truthy lm then []
      else let lines = resources_lines rc rm lc lm in
        if lines = [] then []
        else nl @ ''          resources:'' @ nl @
             join nl (map (\<lambda>(i, l).
                        if i = 0 then ''            '' @ l
                        else ''            '' @ (if startsWith l ''  '' then l else ''  '' @ l))
                      (enumerate 0 lines)))"

definition renderHttpProbe :: "probe_spec option \<Rightarrow> string \<Rightarrow> string" where
  "renderHttpProbe probe type =
     (case probe of
        None \<Rightarrow> []
      | Some p \<Rightarrow>
          if \<not> truthy (probe_path p) \<or> \<not> truthy (probe_port p) then []
          else nl @ ''          '' @ type @ ''Probe:'' @ nl @
               ''            httpGet:'' @ nl @
               ''              path: '' @ to_str (probe_path p) @ nl @
               ''              port: '' @ to_str (probe_port p) @ nl @
               ''            initialDelaySeconds: '' @
                    to_str (dflt (initialDelaySeconds p) (JNum 10)) @ nl @
               ''            periodSeconds: '' @ to_str (dflt (periodSeconds p) (JNum 10)))"

section \<open>Leaf resource renderers\<close>

text \<open>
  A leaf renderer returns \<^verbatim>\<open>null\<close> (\<open>None\<close>) or an object with \<^verbatim>\<open>filename\<close>,
  \<^verbatim>\<open>content\<close> and, for ConfigMap, Secret and PVC, the generated resource name
  (\<^verbatim>\<open>cmName\<close>, \<^verbatim>\<open>secretName\<close>, \<^verbatim>\<open>pvcName\<close>: the field \<open>refName\<close>).
\<close>

record rendered =
  filename :: string
  content :: string

record named = rendered +
  refName :: string

definition configMap_doc :: "tier \<Rightarrow> jsval \<Rightarrow> jsval \<Rightarrow> string" where
  "configMap_doc tier ns app =
     (let configMapData = (case configMapData tier of None \<Rightarrow> [] | Some ds \<Rightarrow> ds);
          dataLines = join nl (map (\<lambda>d. ''  '' @ to_str (kv_key d) @ '': '' @ dq @
                                           to_str (kv_value d) @ dq) configMapData);
          cmName = to_str app @ ''-'' @ to_str (name tier) @ ''-config''
      in ''apiVersion: v1'' @ nl @
         ''kind: ConfigMap'' @ nl @
         ''metadata:'' @ nl @
         ''  name: '' @ cmName @ nl @
         ''  namespace: '' @ to_str ns @ nl @
         ''data:'' @ nl @
         dataLines @ nl)"

definition renderConfigMap :: "tier \<Rightarrow> jsval \<Rightarrow> jsval \<Rightarrow> named option" where
  "renderConfigMap tier ns app =
     (let configMapData = (case configMapData tier of None \<Rightarrow> [] | Some ds \<Rightarrow> ds) in
      if configMapData = [] then None
      else Some \<lparr> filename = ''configmap-'' @ to_str (name tier) @ ''.yaml'',
                  content = configMap_doc tier ns app,
                  refName = to_str app @ ''-'' @ to_str (name tier) @ ''-config'' \<rparr>)"

definition secret_doc :: "tier \<Rightarrow> jsval \<Rightarrow> jsval \<Rightarrow> string" where
  "secret_doc tier ns app =
     (let secretData = (case secretData tier of None \<Rightarrow> [] | Some ds \<Rightarrow> ds);
          dataLines = join nl (map (\<lambda>d. ''  '' @ to_str (kv_key d) @ '': '' @ dq @
                                           to_str (kv_value d) @ dq) secretData);
          secretName = to_str app @ ''-'' @ to_str (name tier) @ ''-secret''
      in ''apiVersion: v1'' @ nl @
         ''kind: Secret'' @ nl @
         ''metadata:'' @ nl @
         ''  name: '' @ secretName @ nl @
         ''  namespace: '' @ to_str ns @ nl @
         ''type: Opaque'' @ nl @
         ''stringData:'' @ nl @
         dataLines @ nl)"

definition renderSecret :: "tier \<Rightarrow> jsval \<Rightarrow> jsval \<Rightarrow> named option" where
  "renderSecret tier ns app =
     (let secretData = (case secretData tier of None \<Rightarrow> [] | Some ds \<Rightarrow> ds) in
      if secretData = [] then None
      else Some \<lparr> filename = ''secret-'' @ to_str (name tier) @ ''.yaml'',
                  content = secret_doc tier ns app,
                  refName = to_str app @ ''-'' @ to_str (name tier) @ ''-secret'' \<rparr>)"

definition generateNamespace :: "jsval \<Rightarrow> string" where
  "generateNamespace ns =
     ''apiVersion: v1'' @ nl @
     ''kind: Namespace'' @ nl @
     ''metadata:'' @ nl @
     ''  name: '' @ to_str ns @ nl"

definition pvc_doc :: "tier \<Rightarrow> pvc_spec \<Rightarrow> jsval \<Rightarrow> jsval \<Rightarrow> string" where
  "pvc_doc tier c ns app =
     (let storageClass = dflt (pvc_storageClass c) (JStr []);
          size = dflt (pvc_size c) (JStr ''5Gi'');
          accessMode = dflt (pvc_accessMode c) (JStr ''ReadWriteOnce'');
          pvcName = to_str app @ ''-'' @ to_str (name tier) @ ''-pvc'';
          scLine = (if truthy storageClass
                    then ''  storageClassName: '' @ dq @ to_str storageClass @ dq @ nl
                    else [])
      in ''apiVersion: v1'' @ nl @
         ''kind: PersistentVolumeClaim'' @ nl @
         ''metadata:'' @ nl @
         ''  name: '' @ pvcName @ nl @
         ''  namespace: '' @ to_str ns @ nl @
         ''spec:'' @ nl @
         ''  accessModes:'' @ nl @
         ''    - '' @ to_str accessMode @ nl @
         scLine @
         ''  resources:'' @ nl @
         ''    requests:'' @ nl @
         ''      storage: '' @ to_str size @ nl)"

definition generatePVC :: "tier \<Rightarrow> jsval \<Rightarrow> jsval \<Rightarrow> named option" where
  "generatePVC tier ns app =
     (case pvc tier of
        None \<Rightarrow> None
      | Some c \<Rightarrow>
          if \<not> truthy (pvc_enabled c) then None
          else Some \<lparr> filename = ''pvc-'' @ to_str (name tier) @ ''.yaml'',
                      content = pvc_doc tier c ns app,
                      refName = to_str app @ ''-'' @ to_str (name tier) @ ''-pvc'' \<rparr>)"

text \<open>
  The \<^verbatim>\<open>switch (type)\<close> of \<^verbatim>\<open>generatePV\<close>: \<open>None\<close> is an early
  \<^verbatim>\<open>return null\<close>, \<open>Some\<close> the value of \<^verbatim>\<open>volumeSource\<close> at the \<^verbatim>\<open>break\<close>.
\<close>

definition pv_volumeSource :: "pv_spec \<Rightarrow> jsval \<Rightarrow> jsval \<Rightarrow> string option" where
  "pv_volumeSource v tname app =
     (if pv_type v = JStr ''hostPath'' then
        Some (''  hostPath:'' @ nl @
              ''    path: '' @ to_str (js_or (hostPath v)
                 (JStr (''/mnt/data/'' @ to_str app @ ''-'' @ to_str tname))) @ nl)
      else if pv_type v = JStr ''nfs'' then
        (if \<not> truthy (nfsServer v) \<or> \<not> truthy (nfsPath v) then None
         else Some (''  nfs:'' @ nl @
                    ''    server: '' @ to_str (nfsServer v) @ nl @
                    ''    path: '' @ to_str (nfsPath v) @ nl @
                    ''    readOnly: false'' @ nl))
      else if pv_type v = JStr ''local'' then
        Some (''  local:'' @ nl @
              ''    path: '' @ to_str (js_or (localPath v)
                 (JStr (''/mnt/local/'' @ to_str app @ ''-'' @ to_str tname))) @ nl)
      else if pv_type v = JStr ''awsEbs'' then
        (if \<not> truthy (awsVolumeID v) then None
         else Some (''  awsElasticBlockStore:'' @ nl @
                    ''    volumeID: '' @ to_str (awsVolumeID v) @ nl @
                    ''    fsType: '' @ to_str (js_or (awsFsType v) (JStr ''ext4'')) @ nl))
      else if pv_type v = JStr ''gcePd'' then
        (if \<not> truthy (gcePdName v) then None
         else Some (''  gcePersistentDisk:'' @ nl @
                    ''    pdName: '' @ to_str (gcePdName v) @ nl @
                    ''    fsType: '' @ to_str (js_or (gceFsType v) (JStr ''ext4'')) @ nl))
      else if pv_type v = JStr ''azureDisk'' then
        (if \<not> truthy (azureDiskName v) \<or> \<not> truthy (azureDiskURI v) then None
         else Some (''  azureDisk:'' @ nl @
                    ''    diskName: '' @ to_str (azureDiskName v) @ nl @
                    ''    diskURI: '' @ to_str (azureDiskURI v) @ nl @
                    ''    kind: '' @ to_str (js_or (azureKind v) (JStr ''Managed'')) @ nl @
                    ''    cachingMode: '' @ to_str (js_or (azureCachingMode v) (JStr ''None'')) @ nl))
      else if pv_type v = JStr ''cephRbd'' then
        (if \<not> truthy (cephMonitors v) \<or> \<not> truthy (cephPool v) \<or>
            \<not> truthy (cephImage v) \<or> \<not> truthy (cephUser v) then None
         else Some (''  rbd:'' @ nl @
                    ''    monitors: ['' @ to_str (cephMonitors v) @ '']'' @ nl @
                    ''    pool: '' @ to_str (cephPool v) @ nl @
                    ''    image: '' @ to_str (cephImage v) @ nl @
                    ''    user: '' @ to_str (cephUser v) @ nl @
                    ''    secretRef:'' @ nl @
                    ''      name: '' @ to_str (js_or (cephSecretName v)
                       (JStr (to_str app @ ''-ceph-secret''))) @ nl @
                    ''    fsType: '' @ to_str (js_or (cephFsType v) (JStr ''ext4'')) @ nl))
      else if pv_type v = JStr ''iscsi'' then
        (if \<not> truthy (iscsiTargetPortal v) \<or> \<not> truthy (iscsiIqn v) \<or>
            \<not> truthy (iscsiLun v) then None
         else Some (''  iscsi:'' @ nl @
                    ''    targetPortal: '' @ to_str (iscsiTargetPortal v) @ nl @
                    ''    iqn: '' @ to_str (iscsiIqn v) @ nl @
                    ''    lun: '' @ to_str (iscsiLun v) @ nl @
                    ''    fsType: '' @ to_str (js_or (iscsiFsType v) (JStr ''ext4'')) @ nl))
      else None)"

text \<open>What every PersistentVolume document starts with, up to the storage class line.\<close>

definition pv_header :: "tier \<Rightarrow> pv_spec \<Rightarrow> jsval \<Rightarrow> string" where
  "pv_header tier v app =
     (let size = dflt (pv_size v) (JStr ''5Gi'');
          accessMode = dflt (pv_accessMode v) (JStr ''ReadWriteOnce'');
          reclaim = dflt (reclaimPolicy v) (JStr ''Retain'');
          storageClass = dflt (pv_storageClass v) (JStr []);
          pvName = to_str app @ ''-'' @ to_str (name tier) @ ''-pv'';
          scLine = (if truthy storageClass
                    then ''  storageClassName: '' @ dq @ to_str storageClass @ dq @ nl
                    else [])
      in ''apiVersion: v1'' @ nl @
         ''kind: PersistentVolume'' @ nl @
         ''metadata:'' @ nl @
         ''  name: '' @ pvName @ nl @
         ''spec:'' @ nl @
         ''  capacity:'' @ nl @
         ''    storage: '' @ to_str size @ nl @
         ''  accessModes:'' @ nl @
         ''    - '' @ to_str accessMode @ nl @
         ''  persistentVolumeReclaimPolicy: '' @ to_str reclaim @ nl @
         scLine)"

definition generatePV :: "tier \<Rightarrow> jsval \<Rightarrow> rendered option" where
  "generatePV tier app =
     (case pv tier of
        None \<Rightarrow> None
      | Some v \<Rightarrow>
          if \<not> truthy (pv_enabled v) \<or> \<not> truthy (pv_type v) \<or> pv_type v = JStr ''none''
          then None
          else case pv_volumeSource v (name tier) app of
                 None \<Rightarrow> None
               | Some volumeSource \<Rightarrow>
                   Some \<lparr> filename = ''pv-'' @ to_str (name tier) @ ''.yaml'',
                          content = pv_header tier v app @ volumeSource \<rparr>)"

section \<open>Plain objects used as dictionaries\<close>

text \<open>
  \<^verbatim>\<open>cmRefs\<close>, \<^verbatim>\<open>secretRefs\<close>, \<^verbatim>\<open>pvcRefs\<close> and \<^verbatim>\<open>rulesByHost\<close> are object literals
  \<^verbatim>\<open>{}\<close> indexed by a tier name or an ingress host. A read \<^verbatim>\<open>obj[k]\<close> of a key that
  is not an own property goes up the prototype chain, so the property names of
  \<^verbatim>\<open>Object.prototype\<close> are never \<^verbatim>\<open>undefined\<close>; an assignment to \<^verbatim>\<open>obj['__proto__']\<close>
  replaces the prototype instead of creating an own property.
\<close>

definition object_prototype_props :: "string list" where
  "object_prototype_props =
     [''constructor'', ''__defineGetter__'', ''__defineSetter__'', ''hasOwnProperty'',
      ''__lookupGetter__'', ''__lookupSetter__'', ''isPrototypeOf'',
      ''propertyIsEnumerable'', ''toString'', ''valueOf'', ''__proto__'',
      ''toLocaleString'']"

text \<open>
  A reference dictionary: \<open>own\<close> maps a key to the generated name held by the stored
  object (\<^verbatim>\<open>cm.cmName\<close>, \<^verbatim>\<open>secret.secretName\<close>, \<^verbatim>\<open>pvc.pvcName\<close>); \<open>proto\<close> is
  the generated name of the object installed as prototype through the key
  \<^verbatim>\<open>__proto__\<close>, if any.
\<close>

record refs =
  own :: "(string \<times> string) list"
  proto :: "string option"

definition refs_empty :: refs where
  "refs_empty = \<lparr> own = [], proto = None \<rparr>"

definition refs_set :: "string \<Rightarrow> string \<Rightarrow> refs \<Rightarrow> refs" where
  "refs_set k n r =
     (if k = ''__proto__'' then r\<lparr> proto := Some n \<rparr>
      else r\<lparr> own := AList.update k n (own r) \<rparr>)"

text \<open>
  \<open>refs_get fld r k\<close> is \<open>None\<close> when \<^verbatim>\<open>r[k]\<close> is \<^verbatim>\<open>undefined\<close>; otherwise \<^verbatim>\<open>r[k]\<close> is
  truthy and the result is \<open>Some\<close> of the value of its property \<open>fld\<close>: the generated
  name for a stored object, \<^verbatim>\<open>undefined\<close> for anything inherited (a built-in function,
  \<^verbatim>\<open>Object.prototype\<close> itself, or one of the three non-empty strings of an object
  installed as prototype).
\<close>

definition refs_get :: "string \<Rightarrow> refs \<Rightarrow> string \<Rightarrow> jsval option" where
  "refs_get fld r k =
     (if k = ''__proto__''
      then Some (case proto r of Some n \<Rightarrow> JStr n | None \<Rightarrow> JUndef)
      else case map_of (own r) k of
             Some n \<Rightarrow> Some (JStr n)
           | None \<Rightarrow>
               if (proto r \<noteq> None \<and> k \<in> {''filename'', ''content'', fld}) \<or>
                  k \<in> set object_prototype_props
               then Some JUndef else None)"

section \<open>Workload renderers\<close>

text \<open>The three kinds of entry of a pod's \<^verbatim>\<open>volumes\<close> list.\<close>

definition volume_configMap :: "string \<Rightarrow> string" where
  "volume_configMap cmName =
     ''        - name: '' @ cmName @ ''-vol'' @ nl @
     ''          configMap:'' @ nl @
     ''            name: '' @ cmName"

definition volume_secret :: "string \<Rightarrow> string" where
  "volume_secret secretName =
     ''        - name: '' @ secretName @ ''-vol'' @ nl @
     ''          secret:'' @ nl @
     ''            secretName: '' @ secretName"

definition volume_pvc :: "string \<Rightarrow> string" where
  "volume_pvc pvcName =
     ''        - name: '' @ pvcName @ ''-vol'' @ nl @
     ''          persistentVolumeClaim:'' @ nl @
     ''            claimName: '' @ pvcName"

definition generateDeployment ::
  "tier \<Rightarrow> jsval \<Rightarrow> jsval \<Rightarrow> jsval option \<Rightarrow> jsval option \<Rightarrow> jsval option \<Rightarrow> string" where
  "generateDeployment tier ns app cmRef secretRef pvcRef =
     (let nm = to_str (name tier);
          deploymentName = to_str app @ ''-'' @ nm;
          envSection = renderEnv (env tier);
          resourcesSection = renderResources (resources tier);
          livenessSection = renderHttpProbe (livenessProbe tier) ''liveness'';
          readinessSection = renderHttpProbe (readinessProbe tier) ''readiness'';
          volumeMounts =
            (case cmRef of None \<Rightarrow> [] | Some cmName \<Rightarrow>
               [''            - name: '' @ to_str cmName @ ''-vol'' @ nl @
                ''              mountPath: /config/'' @ nm]) @
            (case secretRef of None \<Rightarrow> [] | Some secretName \<Rightarrow>
               [''            - name: '' @ to_str secretName @ ''-vol'' @ nl @
                ''              mountPath: /secrets/'' @ nm]) @
            (case pvcRef of None \<Rightarrow> [] | Some pvcName \<Rightarrow>
               [''            - name: '' @ to_str pvcName @ ''-vol'' @ nl @
                ''              mountPath: '' @
                  to_str (js_or (case pvc tier of None \<Rightarrow> JUndef | Some c \<Rightarrow> pvc_mountPath c)
                                (JStr ''/data''))]);
          volumes =
            (case cmRef of None \<Rightarrow> [] | Some cmName \<Rightarrow> [volume_configMap (to_str cmName)]) @
            (case secretRef of None \<Rightarrow> [] | Some secretName \<Rightarrow>
               [volume_secret (to_str secretName)]) @
            (case pvcRef of None \<Rightarrow> [] | Some pvcName \<Rightarrow> [volume_pvc (to_str pvcName)]);
          volumeMountsSection =
            (if volumeMounts \<noteq> []
             then nl @ ''          volumeMounts:'' @ nl @ join nl volumeMounts else []);
          volumesSection =
            (if volumes \<noteq> []
             then nl @ ''      volumes:'' @ nl @ join nl volumes else [])
      in ''apiVersion: apps/v1'' @ nl @
         ''kind: Deployment'' @ nl @
         ''metadata:'' @ nl @
         ''  name: '' @ deploymentName @ nl @
         ''  namespace: '' @ to_str ns @ nl @
         ''  labels:'' @ nl @
         ''    app: '' @ to_str app @ nl @
         ''    tier: '' @ nm @ nl @
         ''spec:'' @ nl @
         ''  replicas: '' @ to_str (replicas tier) @ nl @
         ''  selector:'' @ nl @
         ''    matchLabels:'' @ nl @
         ''      app: '' @ to_str app @ nl @
         ''      tier: '' @ nm @ nl @
         ''  template:'' @ nl @
         ''    metadata:'' @ nl @
         ''      labels:'' @ nl @
         ''        app: '' @ to_str app @ nl @
         ''        tier: '' @ nm @ nl @
         ''    spec:'' @ nl @
         ''      containers:'' @ nl @
         ''        - name: '' @ nm @ nl @
         ''          image: '' @ to_str (image tier) @ nl @
         ''          ports:'' @ nl @
         ''            - containerPort: '' @ to_str (containerPort tier) @
         envSection @ resourcesSection @ livenessSection @ readinessSection @
         volumeMountsSection @ volumesSection @ nl)"

text \<open>
  The pieces of \<^verbatim>\<open>generateStatefulSet\<close> that depend on the persistent volume claim
  and on the references are named, as the source names them.
\<close>

definition ss_refMounts :: "tier \<Rightarrow> jsval option \<Rightarrow> jsval option \<Rightarrow> string list" where
  "ss_refMounts tier cmRef secretRef =
     (case cmRef of None \<Rightarrow> [] | Some cmName \<Rightarrow>
        [''            - name: '' @ to_str cmName @ ''-vol'' @ nl @
         ''              mountPath: /config/'' @ to_str (name tier)]) @
     (case secretRef of None \<Rightarrow> [] | Some secretName \<Rightarrow>
        [''            - name: '' @ to_str secretName @ ''-vol'' @ nl @
         ''              mountPath: /secrets/'' @ to_str (name tier)])"

definition ss_dataMount :: "tier \<Rightarrow> string list" where
  "ss_dataMount tier =
     (case pvc tier of None \<Rightarrow> [] | Some c \<Rightarrow>
        if truthy (pvc_enabled c)
        then [''            - name: data'' @ nl @
              ''              mountPath: '' @ to_str (dflt (pvc_mountPath c) (JStr ''/data''))]
        else [])"

definition ss_volumeMounts :: "tier \<Rightarrow> jsval option \<Rightarrow> jsval option \<Rightarrow> string list" where
  "ss_volumeMounts tier cmRef secretRef = ss_refMounts tier cmRef secretRef @ ss_dataMount tier"

definition ss_volumeClaimTemplates :: "tier \<Rightarrow> string list" where
  "ss_volumeClaimTemplates tier =
     (case pvc tier of None \<Rightarrow> [] | Some c \<Rightarrow>
        if truthy (pvc_enabled c)
        then let size = dflt (pvc_size c) (JStr ''5Gi'');
                 storageClass = dflt (pvc_storageClass c) (JStr []);
                 accessMode = dflt (pvc_accessMode c) (JStr ''ReadWriteOnce'');
                 scLine = (if truthy storageClass
                           then ''        storageClassName: '' @ dq @ to_str storageClass @ dq @ nl
                           else [])
             in [''  volumeClaimTemplates:'' @ nl @
                 ''    - metadata:'' @ nl @
                 ''        name: data'' @ nl @
                 ''      spec:'' @ nl @
                 ''        accessModes:'' @ nl @
                 ''          - '' @ to_str accessMode @ nl @
                 scLine @
                 ''        resources:'' @ nl @
                 ''          requests:'' @ nl @
                 ''            storage: '' @ to_str size]
        else [])"

definition ss_extraVolumes :: "jsval option \<Rightarrow> jsval option \<Rightarrow> string" where
  "ss_extraVolumes cmRef secretRef =
     (if cmRef \<noteq> None \<or> secretRef \<noteq> None
      then nl @ ''      volumes:'' @
           (case cmRef of None \<Rightarrow> [] | Some cmName \<Rightarrow>
              nl @ ''        - name: '' @ to_str cmName @ ''-vol'' @ nl @
              ''          configMap:'' @ nl @
              ''            name: '' @ to_str cmName) @
           (case secretRef of None \<Rightarrow> [] | Some secretName \<Rightarrow>
              nl @ ''        - name: '' @ to_str secretName @ ''-vol'' @ nl @
              ''          secret:'' @ nl @
              ''            secretName: '' @ to_str secretName)
      else [])"

definition generateStatefulSet ::
  "tier \<Rightarrow> jsval \<Rightarrow> jsval \<Rightarrow> jsval option \<Rightarrow> jsval option \<Rightarrow> string" where
  "generateStatefulSet tier ns app cmRef secretRef =
     (let nm = to_str (name tier);
          ssName = to_str app @ ''-'' @ nm;
          headlessServiceName = to_str app @ ''-'' @ nm @ ''-headless'';
          envSection = renderEnv (env tier);
          resourcesSection = renderResources (resources tier);
          livenessSection = renderHttpProbe (livenessProbe tier) ''liveness'';
          readinessSection = renderHttpProbe (readinessProbe tier) ''readiness'';
          volumeMounts = ss_volumeMounts tier cmRef secretRef;
          volumeClaimTemplates = ss_volumeClaimTemplates tier;
          volumeMountsSection =
            (if volumeMounts \<noteq> []
             then nl @ ''          volumeMounts:'' @ nl @ join nl volumeMounts else []);
          vctSection =
            (if volumeClaimTemplates \<noteq> [] then nl @ join nl volumeClaimTemplates else []);
          extraVolumes = ss_extraVolumes cmRef secretRef
      in ''apiVersion: apps/v1'' @ nl @
         ''kind: StatefulSet'' @ nl @
         ''metadata:'' @ nl @
         ''  name: '' @ ssName @ nl @
         ''  namespace: '' @ to_str ns @ nl @
         ''  labels:'' @ nl @
         ''    app: '' @ to_str app @ nl @
         ''    tier: '' @ nm @ nl @
         ''spec:'' @ nl @
         ''  serviceName: '' @ headlessServiceName @ nl @
         ''  replicas: '' @ to_str (replicas tier) @ nl @
         ''  selector:'' @ nl @
         ''    matchLabels:'' @ nl @
         ''      app: '' @ to_str app @ nl @
         ''      tier: '' @ nm @ nl @
         ''  template:'' @ nl @
         ''    metadata:'' @ nl @
         ''      labels:'' @ nl @
         ''        app: '' @ to_str app @ nl @
         ''        tier: '' @ nm @ nl @
         ''    spec:'' @ nl @
         ''      containers:'' @ nl @
         ''        - name: '' @ nm @ nl @
         ''          image: '' @ to_str (image tier) @ nl @
         ''          ports:'' @ nl @
         ''            - containerPort: '' @ to_str (containerPort tier) @
         envSection @ resourcesSection @ livenessSection @ readinessSection @
         volumeMountsSection @ extraVolumes @ vctSection @ nl)"

section \<open>Network renderers\<close>

definition service_doc :: "tier \<Rightarrow> service_spec \<Rightarrow> jsval \<Rightarrow> jsval \<Rightarrow> string" where
  "service_doc tier svc ns app =
     ''apiVersion: v1'' @ nl @
     ''kind: Service'' @ nl @
     ''metadata:'' @ nl @
     ''  name: '' @ to_str app @ ''-'' @ to_str (name tier) @ nl @
     ''  namespace: '' @ to_str ns @ nl @
     ''  labels:'' @ nl @
     ''    app: '' @ to_str app @ nl @
     ''    tier: '' @ to_str (name tier) @ nl @
     ''spec:'' @ nl @
     ''  type: '' @ to_str (svc_type svc) @ nl @
     ''  selector:'' @ nl @
     ''    app: '' @ to_str app @ nl @
     ''    tier: '' @ to_str (name tier) @ nl @
     ''  ports:'' @ nl @
     ''    - name: http'' @ nl @
     ''      port: '' @ to_str (svc_port svc) @ nl @
     ''      targetPort: '' @ to_str (js_or (targetPort svc) (containerPort tier)) @ nl"

definition generateService :: "tier \<Rightarrow> jsval \<Rightarrow> jsval \<Rightarrow> string option" where
  "generateService tier ns app =
     (case service tier of
        None \<Rightarrow> None
      | Some svc \<Rightarrow> Some (service_doc tier svc ns app))"

definition generateHeadlessService :: "tier \<Rightarrow> jsval \<Rightarrow> jsval \<Rightarrow> string" where
  "generateHeadlessService tier ns app =
     ''apiVersion: v1'' @ nl @
     ''kind: Service'' @ nl @
     ''metadata:'' @ nl @
     ''  name: '' @ to_str app @ ''-'' @ to_str (name tier) @ ''-headless'' @ nl @
     ''  namespace: '' @ to_str ns @ nl @
     ''  labels:'' @ nl @
     ''    app: '' @ to_str app @ nl @
     ''    tier: '' @ to_str (name tier) @ nl @
     ''spec:'' @ nl @
     ''  clusterIP: None'' @ nl @
     ''  selector:'' @ nl @
     ''    app: '' @ to_str app @ nl @
     ''    tier: '' @ to_str (name tier) @ nl @
     ''  ports:'' @ nl @
     ''    - name: http'' @ nl @
     ''      port: '' @ to_str (js_or (containerPort tier) (JNum 80)) @ nl @
     ''      targetPort: '' @ to_str (js_or (containerPort tier) (JNum 80)) @ nl"

text \<open>
  Failures of the generator: the validation error it throws itself (its \<^verbatim>\<open>details\<close>;
  \<^verbatim>\<open>statusCode\<close> is always 400), and the \<^verbatim>\<open>TypeError\<close> the runtime raises when a
  value that is not an array is sent \<^verbatim>\<open>push\<close>.
\<close>

datatype error = ValidationError "string list" | TypeError

record rule =
  rule_path :: jsval
  rule_serviceName :: string
  rule_servicePort :: jsval

type_synonym rulesByHost = "(string \<times> rule list) list"

text \<open>
  The body of the \<^verbatim>\<open>tiers.forEach\<close> in \<^verbatim>\<open>generateIngress\<close>. When the host is an
  inherited property name, \<^verbatim>\<open>rulesByHost[host]\<close> is truthy, no array is created, and
  \<^verbatim>\<open>rulesByHost[host].push\<close> is not a function.
\<close>

definition ingress_addTier :: "jsval \<Rightarrow> tier \<Rightarrow> rulesByHost \<Rightarrow> error + rulesByHost" where
  "ingress_addTier app tier m =
     (case ingress tier of
        None \<Rightarrow> Inr m
      | Some ing \<Rightarrow>
          (case service tier of
             None \<Rightarrow> Inr m
           | Some svc \<Rightarrow>
               let host = to_str (ing_host ing);
                   r = \<lparr> rule_path = ing_path ing,
                         rule_serviceName = to_str app @ ''-'' @ to_str (name tier),
                         rule_servicePort = svc_port svc \<rparr>
               in case map_of m host of
                    Some rs \<Rightarrow> Inr (AList.update host (rs @ [r]) m)
                  | None \<Rightarrow>
                      if host \<in> set object_prototype_props then Inl TypeError
                      else Inr (AList.update host [r] m)))"

text \<open>A \<^verbatim>\<open>forEach\<close> whose body may throw: the first exception ends the loop.\<close>

fun forEachE :: "('a \<Rightarrow> 's \<Rightarrow> error + 's) \<Rightarrow> 'a list \<Rightarrow> 's \<Rightarrow> error + 's" where
  "forEachE f [] s = Inr s"
| "forEachE f (x # xs) s = (case f x s of Inl e \<Rightarrow> Inl e | Inr s' \<Rightarrow> forEachE f xs s')"

text \<open>
  \<^verbatim>\<open>Object.keys\<close>: the keys that are array indices (canonical decimal numerals below
  \<open>2\<^sup>3\<^sup>2 - 1\<close>) come first, in ascending numeric order, then the other keys in insertion
  order.
\<close>

definition digits_val :: "string \<Rightarrow> nat" where
  "digits_val s = fold (\<lambda>c n. 10 * n + (of_char c - 48)) s 0"

definition is_array_index :: "string \<Rightarrow> bool" where
  "is_array_index s =
     (s \<noteq> [] \<and> list_all (\<lambda>c. c \<in> set ''0123456789'') s \<and>
      (length s = 1 \<or> hd s \<noteq> CHR ''0'') \<and> digits_val s < 4294967295)"

definition object_keys :: "(string \<times> 'a) list \<Rightarrow> string list" where
  "object_keys m =
     (let ks = map fst m
      in sort_key digits_val (filter is_array_index ks) @
         filter (\<lambda>k. \<not> is_array_index k) ks)"

definition ingress_path :: "rule \<Rightarrow> string" where
  "ingress_path r =
     ''        - path: '' @ to_str (rule_path r) @ nl @
     ''          pathType: Prefix'' @ nl @
     ''          backend:'' @ nl @
     ''            service:'' @ nl @
     ''              name: '' @ rule_serviceName r @ nl @
     ''              port:'' @ nl @
     ''                number: '' @ to_str (rule_servicePort r)"

definition ingress_host_block :: "string \<Rightarrow> rule list \<Rightarrow> string" where
  "ingress_host_block host rs =
     ''  - host: '' @ host @ nl @
     ''    http:'' @ nl @
     ''      paths:'' @ nl @
     join nl (map ingress_path rs)"

definition ingress_doc :: "jsval \<Rightarrow> jsval \<Rightarrow> string list \<Rightarrow> string" where
  "ingress_doc ns app blocks =
     ''apiVersion: networking.k8s.io/v1'' @ nl @
     ''kind: Ingress'' @ nl @
     ''metadata:'' @ nl @
     ''  name: '' @ to_str app @ ''-ingress'' @ nl @
     ''  namespace: '' @ to_str ns @ nl @
     ''  annotations:'' @ nl @
     ''    nginx.ingress.kubernetes.io/rewrite-target: /'' @ nl @
     ''spec:'' @ nl @
     ''  rules:'' @ nl @
     join nl blocks @ nl"

definition generateIngress :: "tier list \<Rightarrow> jsval \<Rightarrow> jsval \<Rightarrow> error + string option" where
  "generateIngress ts ns app =
     (case forEachE (ingress_addTier app) ts [] of
        Inl e \<Rightarrow> Inl e
      | Inr rulesByHost \<Rightarrow>
          let hosts = object_keys rulesByHost in
          if hosts = [] then Inr None
          else Inr (Some (ingress_doc ns app
                 (map (\<lambda>host. ingress_host_block host
                         (case map_of rulesByHost host of Some rs \<Rightarrow> rs | None \<Rightarrow> []))
                      hosts))))"

definition generateRBAC :: "jsval \<Rightarrow> jsval \<Rightarrow> (string \<times> string) list" where
  "generateRBAC ns app =
     (let saName = to_str app @ ''-sa'';
          roleName = to_str app @ ''-role'';
          rbName = to_str app @ ''-rb''
      in [(''serviceaccount.yaml'',
           ''apiVersion: v1'' @ nl @
           ''kind: ServiceAccount'' @ nl @
           ''metadata:'' @ nl @
           ''  name: '' @ saName @ nl @
           ''  namespace: '' @ to_str ns @ nl),
          (''role.yaml'',
           ''apiVersion: rbac.authorization.k8s.io/v1'' @ nl @
           ''kind: Role'' @ nl @
           ''metadata:'' @ nl @
           ''  name: '' @ roleName @ nl @
           ''  namespace: '' @ to_str ns @ nl @
           ''rules:'' @ nl @
           ''  - apiGroups: ['' @ dq @ dq @ '']'' @ nl @
           ''    resources: ['' @ dq @ ''pods'' @ dq @ '', '' @ dq @ ''services'' @ dq @ '', '' @
                 dq @ ''configmaps'' @ dq @ '', '' @ dq @ ''secrets'' @ dq @ '']'' @ nl @
           ''    verbs: ['' @ dq @ ''get'' @ dq @ '', '' @ dq @ ''list'' @ dq @ '', '' @
                 dq @ ''watch'' @ dq @ '', '' @ dq @ ''create'' @ dq @ '', '' @
                 dq @ ''update'' @ dq @ '', '' @ dq @ ''delete'' @ dq @ '']'' @ nl),
          (''rolebinding.yaml'',
           ''apiVersion: rbac.authorization.k8s.io/v1'' @ nl @
           ''kind: RoleBinding'' @ nl @
           ''metadata:'' @ nl @
           ''  name: '' @ rbName @ nl @
           ''  namespace: '' @ to_str ns @ nl @
           ''subjects:'' @ nl @
           ''  - kind: ServiceAccount'' @ nl @
           ''    name: '' @ saName @ nl @
           ''    namespace: '' @ to_str ns @ nl @
           ''roleRef:'' @ nl @
           ''  kind: Role'' @ nl @
           ''  name: '' @ roleName @ nl @
           ''  apiGroup: rbac.authorization.k8s.io'' @ nl)])"

section \<open>Compiler orchestration\<close>

text \<open>
  \<^verbatim>\<open>files\<close> is an object whose keys all end in \<^verbatim>\<open>.yaml\<close>: an association list in
  insertion order, where writing an existing key replaces its value in place.
\<close>

type_synonym files = "(string \<times> string) list"

definition set_file :: "string \<Rightarrow> string \<Rightarrow> files \<Rightarrow> files" where
  "set_file k v fs = AList.update k v fs"

text \<open>Every per-tier file name has the shape \<^verbatim>\<open>kind-name.yaml\<close>.\<close>

definition file_key :: "string \<Rightarrow> string \<Rightarrow> string" where
  "file_key kind n = kind @ ''-'' @ n @ ''.yaml''"

definition validation_errors :: "payload \<Rightarrow> string list" where
  "validation_errors p =
     (if \<not> truthy (appName p) then [''appName is required''] else []) @
     (if \<not> truthy (namespace p) then [''namespace is required''] else []) @
     (case tiers p of
        None \<Rightarrow> [''At least one tier is required'']
      | Some ts \<Rightarrow> if ts = [] then [''At least one tier is required''] else [])"

record pass1 =
  files :: files
  cmRefs :: refs
  secretRefs :: refs
  pvcRefs :: refs

text \<open>
  The body of the first \<^verbatim>\<open>tiers.forEach\<close> is four blocks in sequence: ConfigMap,
  Secret, PVC (Deployment tiers only) and PV.
\<close>

definition pass1_configMap :: "jsval \<Rightarrow> jsval \<Rightarrow> tier \<Rightarrow> pass1 \<Rightarrow> pass1" where
  "pass1_configMap ns app tier s =
     (case renderConfigMap tier ns app of
        None \<Rightarrow> s
      | Some cm \<Rightarrow> s\<lparr> files := set_file (filename cm) (content cm) (files s),
                       cmRefs := refs_set (to_str (name tier)) (refName cm) (cmRefs s) \<rparr>)"

definition pass1_secret :: "jsval \<Rightarrow> jsval \<Rightarrow> tier \<Rightarrow> pass1 \<Rightarrow> pass1" where
  "pass1_secret ns app tier s =
     (case renderSecret tier ns app of
        None \<Rightarrow> s
      | Some secret \<Rightarrow>
          s\<lparr> files := set_file (filename secret) (content secret) (files s),
             secretRefs := refs_set (to_str (name tier)) (refName secret) (secretRefs s) \<rparr>)"

text \<open>
  The condition of the PVC block:
  \<^verbatim>\<open>tier.pvc && tier.pvc.enabled && (tier.workloadType === 'Deployment' || !tier.workloadType)\<close>.
\<close>

definition pvc_block_runs :: "tier \<Rightarrow> bool" where
  "pvc_block_runs tier =
     ((case pvc tier of None \<Rightarrow> False | Some c \<Rightarrow> truthy (pvc_enabled c)) \<and>
      (workloadType tier = JStr ''Deployment'' \<or> \<not> truthy (workloadType tier)))"

definition pass1_pvc :: "jsval \<Rightarrow> jsval \<Rightarrow> tier \<Rightarrow> pass1 \<Rightarrow> pass1" where
  "pass1_pvc ns app tier s =
     (if pvc_block_runs tier
      then (case generatePVC tier ns app of
              None \<Rightarrow> s
            | Some c \<Rightarrow>
                s\<lparr> files := set_file (filename c) (content c) (files s),
                   pvcRefs := refs_set (to_str (name tier)) (refName c) (pvcRefs s) \<rparr>)
      else s)"

definition pass1_pv :: "jsval \<Rightarrow> tier \<Rightarrow> pass1 \<Rightarrow> pass1" where
  "pass1_pv app tier s =
     (if (case pv tier of None \<Rightarrow> False
          | Some v \<Rightarrow> truthy (pv_enabled v) \<and> truthy (pv_type v) \<and> pv_type v \<noteq> JStr ''none'')
      then (case generatePV tier app of
              None \<Rightarrow> s
            | Some v \<Rightarrow> s\<lparr> files := set_file (filename v) (content v) (files s) \<rparr>)
      else s)"

definition firstPass_tier :: "jsval \<Rightarrow> jsval \<Rightarrow> tier \<Rightarrow> pass1 \<Rightarrow> pass1" where
  "firstPass_tier ns app tier s =
     pass1_pv app tier (pass1_pvc ns app tier (pass1_secret ns app tier
       (pass1_configMap ns app tier s)))"

definition secondPass_tier ::
  "jsval \<Rightarrow> jsval \<Rightarrow> refs \<Rightarrow> refs \<Rightarrow> refs \<Rightarrow> tier \<Rightarrow> files \<Rightarrow> files" where
  "secondPass_tier ns app cms secrets pvcs tier fs =
     (let wt = js_or (workloadType tier) (JStr ''Deployment'');
          cmRef = refs_get ''cmName'' cms (to_str (name tier));
          secretRef = refs_get ''secretName'' secrets (to_str (name tier));
          pvcRef = refs_get ''pvcName'' pvcs (to_str (name tier));
          fs1 = (if wt = JStr ''StatefulSet''
                 then set_file (''statefulset-'' @ to_str (name tier) @ ''.yaml'')
                        (generateStatefulSet tier ns app cmRef secretRef)
                        (set_file (''headless-service-'' @ to_str (name tier) @ ''.yaml'')
                           (generateHeadlessService tier ns app) fs)
                 else set_file (''deployment-'' @ to_str (name tier) @ ''.yaml'')
                        (generateDeployment tier ns app cmRef secretRef pvcRef) fs)
      in case generateService tier ns app of
           None \<Rightarrow> fs1
         | Some svcContent \<Rightarrow> set_file (''service-'' @ to_str (name tier) @ ''.yaml'') svcContent fs1)"

text \<open>The two \<^verbatim>\<open>tiers.forEach\<close> loops; the second reads the dictionaries the first built.\<close>

definition firstPass :: "jsval \<Rightarrow> jsval \<Rightarrow> tier list \<Rightarrow> files \<Rightarrow> pass1" where
  "firstPass ns app ts fs0 =
     fold (firstPass_tier ns app) ts
       \<lparr> files = fs0, cmRefs = refs_empty, secretRefs = refs_empty, pvcRefs = refs_empty \<rparr>"

definition secondPass :: "jsval \<Rightarrow> jsval \<Rightarrow> pass1 \<Rightarrow> tier list \<Rightarrow> files" where
  "secondPass ns app s1 ts =
     fold (secondPass_tier ns app (cmRefs s1) (secretRefs s1) (pvcRefs s1)) ts (files s1)"

text \<open>\<^verbatim>\<open>files\<close> before the first pass: empty, or holding the Namespace document.\<close>

definition initial_files :: "payload \<Rightarrow> files" where
  "initial_files p =
     (if truthy (createNamespace p)
      then set_file ''namespace.yaml'' (generateNamespace (namespace p)) [] else [])"

definition generateKubernetesManifests :: "payload \<Rightarrow> error + files" where
  "generateKubernetesManifests p =
     (let errors = validation_errors p in
      if errors \<noteq> [] then Inl (ValidationError errors)
      else
        let app = appName p;
            ns = namespace p;
            ts = (case tiers p of None \<Rightarrow> [] | Some ts \<Rightarrow> ts);
            fs0 = initial_files p;
            s1 = firstPass ns app ts fs0;
            fs2 = secondPass ns app s1 ts
        in case generateIngress ts ns app of
             Inl e \<Rightarrow> Inl e
           | Inr ing \<Rightarrow>
               let fs3 = (case ing of None \<Rightarrow> fs2 | Some d \<Rightarrow> set_file ''ingress.yaml'' d fs2);
                   fs4 = (if truthy (enableRBAC p)
                          then fold (\<lambda>(k, v). set_file k v) (generateRBAC ns app) fs3
                          else fs3)
               in Inr fs4)"

section \<open>Building requests\<close>

text \<open>
  The object \<^verbatim>\<open>{}\<close> at each record type: every scalar field \<^verbatim>\<open>undefined\<close>, every
  sub-object and array absent. A concrete request is written as an update of these.
\<close>

definition empty_pvc :: pvc_spec where
  "empty_pvc = \<lparr> pvc_enabled = JUndef, pvc_storageClass = JUndef, pvc_size = JUndef,
                 pvc_accessMode = JUndef, pvc_mountPath = JUndef \<rparr>"

definition empty_pv :: pv_spec where
  "empty_pv = \<lparr> pv_enabled = JUndef, pv_type = JUndef, pv_size = JUndef,
                pv_accessMode = JUndef, reclaimPolicy = JUndef, pv_storageClass = JUndef,
                hostPath = JUndef, nfsServer = JUndef, nfsPath = JUndef, localPath = JUndef,
                awsVolumeID = JUndef, awsFsType = JUndef, gcePdName = JUndef,
                gceFsType = JUndef, azureDiskName = JUndef, azureDiskURI = JUndef,
                azureKind = JUndef, azureCachingMode = JUndef, cephMonitors = JUndef,
                cephPool = JUndef, cephImage = JUndef, cephUser = JUndef,
                cephSecretName = JUndef, cephFsType = JUndef, iscsiTargetPortal = JUndef,
                iscsiIqn = JUndef, iscsiLun = JUndef, iscsiFsType = JUndef \<rparr>"

definition empty_tier :: tier where
  "empty_tier = \<lparr> name = JUndef, replicas = JUndef, image = JUndef, containerPort = JUndef,
                  workloadType = JUndef, env = None, configMapData = None, secretData = None,
                  resources = None, livenessProbe = None, readinessProbe = None,
                  pvc = None, pv = None, service = None, ingress = None \<rparr>"

definition empty_payload :: payload where
  "empty_payload = \<lparr> appName = JUndef, namespace = JUndef, createNamespace = JUndef,
                     enableRBAC = JUndef, tiers = None \<rparr>"

text \<open>The request of the specification's scenario.\<close>

definition scenario_tier :: tier where
  "scenario_tier =
     empty_tier\<lparr> name := JStr ''api'', replicas := JNum 2, image := JStr ''nginx:1.27'',
                 containerPort := JNum 80,
                 service := Some \<lparr> svc_type = JStr ''ClusterIP'', svc_port = JNum 80,
                                    targetPort = JUndef \<rparr> \<rparr>"

definition scenario :: payload where
  "scenario =
     empty_payload\<lparr> appName := JStr ''web'', namespace := JStr ''dev'',
                    createNamespace := JBool True, tiers := Some [scenario_tier] \<rparr>"

text \<open>Two tiers with the same name and the default workload type.\<close>

definition dup_tier1 :: tier where
  "dup_tier1 = empty_tier\<lparr> name := JStr ''api'', replicas := JNum 1,
                            image := JStr ''nginx:1.26'', containerPort := JNum 80 \<rparr>"

definition dup_tier2 :: tier where
  "dup_tier2 = empty_tier\<lparr> name := JStr ''api'', replicas := JNum 3,
                            image := JStr ''nginx:1.27'', containerPort := JNum 8080 \<rparr>"

definition dup_request :: payload where
  "dup_request =
     empty_payload\<lparr> appName := JStr ''web'', namespace := JStr ''dev'',
                    tiers := Some [dup_tier1, dup_tier2] \<rparr>"

text \<open>
  A StatefulSet tier with a persistent volume claim, a ConfigMap, and an iSCSI volume
  without \<^verbatim>\<open>iscsiFsType\<close>, beside a Deployment tier whose NFS volume lacks its server.
\<close>

definition db_tier :: tier where
  "db_tier =
     empty_tier\<lparr> name := JStr ''db'', replicas := JNum 1, image := JStr ''postgres:16'',
                 containerPort := JNum 5432, workloadType := JStr ''StatefulSet'',
                 configMapData := Some [\<lparr> kv_key = JStr ''MODE'', kv_value = JStr ''prod'' \<rparr>],
                 pvc := Some (empty_pvc\<lparr> pvc_enabled := JBool True,
                                           pvc_mountPath := JStr ''/var/lib/pg'' \<rparr>),
                 pv := Some (empty_pv\<lparr> pv_enabled := JBool True, pv_type := JStr ''iscsi'',
                                         iscsiTargetPortal := JStr ''10.0.0.5:3260'',
                                         iscsiIqn := JStr ''iqn.2001-04.com.example:storage'',
                                         iscsiLun := JStr ''0'' \<rparr>) \<rparr>"

definition cache_tier :: tier where
  "cache_tier =
     empty_tier\<lparr> name := JStr ''cache'', replicas := JNum 1, image := JStr ''redis:7'',
                 containerPort := JNum 6379,
                 pv := Some (empty_pv\<lparr> pv_enabled := JBool True, pv_type := JStr ''nfs'',
                                         nfsPath := JStr ''/exports/cache'' \<rparr>) \<rparr>"

definition storage_request :: payload where
  "storage_request =
     empty_payload\<lparr> appName := JStr ''shop'', namespace := JStr ''prod'',
                    tiers := Some [db_tier, cache_tier] \<rparr>"

text \<open>A single Deployment tier with a ConfigMap.\<close>

definition cm_tier :: tier where
  "cm_tier =
     empty_tier\<lparr> name := JStr ''api'', replicas := JNum 2, image := JStr ''nginx:1.27'',
                 containerPort := JNum 80,
                 configMapData := Some [\<lparr> kv_key = JStr ''MODE'', kv_value = JStr ''prod'' \<rparr>] \<rparr>"

definition cm_request :: payload where
  "cm_request =
     empty_payload\<lparr> appName := JStr ''web'', namespace := JStr ''dev'',
                    tiers := Some [cm_tier] \<rparr>"

text \<open>
  Two tiers that both declare a Service and an Ingress rule on the host
  \<^verbatim>\<open>constructor\<close>, a well-formed single-label host name.
\<close>

definition ctor_tier1 :: tier where
  "ctor_tier1 =
     empty_tier\<lparr> name := JStr ''api'', replicas := JNum 1, image := JStr ''nginx:1.27'',
                 containerPort := JNum 80,
                 service := Some \<lparr> svc_type = JStr ''ClusterIP'', svc_port = JNum 80,
                                    targetPort = JUndef \<rparr>,
                 ingress := Some \<lparr> ing_host = JStr ''constructor'', ing_path = JStr ''/api'' \<rparr> \<rparr>"

definition ctor_tier2 :: tier where
  "ctor_tier2 =
     empty_tier\<lparr> name := JStr ''web'', replicas := JNum 1, image := JStr ''nginx:1.27'',
                 containerPort := JNum 80,
                 service := Some \<lparr> svc_type = JStr ''ClusterIP'', svc_port = JNum 80,
                                    targetPort = JUndef \<rparr>,
                 ingress := Some \<lparr> ing_host = JStr ''constructor'', ing_path = JStr ''/'' \<rparr> \<rparr>"

definition ctor_request :: payload where
  "ctor_request =
     empty_payload\<lparr> appName := JStr ''shop'', namespace := JStr ''prod'',
                    tiers := Some [ctor_tier1, ctor_tier2] \<rparr>"

text \<open>
  One tier whose NFS volume lacks its server, with a Service and an Ingress rule on the
  host \<^verbatim>\<open>constructor\<close>.
\<close>

definition nfs_ctor_tier :: tier where
  "nfs_ctor_tier =
     empty_tier\<lparr> name := JStr ''cache'', replicas := JNum 1, image := JStr ''redis:7'',
                 containerPort := JNum 6379,
                 pv := Some (empty_pv\<lparr> pv_enabled := JBool True, pv_type := JStr ''nfs'',
                                         nfsPath := JStr ''/exports/cache'' \<rparr>),
                 service := Some \<lparr> svc_type = JStr ''ClusterIP'', svc_port = JNum 6379,
                                    targetPort = JUndef \<rparr>,
                 ingress := Some \<lparr> ing_host = JStr ''constructor'', ing_path = JStr ''/'' \<rparr> \<rparr>"

definition nfs_ctor_request :: payload where
  "nfs_ctor_request =
     empty_payload\<lparr> appName := JStr ''shop'', namespace := JStr ''prod'',
                    tiers := Some [nfs_ctor_tier] \<rparr>"

text \<open>One tier with a complete iSCSI volume whose LUN is the number \<open>0\<close>.\<close>

definition lun0_tier :: tier where
  "lun0_tier =
     empty_tier\<lparr> name := JStr ''db'', replicas := JNum 1, image := JStr ''postgres:16'',
                 containerPort := JNum 5432,
                 pv := Some (empty_pv\<lparr> pv_enabled := JBool True, pv_type := JStr ''iscsi'',
                                         iscsiTargetPortal := JStr ''10.0.0.5:3260'',
                                         iscsiIqn := JStr ''iqn.2001-04.com.example:storage'',
                                         iscsiLun := JNum 0 \<rparr>) \<rparr>"

definition lun0_request :: payload where
  "lun0_request =
     empty_payload\<lparr> appName := JStr ''shop'', namespace := JStr ''prod'',
                    tiers := Some [lun0_tier] \<rparr>"

section \<open>Properties of the generator\<close>

subsection \<open>Validation\<close>

text \<open>
  C1. A request that lacks any of \<^verbatim>\<open>appName\<close>, \<^verbatim>\<open>namespace\<close> or a non-empty
  \<^verbatim>\<open>tiers\<close> array is rejected with a validation error and no file mapping; the list of
  violations names each missing field, and only the missing ones.
\<close>

theorem validation_completeness:
  assumes "\<not> truthy (appName p) \<or> \<not> truthy (namespace p) \<or> tiers p = None \<or> tiers p = Some []"
  shows "\<exists>errs. generateKubernetesManifests p = Inl (ValidationError errs) \<and>
           (''appName is required'' \<in> set errs \<longleftrightarrow> \<not> truthy (appName p)) \<and>
           (''namespace is required'' \<in> set errs \<longleftrightarrow> \<not> truthy (namespace p)) \<and>
           (''At least one tier is required'' \<in> set errs \<longleftrightarrow>
              (tiers p = None \<or> tiers p = Some []))"
proof -
  have ne: "validation_errors p \<noteq> []"
    using assms by (auto simp: validation_errors_def split: option.splits)
  have "generateKubernetesManifests p = Inl (ValidationError (validation_errors p))"
    using ne by (simp add: generateKubernetesManifests_def Let_def)
  moreover have "''appName is required'' \<in> set (validation_errors p) \<longleftrightarrow> \<not> truthy (appName p)"
    by (simp add: validation_errors_def split: option.splits)
  moreover have "''namespace is required'' \<in> set (validation_errors p) \<longleftrightarrow> \<not> truthy (namespace p)"
    by (simp add: validation_errors_def split: option.splits)
  moreover have "''At least one tier is required'' \<in> set (validation_errors p) \<longleftrightarrow>
                   (tiers p = None \<or> tiers p = Some [])"
    by (simp add: validation_errors_def split: option.splits)
  ultimately show ?thesis by blast
qed

theorem validation_completeness_witness:
  "\<exists>errs. generateKubernetesManifests (empty_payload\<lparr>appName := JStr ''web''\<rparr>)
             = Inl (ValidationError errs) \<and>
          ''appName is required'' \<notin> set errs \<and>
          ''namespace is required'' \<in> set errs \<and>
          ''At least one tier is required'' \<in> set errs"
  using validation_completeness [of "empty_payload\<lparr>appName := JStr ''web''\<rparr>"]
  by (simp add: empty_payload_def)

subsection \<open>The scenario\<close>

lemma scenario_eval:
  "(case generateKubernetesManifests scenario of
      Inl e \<Rightarrow> False
    | Inr fs \<Rightarrow>
        map fst fs = [''namespace.yaml'', ''deployment-api.yaml'', ''service-api.yaml''] \<and>
        (case map_of fs ''deployment-api.yaml'' of
           None \<Rightarrow> False
         | Some d \<Rightarrow> sublist ''replicas: 2'' d \<and> sublist ''image: nginx:1.27'' d) \<and>
        (case map_of fs ''service-api.yaml'' of
           None \<Rightarrow> False
         | Some s \<Rightarrow> sublist ''port: 80'' s))"
  by code_simp

text \<open>
  C2. The scenario request compiles to exactly the three files \<^verbatim>\<open>namespace.yaml\<close>,
  \<^verbatim>\<open>deployment-api.yaml\<close> and \<^verbatim>\<open>service-api.yaml\<close> (so no ConfigMap, Secret, PVC,
  PV, Ingress or RBAC file); the Deployment contains \<^verbatim>\<open>replicas: 2\<close> and
  \<^verbatim>\<open>image: nginx:1.27\<close>, the Service contains \<^verbatim>\<open>port: 80\<close>.
\<close>

theorem scenario_files:
  "\<exists>fs d s. generateKubernetesManifests scenario = Inr fs \<and>
     map fst fs = [''namespace.yaml'', ''deployment-api.yaml'', ''service-api.yaml''] \<and>
     map_of fs ''deployment-api.yaml'' = Some d \<and>
     sublist ''replicas: 2'' d \<and> sublist ''image: nginx:1.27'' d \<and>
     map_of fs ''service-api.yaml'' = Some s \<and> sublist ''port: 80'' s"
  using scenario_eval by (auto split: sum.splits option.splits)

theorem scenario_files_witness:
  "\<exists>fs. generateKubernetesManifests scenario = Inr fs \<and>
     map fst fs = [''namespace.yaml'', ''deployment-api.yaml'', ''service-api.yaml'']"
proof -
  from scenario_files obtain fs d s where
    "generateKubernetesManifests scenario = Inr fs \<and>
     map fst fs = [''namespace.yaml'', ''deployment-api.yaml'', ''service-api.yaml''] \<and>
     map_of fs ''deployment-api.yaml'' = Some d \<and>
     sublist ''replicas: 2'' d \<and> sublist ''image: nginx:1.27'' d \<and>
     map_of fs ''service-api.yaml'' = Some s \<and> sublist ''port: 80'' s"
    by (elim exE)
  then show ?thesis by (intro exI [of _ fs]) (elim conjE, intro conjI, assumption+)
qed

subsection \<open>The file mapping\<close>

lemma map_of_set_file: "map_of (set_file k v fs) = (map_of fs)(k \<mapsto> v)"
  by (simp add: set_file_def update_conv')

lemma distinct_set_file: "distinct (map fst fs) \<Longrightarrow> distinct (map fst (set_file k v fs))"
  by (simp add: set_file_def distinct_update)

lemma set_set_file: "set (set_file k v fs) \<subseteq> insert (k, v) (set fs)"
  unfolding set_file_def by (induction fs) auto

lemma in_keys_iff: "k \<in> fst ` set fs \<longleftrightarrow> map_of fs k \<noteq> None"
  by (simp add: map_of_eq_None_iff)

lemma file_key_inject [simp]: "file_key kind n = file_key kind m \<longleftrightarrow> n = m"
  by (simp add: file_key_def)

lemma file_key_kinds [simp]:
  "file_key ''configmap'' n \<noteq> file_key ''secret'' m"
  "file_key ''configmap'' n \<noteq> file_key ''pvc'' m"
  "file_key ''configmap'' n \<noteq> file_key ''pv'' m"
  "file_key ''secret'' n \<noteq> file_key ''configmap'' m"
  "file_key ''secret'' n \<noteq> file_key ''pvc'' m"
  "file_key ''secret'' n \<noteq> file_key ''pv'' m"
  "file_key ''pvc'' n \<noteq> file_key ''configmap'' m"
  "file_key ''pvc'' n \<noteq> file_key ''secret'' m"
  "file_key ''pvc'' n \<noteq> file_key ''pv'' m"
  "file_key ''pv'' n \<noteq> file_key ''configmap'' m"
  "file_key ''pv'' n \<noteq> file_key ''secret'' m"
  "file_key ''pv'' n \<noteq> file_key ''pvc'' m"
  by (simp_all add: file_key_def)

lemma file_key_kinds2 [simp]:
  "file_key ''deployment'' n \<noteq> file_key ''statefulset'' m"
  "file_key ''deployment'' n \<noteq> file_key ''headless-service'' m"
  "file_key ''deployment'' n \<noteq> file_key ''service'' m"
  "file_key ''statefulset'' n \<noteq> file_key ''deployment'' m"
  "file_key ''statefulset'' n \<noteq> file_key ''headless-service'' m"
  "file_key ''statefulset'' n \<noteq> file_key ''service'' m"
  "file_key ''headless-service'' n \<noteq> file_key ''deployment'' m"
  "file_key ''headless-service'' n \<noteq> file_key ''statefulset'' m"
  "file_key ''headless-service'' n \<noteq> file_key ''service'' m"
  "file_key ''service'' n \<noteq> file_key ''deployment'' m"
  "file_key ''service'' n \<noteq> file_key ''statefulset'' m"
  "file_key ''service'' n \<noteq> file_key ''headless-service'' m"
  by (simp_all add: file_key_def)

lemma file_key_pass12 [simp]:
  "k1 \<in> {''configmap'', ''secret'', ''pvc'', ''pv''} \<Longrightarrow>
   k2 \<in> {''deployment'', ''statefulset'', ''headless-service'', ''service''} \<Longrightarrow>
   file_key k1 n \<noteq> file_key k2 m"
  by (auto simp: file_key_def)

lemma file_key_pass21 [simp]:
  "k1 \<in> {''configmap'', ''secret'', ''pvc'', ''pv''} \<Longrightarrow>
   k2 \<in> {''deployment'', ''statefulset'', ''headless-service'', ''service''} \<Longrightarrow>
   file_key k2 m \<noteq> file_key k1 n"
  by (auto simp: file_key_def)

lemma file_key_fixed [simp]:
  "k \<in> {''configmap'', ''secret'', ''pvc'', ''pv'', ''deployment'', ''statefulset'',
         ''headless-service'', ''service''} \<Longrightarrow>
   file_key k n \<notin> {''namespace.yaml'', ''ingress.yaml'', ''serviceaccount.yaml'',
                    ''role.yaml'', ''rolebinding.yaml''}"
  by (auto simp: file_key_def)

subsection \<open>File names of the leaf renderers\<close>

lemma renderConfigMap_filename:
  "renderConfigMap t ns app = Some r \<Longrightarrow> filename r = file_key ''configmap'' (to_str (name t))"
  by (auto simp: renderConfigMap_def file_key_def Let_def split: if_splits)

lemma renderSecret_filename:
  "renderSecret t ns app = Some r \<Longrightarrow> filename r = file_key ''secret'' (to_str (name t))"
  by (auto simp: renderSecret_def file_key_def Let_def split: if_splits)

lemma generatePVC_filename:
  "generatePVC t ns app = Some r \<Longrightarrow> filename r = file_key ''pvc'' (to_str (name t))"
  by (auto simp: generatePVC_def file_key_def Let_def split: if_splits option.splits)

lemma generatePV_filename:
  "generatePV t app = Some r \<Longrightarrow> filename r = file_key ''pv'' (to_str (name t))"
  by (auto simp: generatePV_def file_key_def Let_def split: if_splits option.splits)

lemma generatePV_guard:
  "generatePV t app = Some r \<Longrightarrow>
     (case pv t of None \<Rightarrow> False
      | Some v \<Rightarrow> truthy (pv_enabled v) \<and> truthy (pv_type v) \<and> pv_type v \<noteq> JStr ''none'')"
  by (auto simp: generatePV_def Let_def split: option.splits if_splits)

lemma pvc_block_runs_generatePVC:
  "pvc_block_runs t \<Longrightarrow> generatePVC t ns app \<noteq> None"
  by (auto simp: pvc_block_runs_def generatePVC_def Let_def split: option.splits)

subsection \<open>The first pass, block by block\<close>

lemma pass1_configMap_files:
  "map_of (files (pass1_configMap ns app t s)) k =
     (case renderConfigMap t ns app of
        None \<Rightarrow> map_of (files s) k
      | Some r \<Rightarrow> if k = file_key ''configmap'' (to_str (name t)) then Some (content r)
                  else map_of (files s) k)"
proof (cases "renderConfigMap t ns app")
  case None
  then show ?thesis by (simp add: pass1_configMap_def)
next
  case (Some r)
  then show ?thesis
    using renderConfigMap_filename [OF Some]
    by (simp add: pass1_configMap_def map_of_set_file)
qed

lemma pass1_secret_files:
  "map_of (files (pass1_secret ns app t s)) k =
     (case renderSecret t ns app of
        None \<Rightarrow> map_of (files s) k
      | Some r \<Rightarrow> if k = file_key ''secret'' (to_str (name t)) then Some (content r)
                  else map_of (files s) k)"
proof (cases "renderSecret t ns app")
  case None
  then show ?thesis by (simp add: pass1_secret_def)
next
  case (Some r)
  then show ?thesis
    using renderSecret_filename [OF Some]
    by (simp add: pass1_secret_def map_of_set_file)
qed

lemma pass1_pvc_files:
  "map_of (files (pass1_pvc ns app t s)) k =
     (if pvc_block_runs t
      then (case generatePVC t ns app of
              None \<Rightarrow> map_of (files s) k
            | Some r \<Rightarrow> if k = file_key ''pvc'' (to_str (name t)) then Some (content r)
                        else map_of (files s) k)
      else map_of (files s) k)"
proof (cases "generatePVC t ns app")
  case None
  then show ?thesis by (simp add: pass1_pvc_def)
next
  case (Some r)
  then show ?thesis
    using generatePVC_filename [OF Some]
    by (simp add: pass1_pvc_def map_of_set_file)
qed

lemma pass1_pv_files:
  "map_of (files (pass1_pv app t s)) k =
     (case generatePV t app of
        None \<Rightarrow> map_of (files s) k
      | Some r \<Rightarrow> if k = file_key ''pv'' (to_str (name t)) then Some (content r)
                  else map_of (files s) k)"
proof (cases "generatePV t app")
  case None
  then show ?thesis by (simp add: pass1_pv_def)
next
  case (Some r)
  then show ?thesis
    using generatePV_filename [OF Some] generatePV_guard [OF Some]
    by (simp add: pass1_pv_def map_of_set_file)
qed

lemmas pass1_files =
  firstPass_tier_def pass1_configMap_files pass1_secret_files pass1_pvc_files pass1_pv_files

lemma firstPass_tier_other:
  assumes "k \<noteq> file_key ''configmap'' (to_str (name t))"
      and "k \<noteq> file_key ''secret'' (to_str (name t))"
      and "k \<noteq> file_key ''pvc'' (to_str (name t))"
      and "k \<noteq> file_key ''pv'' (to_str (name t))"
  shows "map_of (files (firstPass_tier ns app t s)) k = map_of (files s) k"
  using assms by (simp add: pass1_files split: option.splits)

lemma firstPass_tier_pvc:
  "map_of (files (firstPass_tier ns app t s)) (file_key ''pvc'' n) =
     (if to_str (name t) = n \<and> pvc_block_runs t
      then map_option content (generatePVC t ns app)
      else map_of (files s) (file_key ''pvc'' n))"
proof (cases "pvc_block_runs t")
  case True
  then obtain r where "generatePVC t ns app = Some r"
    using pvc_block_runs_generatePVC [of t ns app] by auto
  with True show ?thesis
    by (auto simp: pass1_files split: option.splits)
next
  case False
  then show ?thesis
    by (simp add: pass1_files split: option.splits)
qed

lemma firstPass_tier_pv:
  "map_of (files (firstPass_tier ns app t s)) (file_key ''pv'' n) =
     (if to_str (name t) = n \<and> generatePV t app \<noteq> None
      then map_option content (generatePV t app)
      else map_of (files s) (file_key ''pv'' n))"
  by (auto simp: pass1_files split: option.splits)

subsection \<open>The first pass over all tiers\<close>

lemma fold_firstPass_other:
  assumes "\<forall>t\<in>set ts. k \<noteq> file_key ''configmap'' (to_str (name t)) \<and>
                        k \<noteq> file_key ''secret'' (to_str (name t)) \<and>
                        k \<noteq> file_key ''pvc'' (to_str (name t)) \<and>
                        k \<noteq> file_key ''pv'' (to_str (name t))"
  shows "map_of (files (fold (firstPass_tier ns app) ts s)) k = map_of (files s) k"
  using assms
proof (induction ts arbitrary: s)
  case Nil
  then show ?case by simp
next
  case (Cons t ts)
  then show ?case by (simp add: firstPass_tier_other)
qed

lemma fold_firstPass_pvc_absent:
  assumes "\<forall>t\<in>set ts. to_str (name t) = n \<longrightarrow> \<not> pvc_block_runs t"
  shows "map_of (files (fold (firstPass_tier ns app) ts s)) (file_key ''pvc'' n) =
         map_of (files s) (file_key ''pvc'' n)"
  using assms
proof (induction ts arbitrary: s)
  case Nil
  then show ?case by simp
next
  case (Cons t ts)
  then show ?case by (auto simp: firstPass_tier_pvc)
qed

lemma fold_firstPass_pv_absent:
  assumes "\<forall>t\<in>set ts. to_str (name t) = n \<longrightarrow> generatePV t app = None"
  shows "map_of (files (fold (firstPass_tier ns app) ts s)) (file_key ''pv'' n) =
         map_of (files s) (file_key ''pv'' n)"
  using assms
proof (induction ts arbitrary: s)
  case Nil
  then show ?case by simp
next
  case (Cons t ts)
  then show ?case by (auto simp: firstPass_tier_pv)
qed

text \<open>A key held by the file mapping is never removed by the first pass.\<close>

lemma firstPass_tier_keeps:
  "map_of (files s) k = Some v \<Longrightarrow> \<exists>w. map_of (files (firstPass_tier ns app t s)) k = Some w"
  by (simp add: pass1_files split: option.splits)

lemma fold_firstPass_keeps:
  "map_of (files s) k = Some v \<Longrightarrow>
   \<exists>w. map_of (files (fold (firstPass_tier ns app) ts s)) k = Some w"
proof (induction ts arbitrary: s v)
  case Nil
  then show ?case by simp
next
  case (Cons t ts)
  from firstPass_tier_keeps [OF Cons.prems, of ns app t]
  obtain w where "map_of (files (firstPass_tier ns app t s)) k = Some w" by blast
  from Cons.IH [OF this] show ?case by simp
qed

lemma fold_firstPass_pv_present:
  assumes "t \<in> set ts" and "generatePV t app = Some r"
  shows "\<exists>w. map_of (files (fold (firstPass_tier ns app) ts s)) (file_key ''pv'' (to_str (name t)))
           = Some w"
  using assms
proof (induction ts arbitrary: s)
  case Nil
  then show ?case by simp
next
  case (Cons u ts)
  show ?case
  proof (cases "u = t")
    case True
    have "map_of (files (firstPass_tier ns app t s)) (file_key ''pv'' (to_str (name t)))
            = Some (content r)"
      using Cons.prems(2) by (simp add: firstPass_tier_pv)
    from fold_firstPass_keeps [OF this] show ?thesis using True by simp
  next
    case False
    then have "t \<in> set ts" using Cons.prems(1) by simp
    from Cons.IH [OF this Cons.prems(2)] show ?thesis by simp
  qed
qed

subsection \<open>The second pass\<close>

lemma is_statefulset:
  "js_or (workloadType t) (JStr ''Deployment'') = JStr ''StatefulSet'' \<longleftrightarrow>
   workloadType t = JStr ''StatefulSet''"
  by (auto simp: js_or_def)

lemma generateService_eq_None: "generateService t ns app = None \<longleftrightarrow> service t = None"
  by (simp add: generateService_def split: option.splits)

lemma secondPass_tier_files:
  "map_of (secondPass_tier ns app cms secs pvcs t fs) k =
     (if service t \<noteq> None \<and> k = file_key ''service'' (to_str (name t))
      then generateService t ns app
      else if workloadType t = JStr ''StatefulSet''
      then (if k = file_key ''statefulset'' (to_str (name t))
            then Some (generateStatefulSet t ns app
                         (refs_get ''cmName'' cms (to_str (name t)))
                         (refs_get ''secretName'' secs (to_str (name t))))
            else if k = file_key ''headless-service'' (to_str (name t))
            then Some (generateHeadlessService t ns app)
            else map_of fs k)
      else (if k = file_key ''deployment'' (to_str (name t))
            then Some (generateDeployment t ns app
                         (refs_get ''cmName'' cms (to_str (name t)))
                         (refs_get ''secretName'' secs (to_str (name t)))
                         (refs_get ''pvcName'' pvcs (to_str (name t))))
            else map_of fs k))"
proof (cases "generateService t ns app")
  case None
  then have "service t = None" by (simp add: generateService_eq_None)
  with None show ?thesis
    by (simp add: secondPass_tier_def Let_def is_statefulset map_of_set_file file_key_def)
next
  case (Some d)
  then have "service t \<noteq> None" using generateService_eq_None [of t ns app] by simp
  with Some show ?thesis
    by (simp add: secondPass_tier_def Let_def is_statefulset map_of_set_file file_key_def)
qed

lemma find_append':
  "find P (xs @ ys) = (case find P xs of None \<Rightarrow> find P ys | Some x \<Rightarrow> Some x)"
  by (induction xs) auto

lemma find_unique:
  "distinct (map f xs) \<Longrightarrow> t \<in> set xs \<Longrightarrow>
   find (\<lambda>u. f u = f t \<and> Q u) xs = (if Q t then Some t else None)"
proof (induction xs)
  case Nil
  then show ?case by simp
next
  case (Cons x xs)
  show ?case
  proof (cases "x = t")
    case True
    have "f t \<notin> f ` set xs"
      using Cons.prems(1) True by simp
    then have "\<forall>u\<in>set xs. f u \<noteq> f t"
      by (metis imageI)
    then have "find (\<lambda>u. f u = f t \<and> Q u) xs = None"
      by (auto simp: find_None_iff)
    then show ?thesis using True by simp
  next
    case False
    then have "t \<in> set xs" using Cons.prems(2) by simp
    moreover have "f x \<noteq> f t" using Cons.prems(1) calculation by auto
    ultimately show ?thesis using Cons.IH Cons.prems(1) by simp
  qed
qed

lemma fold_secondPass_service:
  "map_of (fold (secondPass_tier ns app cms secs pvcs) ts fs) (file_key ''service'' n) =
     (case find (\<lambda>t. to_str (name t) = n \<and> service t \<noteq> None) (rev ts) of
        None \<Rightarrow> map_of fs (file_key ''service'' n)
      | Some t \<Rightarrow> generateService t ns app)"
proof (induction ts arbitrary: fs)
  case Nil
  then show ?case by simp
next
  case (Cons t ts)
  show ?case
    by (simp add: Cons.IH find_append' secondPass_tier_files split: option.splits)
qed

lemma fold_secondPass_deployment:
  "map_of (fold (secondPass_tier ns app cms secs pvcs) ts fs) (file_key ''deployment'' n) =
     (case find (\<lambda>t. to_str (name t) = n \<and> workloadType t \<noteq> JStr ''StatefulSet'') (rev ts) of
        None \<Rightarrow> map_of fs (file_key ''deployment'' n)
      | Some t \<Rightarrow> Some (generateDeployment t ns app
                          (refs_get ''cmName'' cms (to_str (name t)))
                          (refs_get ''secretName'' secs (to_str (name t)))
                          (refs_get ''pvcName'' pvcs (to_str (name t)))))"
proof (induction ts arbitrary: fs)
  case Nil
  then show ?case by simp
next
  case (Cons t ts)
  show ?case
    by (simp add: Cons.IH find_append' secondPass_tier_files split: option.splits)
qed

lemma fold_secondPass_statefulset:
  "map_of (fold (secondPass_tier ns app cms secs pvcs) ts fs) (file_key ''statefulset'' n) =
     (case find (\<lambda>t. to_str (name t) = n \<and> workloadType t = JStr ''StatefulSet'') (rev ts) of
        None \<Rightarrow> map_of fs (file_key ''statefulset'' n)
      | Some t \<Rightarrow> Some (generateStatefulSet t ns app
                          (refs_get ''cmName'' cms (to_str (name t)))
                          (refs_get ''secretName'' secs (to_str (name t)))))"
proof (induction ts arbitrary: fs)
  case Nil
  then show ?case by simp
next
  case (Cons t ts)
  show ?case
    by (simp add: Cons.IH find_append' secondPass_tier_files split: option.splits)
qed

lemma secondPass_tier_other:
  assumes "k \<noteq> file_key ''service'' (to_str (name t))"
      and "k \<noteq> file_key ''statefulset'' (to_str (name t))"
      and "k \<noteq> file_key ''headless-service'' (to_str (name t))"
      and "k \<noteq> file_key ''deployment'' (to_str (name t))"
  shows "map_of (secondPass_tier ns app cms secs pvcs t fs) k = map_of fs k"
  using assms by (simp add: secondPass_tier_files)

lemma fold_secondPass_other:
  assumes "\<forall>t\<in>set ts. k \<noteq> file_key ''service'' (to_str (name t)) \<and>
                        k \<noteq> file_key ''statefulset'' (to_str (name t)) \<and>
                        k \<noteq> file_key ''headless-service'' (to_str (name t)) \<and>
                        k \<noteq> file_key ''deployment'' (to_str (name t))"
  shows "map_of (fold (secondPass_tier ns app cms secs pvcs) ts fs) k = map_of fs k"
  using assms
proof (induction ts arbitrary: fs)
  case Nil
  then show ?case by simp
next
  case (Cons t ts)
  then show ?case by (simp add: secondPass_tier_other)
qed

subsection \<open>Ingress, RBAC and the result\<close>

lemma rbac_files:
  "k \<notin> {''serviceaccount.yaml'', ''role.yaml'', ''rolebinding.yaml''} \<Longrightarrow>
   map_of (fold (\<lambda>(k, v). set_file k v) (generateRBAC ns app) fs) k = map_of fs k"
  by (simp add: generateRBAC_def Let_def map_of_set_file)

text \<open>
  A successful compilation passed validation, its Ingress step did not raise, and the
  result is the output of the two passes with the Ingress and RBAC files added.
\<close>

lemma compile_Inr:
  assumes "generateKubernetesManifests p = Inr fs"
  obtains ts ing where
    "validation_errors p = []" and "tiers p = Some ts" and
    "generateIngress ts (namespace p) (appName p) = Inr ing" and
    "fs = (if truthy (enableRBAC p)
           then fold (\<lambda>(k, v). set_file k v) (generateRBAC (namespace p) (appName p)) else id)
          ((case ing of None \<Rightarrow> id | Some d \<Rightarrow> set_file ''ingress.yaml'' d)
           (secondPass (namespace p) (appName p)
              (firstPass (namespace p) (appName p) ts
                 (initial_files p))
              ts))"
proof -
  have v: "validation_errors p = []"
    using assms by (auto simp: generateKubernetesManifests_def Let_def split: if_splits)
  then obtain ts where ts: "tiers p = Some ts"
    by (cases "tiers p") (auto simp: validation_errors_def)
  from assms v ts obtain ing where ing: "generateIngress ts (namespace p) (appName p) = Inr ing"
    by (cases "generateIngress ts (namespace p) (appName p)")
       (auto simp: generateKubernetesManifests_def Let_def)
  from assms v ts ing
  have "fs = (if truthy (enableRBAC p)
           then fold (\<lambda>(k, v). set_file k v) (generateRBAC (namespace p) (appName p)) else id)
          ((case ing of None \<Rightarrow> id | Some d \<Rightarrow> set_file ''ingress.yaml'' d)
           (secondPass (namespace p) (appName p)
              (firstPass (namespace p) (appName p) ts
                 (initial_files p))
              ts))"
    by (cases ing) (auto simp: generateKubernetesManifests_def Let_def)
  with v ts ing show thesis by (rule that)
qed

lemma initial_files_lookup:
  "k \<noteq> ''namespace.yaml'' \<Longrightarrow> map_of (initial_files p) k = None"
  by (simp add: initial_files_def map_of_set_file)

lemma final_files_lookup:
  assumes "k \<notin> {''ingress.yaml'', ''serviceaccount.yaml'', ''role.yaml'', ''rolebinding.yaml''}"
  shows "map_of ((if rbac then fold (\<lambda>(k, v). set_file k v) (generateRBAC ns app) else id)
                  ((case ing of None \<Rightarrow> id | Some d \<Rightarrow> set_file ''ingress.yaml'' d) fs2)) k
         = map_of fs2 k"
  using assms by (cases ing) (simp_all add: rbac_files map_of_set_file)

text \<open>Files of the first pass, read from the result of a successful compilation.\<close>

lemma compile_pass1_key:
  assumes "generateKubernetesManifests p = Inr fs" and "tiers p = Some ts"
      and "kind \<in> {''configmap'', ''secret'', ''pvc'', ''pv''}"
  shows "map_of fs (file_key kind n) =
         map_of (files (firstPass (namespace p) (appName p) ts (initial_files p))) (file_key kind n)"
proof -
  from assms(1) obtain ts' ing where
    ts': "tiers p = Some ts'" and
    fs: "fs = (if truthy (enableRBAC p)
           then fold (\<lambda>(k, v). set_file k v) (generateRBAC (namespace p) (appName p)) else id)
          ((case ing of None \<Rightarrow> id | Some d \<Rightarrow> set_file ''ingress.yaml'' d)
           (secondPass (namespace p) (appName p)
              (firstPass (namespace p) (appName p) ts' (initial_files p)) ts'))"
    by (rule compile_Inr)
  from ts' assms(2) have eq: "ts' = ts" by simp
  have fixed: "file_key kind n \<notin> {''ingress.yaml'', ''serviceaccount.yaml'', ''role.yaml'',
                                   ''rolebinding.yaml''}"
    using assms(3) file_key_fixed [of kind n] by auto
  have "map_of fs (file_key kind n) =
        map_of (secondPass (namespace p) (appName p)
                  (firstPass (namespace p) (appName p) ts (initial_files p)) ts) (file_key kind n)"
    unfolding fs eq by (rule final_files_lookup [OF fixed])
  also have "\<dots> = map_of (files (firstPass (namespace p) (appName p) ts (initial_files p)))
                     (file_key kind n)"
    unfolding secondPass_def
    by (rule fold_secondPass_other) (use assms(3) in \<open>auto simp: file_key_pass12\<close>)
  finally show ?thesis .
qed

text \<open>Files of the second pass, read from the result of a successful compilation.\<close>

lemma compile_pass2_key:
  assumes "generateKubernetesManifests p = Inr fs" and "tiers p = Some ts"
      and "kind \<in> {''deployment'', ''statefulset'', ''headless-service'', ''service''}"
  shows "map_of fs (file_key kind n) =
         map_of (fold (secondPass_tier (namespace p) (appName p)
                         (cmRefs (firstPass (namespace p) (appName p) ts (initial_files p)))
                         (secretRefs (firstPass (namespace p) (appName p) ts (initial_files p)))
                         (pvcRefs (firstPass (namespace p) (appName p) ts (initial_files p))))
                   ts (files (firstPass (namespace p) (appName p) ts (initial_files p))))
           (file_key kind n) \<and>
         map_of (files (firstPass (namespace p) (appName p) ts (initial_files p)))
           (file_key kind n) = None"
proof -
  from assms(1) obtain ts' ing where
    ts': "tiers p = Some ts'" and
    fs: "fs = (if truthy (enableRBAC p)
           then fold (\<lambda>(k, v). set_file k v) (generateRBAC (namespace p) (appName p)) else id)
          ((case ing of None \<Rightarrow> id | Some d \<Rightarrow> set_file ''ingress.yaml'' d)
           (secondPass (namespace p) (appName p)
              (firstPass (namespace p) (appName p) ts' (initial_files p)) ts'))"
    by (rule compile_Inr)
  from ts' assms(2) have eq: "ts' = ts" by simp
  have fixed: "file_key kind n \<notin> {''ingress.yaml'', ''serviceaccount.yaml'', ''role.yaml'',
                                   ''rolebinding.yaml''}"
    using assms(3) file_key_fixed [of kind n] by auto
  have ns: "file_key kind n \<noteq> ''namespace.yaml''"
    using assms(3) file_key_fixed [of kind n] by auto
  have a: "map_of fs (file_key kind n) =
        map_of (secondPass (namespace p) (appName p)
                  (firstPass (namespace p) (appName p) ts (initial_files p)) ts) (file_key kind n)"
    unfolding fs eq by (rule final_files_lookup [OF fixed])
  have "map_of (files (firstPass (namespace p) (appName p) ts (initial_files p))) (file_key kind n)
        = map_of (initial_files p) (file_key kind n)"
    unfolding firstPass_def
    by (subst fold_firstPass_other) (use assms(3) in \<open>auto simp: file_key_pass21\<close>)
  then have b: "map_of (files (firstPass (namespace p) (appName p) ts (initial_files p)))
                  (file_key kind n) = None"
    by (simp add: initial_files_lookup [OF ns])
  from a b show ?thesis by (simp add: secondPass_def)
qed

subsection \<open>Reading a document\<close>

text \<open>
  A document is a concatenation of segments; a run of consecutive segments is found in it
  by skipping the segments before it.
\<close>

lemma sub_skip: "sublist n d \<Longrightarrow> sublist n (a @ d)"
  by (simp add: sublist_append)

lemma sub_here: "prefix n d \<Longrightarrow> sublist n d"
  by (rule prefix_imp_sublist)

lemma pre_step: "prefix xs ys \<Longrightarrow> prefix (a @ xs) (a @ ys)"
  by simp

lemma pre_end: "prefix a (a @ ys)"
  by simp

lemma generateService_targetPort:
  assumes "service t = Some svc"
  shows "\<exists>d. generateService t ns app = Some d \<and>
             suffix (''      targetPort: '' @
                     to_str (if truthy (targetPort svc) then targetPort svc else containerPort t) @ nl) d"
  unfolding generateService_def service_doc_def js_or_def
  apply (simp only: assms option.case)
  apply (rule exI, rule conjI, rule refl)
  apply ((rule suffix_order.refl | rule suffix_appendI)+)
  done

lemma find_unique_rev:
  "distinct (map f ts) \<Longrightarrow> t \<in> set ts \<Longrightarrow>
   find (\<lambda>u. f u = f t \<and> Q u) (rev ts) = (if Q t then Some t else None)"
  by (rule find_unique) (simp_all add: distinct_map)

subsection \<open>The keys of the result are distinct\<close>

lemma firstPass_tier_distinct:
  "distinct (map fst (files s)) \<Longrightarrow> distinct (map fst (files (firstPass_tier ns app t s)))"
  by (simp add: firstPass_tier_def pass1_configMap_def pass1_secret_def pass1_pvc_def
        pass1_pv_def distinct_set_file split: option.splits)

lemma fold_firstPass_distinct:
  "distinct (map fst (files s)) \<Longrightarrow>
   distinct (map fst (files (fold (firstPass_tier ns app) ts s)))"
  by (induction ts arbitrary: s) (simp_all add: firstPass_tier_distinct)

lemma secondPass_tier_distinct:
  "distinct (map fst fs) \<Longrightarrow> distinct (map fst (secondPass_tier ns app cms secs pvcs t fs))"
  by (simp add: secondPass_tier_def Let_def distinct_set_file split: option.splits)

lemma fold_secondPass_distinct:
  "distinct (map fst fs) \<Longrightarrow>
   distinct (map fst (fold (secondPass_tier ns app cms secs pvcs) ts fs))"
  by (induction ts arbitrary: fs) (simp_all add: secondPass_tier_distinct)

lemma compile_distinct:
  assumes "generateKubernetesManifests p = Inr fs"
  shows "distinct (map fst fs)"
proof -
  from assms obtain ts ing where
    fs: "fs = (if truthy (enableRBAC p)
           then fold (\<lambda>(k, v). set_file k v) (generateRBAC (namespace p) (appName p)) else id)
          ((case ing of None \<Rightarrow> id | Some d \<Rightarrow> set_file ''ingress.yaml'' d)
           (secondPass (namespace p) (appName p)
              (firstPass (namespace p) (appName p) ts (initial_files p)) ts))"
    by (rule compile_Inr)
  have "distinct (map fst (initial_files p))"
    by (simp add: initial_files_def set_file_def)
  then have "distinct (map fst (files (firstPass (namespace p) (appName p) ts (initial_files p))))"
    unfolding firstPass_def by (intro fold_firstPass_distinct) simp
  then have d2: "distinct (map fst (secondPass (namespace p) (appName p)
              (firstPass (namespace p) (appName p) ts (initial_files p)) ts))"
    unfolding secondPass_def by (rule fold_secondPass_distinct)
  then have d3: "distinct (map fst ((case ing of None \<Rightarrow> id | Some d \<Rightarrow> set_file ''ingress.yaml'' d)
           (secondPass (namespace p) (appName p)
              (firstPass (namespace p) (appName p) ts (initial_files p)) ts)))"
    by (cases ing) (simp_all add: distinct_set_file)
  have "distinct (map fst (fold (\<lambda>(k, v). set_file k v) (generateRBAC ns app) gs))"
    if "distinct (map fst gs)" for ns app gs
    using that by (simp add: generateRBAC_def Let_def distinct_set_file)
  with d3 show ?thesis unfolding fs by simp
qed

lemma compile_succeeds:
  assumes "validation_errors p = []" and "tiers p = Some ts"
      and "generateIngress ts (namespace p) (appName p) = Inr ing"
  shows "\<exists>fs. generateKubernetesManifests p = Inr fs"
  using assms by (simp add: generateKubernetesManifests_def Let_def)

subsection \<open>Requests that compile\<close>

lemma ingress_addTier_skip:
  "ingress t = None \<or> service t = None \<Longrightarrow> ingress_addTier app t m = Inr m"
  by (auto simp: ingress_addTier_def split: option.splits)

lemma forEachE_ingress_skip:
  "\<forall>t\<in>set ts. ingress t = None \<or> service t = None \<Longrightarrow>
   forEachE (ingress_addTier app) ts m = Inr m"
  by (induction ts arbitrary: m) (simp_all add: ingress_addTier_skip)

lemma ingress_none:
  "\<forall>t\<in>set ts. ingress t = None \<or> service t = None \<Longrightarrow> generateIngress ts ns app = Inr None"
  by (simp add: generateIngress_def forEachE_ingress_skip object_keys_def)

lemma to_str_80: "to_str (JNum 80) = ''80''"
  by code_simp

lemma scenario_compiles: "\<exists>fs. generateKubernetesManifests scenario = Inr fs"
  using scenario_eval by (cases "generateKubernetesManifests scenario") simp_all

lemma dup_compiles: "\<exists>fs. generateKubernetesManifests dup_request = Inr fs"
proof (rule compile_succeeds)
  show "validation_errors dup_request = []"
    by (simp add: validation_errors_def dup_request_def empty_payload_def)
  show "tiers dup_request = Some [dup_tier1, dup_tier2]"
    by (simp add: dup_request_def empty_payload_def)
  show "generateIngress [dup_tier1, dup_tier2] (namespace dup_request) (appName dup_request)
          = Inr None"
    by (rule ingress_none) (simp add: dup_tier1_def dup_tier2_def empty_tier_def)
qed

lemma storage_compiles: "\<exists>fs. generateKubernetesManifests storage_request = Inr fs"
proof (rule compile_succeeds)
  show "validation_errors storage_request = []"
    by (simp add: validation_errors_def storage_request_def empty_payload_def)
  show "tiers storage_request = Some [db_tier, cache_tier]"
    by (simp add: storage_request_def empty_payload_def)
  show "generateIngress [db_tier, cache_tier] (namespace storage_request)
          (appName storage_request) = Inr None"
    by (rule ingress_none) (simp add: db_tier_def cache_tier_def empty_tier_def)
qed

lemma count_distinct_key:
  "distinct ks \<Longrightarrow> k \<in> set ks \<Longrightarrow> length (filter (\<lambda>x. x = k) ks) = 1"
proof (induction ks)
  case Nil
  then show ?case by simp
next
  case (Cons a ks)
  show ?case
  proof (cases "a = k")
    case True
    then have "k \<notin> set ks" using Cons.prems(1) by simp
    then have "filter (\<lambda>x. x = k) ks = []" by (auto simp: filter_empty_conv)
    then show ?thesis using True by simp
  next
    case False
    then show ?thesis using Cons by simp
  qed
qed

subsection \<open>Services\<close>

text \<open>
  C9. In the result of a compilation of a request whose tier names are distinct, the file
  \<^verbatim>\<open>service-{tier.name}.yaml\<close> is present exactly when the tier declares a
  \<^verbatim>\<open>service\<close> block, and that document ends with the \<^verbatim>\<open>targetPort\<close> line, whose
  value is \<^verbatim>\<open>service.targetPort\<close> when that is set (truthy) and the tier's
  \<^verbatim>\<open>containerPort\<close> otherwise.
\<close>

theorem service_emitted_iff:
  assumes "generateKubernetesManifests p = Inr fs" and "tiers p = Some ts" and "t \<in> set ts"
      and "distinct (map (\<lambda>t. to_str (name t)) ts)"
  shows "(''service-'' @ to_str (name t) @ ''.yaml'' \<in> fst ` set fs \<longleftrightarrow> service t \<noteq> None) \<and>
         (\<forall>svc. service t = Some svc \<longrightarrow>
            (\<exists>d. map_of fs (''service-'' @ to_str (name t) @ ''.yaml'') = Some d \<and>
                 suffix (''      targetPort: '' @
                         to_str (if truthy (targetPort svc) then targetPort svc
                                 else containerPort t) @ nl) d))"
proof -
  let ?n = "to_str (name t)"
  have k: "''service-'' @ ?n @ ''.yaml'' = file_key ''service'' ?n"
    by (simp add: file_key_def)
  have f: "find (\<lambda>u. to_str (name u) = ?n \<and> service u \<noteq> None) (rev ts) =
           (if service t \<noteq> None then Some t else None)"
    using assms(4,3) by (rule find_unique_rev)
  have look: "map_of fs (file_key ''service'' ?n) =
              (if service t \<noteq> None then generateService t (namespace p) (appName p) else None)"
    using compile_pass2_key [OF assms(1,2), of "''service''" ?n] f
    by (simp add: fold_secondPass_service)
  have a: "file_key ''service'' ?n \<in> fst ` set fs \<longleftrightarrow> service t \<noteq> None"
    unfolding in_keys_iff look
    using generateService_eq_None [of t "namespace p" "appName p"] by auto
  have b: "\<exists>d. map_of fs (file_key ''service'' ?n) = Some d \<and>
             suffix (''      targetPort: '' @
                     to_str (if truthy (targetPort svc) then targetPort svc
                             else containerPort t) @ nl) d"
    if "service t = Some svc" for svc
    using generateService_targetPort [OF that, of "namespace p" "appName p"] look that by simp
  from a b show ?thesis unfolding k by blast
qed


theorem service_emitted_iff_witness:
  "\<exists>fs d. generateKubernetesManifests scenario = Inr fs \<and>
          ''service-api.yaml'' \<in> fst ` set fs \<and>
          map_of fs ''service-api.yaml'' = Some d \<and>
          suffix (''      targetPort: 80'' @ nl) d"
proof -
  obtain fs where c: "generateKubernetesManifests scenario = Inr fs"
    using scenario_compiles by (elim exE)
  have ts: "tiers scenario = Some [scenario_tier]"
    by (simp add: scenario_def empty_payload_def)
  have svc: "service scenario_tier =
               Some \<lparr> svc_type = JStr ''ClusterIP'', svc_port = JNum 80, targetPort = JUndef \<rparr>"
    by (simp add: scenario_tier_def empty_tier_def)
  have nm: "to_str (name scenario_tier) = ''api''"
    by (simp add: scenario_tier_def empty_tier_def)
  have cp: "containerPort scenario_tier = JNum 80"
    by (simp add: scenario_tier_def empty_tier_def)
  have th: "(''service-'' @ to_str (name scenario_tier) @ ''.yaml'' \<in> fst ` set fs \<longleftrightarrow>
               service scenario_tier \<noteq> None) \<and>
         (\<forall>svc. service scenario_tier = Some svc \<longrightarrow>
            (\<exists>d. map_of fs (''service-'' @ to_str (name scenario_tier) @ ''.yaml'') = Some d \<and>
                 suffix (''      targetPort: '' @
                         to_str (if truthy (targetPort svc) then targetPort svc
                                 else containerPort scenario_tier) @ nl) d))"
    by (rule service_emitted_iff [OF c ts]) simp_all
  from th svc have "''service-api.yaml'' \<in> fst ` set fs"
    by (simp add: nm)
  moreover from th svc obtain d where
    "map_of fs ''service-api.yaml'' = Some d \<and> suffix (''      targetPort: 80'' @ nl) d"
    by (auto simp: nm cp to_str_80 simp del: to_str.simps)
  ultimately show ?thesis using c by blast
qed

subsection \<open>Two tiers of the same name\<close>

text \<open>
  C10. When two tiers carry the same name and the default workload type, and no later
  tier has that name, the result has exactly one entry \<^verbatim>\<open>deployment-{name}.yaml\<close>,
  and it is the Deployment rendered from the later of the two tiers: the earlier
  tier's document is overwritten, the request is not rejected.
\<close>

theorem duplicate_tier_overwrites:
  assumes "generateKubernetesManifests p = Inr fs"
      and "tiers p = Some (pre @ t1 # mid @ t2 # post)"
      and "to_str (name t1) = n" and "to_str (name t2) = n"
      and "js_or (workloadType t1) (JStr ''Deployment'') = JStr ''Deployment''"
      and "js_or (workloadType t2) (JStr ''Deployment'') = JStr ''Deployment''"
      and "\<forall>t\<in>set post. to_str (name t) \<noteq> n"
  shows "length (filter (\<lambda>k. k = ''deployment-'' @ n @ ''.yaml'') (map fst fs)) = 1 \<and>
         (\<exists>cmRef secretRef pvcRef.
            map_of fs (''deployment-'' @ n @ ''.yaml'') =
              Some (generateDeployment t2 (namespace p) (appName p) cmRef secretRef pvcRef))"
proof -
  let ?P = "\<lambda>t. to_str (name t) = n \<and> workloadType t \<noteq> JStr ''StatefulSet''"
  let ?ts = "pre @ t1 # mid @ t2 # post"
  have k: "''deployment-'' @ n @ ''.yaml'' = file_key ''deployment'' n"
    by (simp add: file_key_def)
  have "workloadType t2 \<noteq> JStr ''StatefulSet''"
    using assms(6) is_statefulset [of t2] by auto
  then have P2: "?P t2" using assms(4) by simp
  have "find ?P (rev post) = None"
    using assms(7) by (auto simp: find_None_iff)
  then have f: "find ?P (rev ?ts) = Some t2"
    using P2 by (simp add: find_append')
  have look: "map_of fs (file_key ''deployment'' n) =
        Some (generateDeployment t2 (namespace p) (appName p)
               (refs_get ''cmName''
                  (cmRefs (firstPass (namespace p) (appName p) ?ts (initial_files p))) n)
               (refs_get ''secretName''
                  (secretRefs (firstPass (namespace p) (appName p) ?ts (initial_files p))) n)
               (refs_get ''pvcName''
                  (pvcRefs (firstPass (namespace p) (appName p) ?ts (initial_files p))) n))"
  proof -
    have m: "''deployment'' \<in> {''deployment'', ''statefulset'', ''headless-service'', ''service''}"
      by simp
    note c2 = compile_pass2_key [OF assms(1,2) m, of n]
    show ?thesis
      using conjunct1 [OF c2]
      by (simp only: fold_secondPass_deployment f option.case assms(4))
  qed
  then have "file_key ''deployment'' n \<in> set (map fst fs)"
    using in_keys_iff [of "file_key ''deployment'' n" fs] by simp
  with compile_distinct [OF assms(1)]
  have "length (filter (\<lambda>k. k = file_key ''deployment'' n) (map fst fs)) = 1"
    by (rule count_distinct_key)
  with look show ?thesis unfolding k by blast
qed


theorem duplicate_tier_overwrites_witness:
  "\<exists>fs cmRef secretRef pvcRef.
     generateKubernetesManifests dup_request = Inr fs \<and>
     length (filter (\<lambda>k. k = ''deployment-api.yaml'') (map fst fs)) = 1 \<and>
     map_of fs ''deployment-api.yaml'' =
       Some (generateDeployment dup_tier2 (JStr ''dev'') (JStr ''web'') cmRef secretRef pvcRef)"
proof -
  obtain fs where c: "generateKubernetesManifests dup_request = Inr fs"
    using dup_compiles by (elim exE)
  have ts: "tiers dup_request = Some ([] @ dup_tier1 # [] @ dup_tier2 # [])"
    by (simp add: dup_request_def empty_payload_def)
  have th: "length (filter (\<lambda>k. k = ''deployment-'' @ ''api'' @ ''.yaml'') (map fst fs)) = 1 \<and>
         (\<exists>cmRef secretRef pvcRef.
            map_of fs (''deployment-'' @ ''api'' @ ''.yaml'') =
              Some (generateDeployment dup_tier2 (namespace dup_request) (appName dup_request)
                      cmRef secretRef pvcRef))"
    by (rule duplicate_tier_overwrites [OF c ts])
       (simp_all add: dup_tier1_def dup_tier2_def empty_tier_def js_or_def)
  have "namespace dup_request = JStr ''dev''" "appName dup_request = JStr ''web''"
    by (simp_all add: dup_request_def empty_payload_def)
  with th c show ?thesis by auto
qed

subsection \<open>The StatefulSet document\<close>

lemma join_last: "suffix x (join sep (xs @ [x]))"
proof (induction xs rule: induct_list012)
  case 1
  then show ?case by simp
next
  case (2 a)
  then show ?case by (simp add: suffix_def)
next
  case (3 a b ys)
  then show ?case by (simp add: suffix_append)
qed

lemma ss_dataMount_on:
  assumes "pvc t = Some c" and "truthy (pvc_enabled c)"
  shows "ss_dataMount t =
           [''            - name: data'' @ nl @
            ''              mountPath: '' @ to_str (dflt (pvc_mountPath c) (JStr ''/data''))]"
  unfolding ss_dataMount_def by (simp only: assms option.case if_True)

lemma ss_vct_on:
  assumes "pvc t = Some c" and "truthy (pvc_enabled c)"
  shows "\<exists>rest. ss_volumeClaimTemplates t =
           [''  volumeClaimTemplates:'' @ nl @ ''    - metadata:'' @ nl @
            ''        name: data'' @ nl @ rest]"
  unfolding ss_volumeClaimTemplates_def Let_def
  apply (simp only: assms option.case if_True)
  apply (rule exI, rule refl)
  done

lemma ss_contains_volumeMounts:
  assumes "ss_volumeMounts t cr sr \<noteq> []"
  shows "sublist (join nl (ss_volumeMounts t cr sr)) (generateStatefulSet t ns app cr sr)"
  unfolding generateStatefulSet_def Let_def
  apply (simp only: assms not_False_eq_True if_True append_assoc)
  apply (((rule sub_here, ((rule pre_step)+)?, (rule pre_end | rule prefix_order.refl)) | rule sub_skip)+)
  done

lemma ss_contains_vct:
  assumes "ss_volumeClaimTemplates t \<noteq> []"
  shows "sublist (join nl (ss_volumeClaimTemplates t)) (generateStatefulSet t ns app cr sr)"
  unfolding generateStatefulSet_def Let_def
  apply (simp only: assms not_False_eq_True if_True append_assoc)
  apply (((rule sub_here, ((rule pre_step)+)?, (rule pre_end | rule prefix_order.refl)) | rule sub_skip)+)
  done

lemma ss_mount_data:
  assumes "pvc t = Some c" and "truthy (pvc_enabled c)"
  shows "sublist (''            - name: data'' @ nl @
                  ''              mountPath: '' @ to_str (dflt (pvc_mountPath c) (JStr ''/data'')))
           (generateStatefulSet t ns app cr sr)"
proof -
  let ?M = "''            - name: data'' @ nl @
            ''              mountPath: '' @ to_str (dflt (pvc_mountPath c) (JStr ''/data''))"
  have vm: "ss_volumeMounts t cr sr = ss_refMounts t cr sr @ [?M]"
    by (simp only: ss_volumeMounts_def ss_dataMount_on [OF assms])
  then have ne: "ss_volumeMounts t cr sr \<noteq> []" by simp
  have "suffix ?M (join nl (ss_volumeMounts t cr sr))"
    unfolding vm by (rule join_last)
  then have "sublist ?M (join nl (ss_volumeMounts t cr sr))"
    by (rule suffix_imp_sublist)
  from this ss_contains_volumeMounts [OF ne] show ?thesis
    by (rule sublist_order.order_trans)
qed

lemma ss_claim_template:
  assumes "pvc t = Some c" and "truthy (pvc_enabled c)"
  shows "sublist (''  volumeClaimTemplates:'' @ nl @ ''    - metadata:'' @ nl @
                  ''        name: data'' @ nl)
           (generateStatefulSet t ns app cr sr)"
proof -
  let ?N = "''  volumeClaimTemplates:'' @ nl @ ''    - metadata:'' @ nl @
            ''        name: data'' @ nl"
  from ss_vct_on [OF assms] obtain rest where
    vct: "ss_volumeClaimTemplates t =
            [''  volumeClaimTemplates:'' @ nl @ ''    - metadata:'' @ nl @
             ''        name: data'' @ nl @ rest]"
    by (elim exE)
  then have ne: "ss_volumeClaimTemplates t \<noteq> []" by simp
  have "prefix ?N (join nl (ss_volumeClaimTemplates t))"
    unfolding vct by (simp add: prefix_def)
  then have "sublist ?N (join nl (ss_volumeClaimTemplates t))"
    by (rule prefix_imp_sublist)
  from this ss_contains_vct [OF ne] show ?thesis
    by (rule sublist_order.order_trans)
qed

text \<open>
  The end of the StatefulSet document of a tier with an enabled \<^verbatim>\<open>pvc\<close>: the mount of
  \<^verbatim>\<open>data\<close> closes the \<^verbatim>\<open>volumeMounts\<close> list, then comes the \<^verbatim>\<open>volumes\<close> list, built
  from the ConfigMap and Secret references alone, then the \<^verbatim>\<open>volumeClaimTemplates\<close>
  section.
\<close>

lemma split_step: "xs = h @ T \<Longrightarrow> a @ xs = (a @ h) @ T"
  by simp

lemma split_end: "a @ T = a @ T"
  by (rule refl)

lemma ss_vct_text:
  assumes "pvc t = Some c" and "truthy (pvc_enabled c)"
  shows "ss_volumeClaimTemplates t =
           [''  volumeClaimTemplates:'' @ nl @
            ''    - metadata:'' @ nl @
            ''        name: data'' @ nl @
            ''      spec:'' @ nl @
            ''        accessModes:'' @ nl @
            ''          - '' @ to_str (dflt (pvc_accessMode c) (JStr ''ReadWriteOnce'')) @ nl @
            (if truthy (dflt (pvc_storageClass c) (JStr []))
             then ''        storageClassName: '' @ dq @
                  to_str (dflt (pvc_storageClass c) (JStr [])) @ dq @ nl
             else []) @
            ''        resources:'' @ nl @
            ''          requests:'' @ nl @
            ''            storage: '' @ to_str (dflt (pvc_size c) (JStr ''5Gi''))]"
  unfolding ss_volumeClaimTemplates_def Let_def
  by (simp only: assms option.case if_True)

lemma ss_extraVolumes_text:
  "ss_extraVolumes cr sr =
     (if cr = None \<and> sr = None then []
      else nl @ ''      volumes:'' @
           (case cr of None \<Rightarrow> [] | Some x \<Rightarrow> nl @ volume_configMap (to_str x)) @
           (case sr of None \<Rightarrow> [] | Some y \<Rightarrow> nl @ volume_secret (to_str y)))"
  by (cases cr; cases sr) (simp_all add: ss_extraVolumes_def volume_configMap_def volume_secret_def)

lemma ss_doc_split:
  assumes "ss_volumeMounts t cr sr \<noteq> []" and "ss_volumeClaimTemplates t = [V]"
  shows "\<exists>H. generateStatefulSet t ns app cr sr =
            H @ join nl (ss_volumeMounts t cr sr) @ ss_extraVolumes cr sr @ nl @ V @ nl"
proof -
  have ne: "[V] \<noteq> []" by simp
  show ?thesis
    unfolding generateStatefulSet_def Let_def
    apply (simp only: assms ne not_False_eq_True if_True join.simps append_assoc)
    apply (rule exI)
    apply ((rule split_end | rule split_step)+)
    done
qed

lemma ss_tail:
  assumes "pvc t = Some c" and "truthy (pvc_enabled c)"
  shows "suffix
           (''            - name: data'' @ nl @
            ''              mountPath: '' @ to_str (dflt (pvc_mountPath c) (JStr ''/data'')) @
            (if cr = None \<and> sr = None then []
             else nl @ ''      volumes:'' @
                  (case cr of None \<Rightarrow> [] | Some x \<Rightarrow> nl @ volume_configMap (to_str x)) @
                  (case sr of None \<Rightarrow> [] | Some y \<Rightarrow> nl @ volume_secret (to_str y))) @
            nl @
            ''  volumeClaimTemplates:'' @ nl @
            ''    - metadata:'' @ nl @
            ''        name: data'' @ nl @
            ''      spec:'' @ nl @
            ''        accessModes:'' @ nl @
            ''          - '' @ to_str (dflt (pvc_accessMode c) (JStr ''ReadWriteOnce'')) @ nl @
            (if truthy (dflt (pvc_storageClass c) (JStr []))
             then ''        storageClassName: '' @ dq @
                  to_str (dflt (pvc_storageClass c) (JStr [])) @ dq @ nl
             else []) @
            ''        resources:'' @ nl @
            ''          requests:'' @ nl @
            ''            storage: '' @ to_str (dflt (pvc_size c) (JStr ''5Gi'')) @ nl)
           (generateStatefulSet t ns app cr sr)"
proof -
  let ?M = "''            - name: data'' @ nl @
            ''              mountPath: '' @ to_str (dflt (pvc_mountPath c) (JStr ''/data''))"
  let ?V = "''  volumeClaimTemplates:'' @ nl @
            ''    - metadata:'' @ nl @
            ''        name: data'' @ nl @
            ''      spec:'' @ nl @
            ''        accessModes:'' @ nl @
            ''          - '' @ to_str (dflt (pvc_accessMode c) (JStr ''ReadWriteOnce'')) @ nl @
            (if truthy (dflt (pvc_storageClass c) (JStr []))
             then ''        storageClassName: '' @ dq @
                  to_str (dflt (pvc_storageClass c) (JStr [])) @ dq @ nl
             else []) @
            ''        resources:'' @ nl @
            ''          requests:'' @ nl @
            ''            storage: '' @ to_str (dflt (pvc_size c) (JStr ''5Gi''))"
  have vm: "ss_volumeMounts t cr sr = ss_refMounts t cr sr @ [?M]"
    by (simp only: ss_volumeMounts_def ss_dataMount_on [OF assms])
  then have ne: "ss_volumeMounts t cr sr \<noteq> []" by simp
  have "suffix ?M (join nl (ss_volumeMounts t cr sr))"
    unfolding vm by (rule join_last)
  then obtain pre where j: "join nl (ss_volumeMounts t cr sr) = pre @ ?M"
    by (auto simp: suffix_def)
  have vct: "ss_volumeClaimTemplates t = [?V]"
    by (rule ss_vct_text [OF assms])
  from ss_doc_split [OF ne vct, of ns app] obtain H where
    "generateStatefulSet t ns app cr sr =
       H @ join nl (ss_volumeMounts t cr sr) @ ss_extraVolumes cr sr @ nl @ ?V @ nl"
    by (elim exE)
  then have "generateStatefulSet t ns app cr sr =
       (H @ pre) @ (?M @ ss_extraVolumes cr sr @ nl @ ?V @ nl)"
    unfolding j by (simp only: append_assoc)
  then have "suffix (?M @ ss_extraVolumes cr sr @ nl @ ?V @ nl) (generateStatefulSet t ns app cr sr)"
    by (rule suffixI)
  then show ?thesis
    unfolding ss_extraVolumes_text by (simp only: append_assoc)
qed

lemma same_name_same_tier:
  assumes "distinct (map (\<lambda>t. to_str (name t)) ts)" and "t \<in> set ts" and "u \<in> set ts"
      and "to_str (name u) = to_str (name t)"
  shows "u = t"
  using assms by (meson distinct_map inj_onD)

lemma pvc_absent_after_compile:
  assumes "generateKubernetesManifests p = Inr fs" and "tiers p = Some ts"
      and "\<forall>u\<in>set ts. to_str (name u) = n \<longrightarrow> \<not> pvc_block_runs u"
  shows "map_of fs (file_key ''pvc'' n) = None"
proof -
  have "map_of fs (file_key ''pvc'' n) =
        map_of (files (firstPass (namespace p) (appName p) ts (initial_files p))) (file_key ''pvc'' n)"
    by (rule compile_pass1_key [OF assms(1,2)]) simp
  also have "\<dots> = map_of (initial_files p) (file_key ''pvc'' n)"
    unfolding firstPass_def using fold_firstPass_pvc_absent [OF assms(3)] by simp
  also have "\<dots> = None"
    by (rule initial_files_lookup) (simp add: file_key_def)
  finally show ?thesis .
qed

text \<open>
  C3. In the result of a compilation of a request whose tier names are distinct, a
  StatefulSet tier with an enabled \<^verbatim>\<open>pvc\<close> has no \<^verbatim>\<open>pvc-{tier.name}.yaml\<close>. Its
  StatefulSet document holds a \<^verbatim>\<open>volumeClaimTemplates\<close> section with a claim named
  \<^verbatim>\<open>data\<close> and mounts \<^verbatim>\<open>data\<close> at \<^verbatim>\<open>pvc.mountPath\<close> (\<^verbatim>\<open>/data\<close> when that is
  undefined). The document ends with that mount, followed by the \<^verbatim>\<open>volumes\<close> list and
  the \<^verbatim>\<open>volumeClaimTemplates\<close> section. The \<^verbatim>\<open>volumes\<close> list is built from
  \<^verbatim>\<open>cmRefs[tier.name]\<close> and \<^verbatim>\<open>secretRefs[tier.name]\<close> as the first pass left them: it
  is absent when there is neither, and otherwise holds the ConfigMap volume, the Secret
  volume, or both, and no \<^verbatim>\<open>persistentVolumeClaim\<close> with a \<^verbatim>\<open>claimName\<close>.
\<close>

theorem statefulset_pvc_exclusive:
  assumes "generateKubernetesManifests p = Inr fs" and "tiers p = Some ts" and "t \<in> set ts"
      and "distinct (map (\<lambda>t. to_str (name t)) ts)"
      and "workloadType t = JStr ''StatefulSet''"
      and "pvc t = Some c" and "truthy (pvc_enabled c)"
  shows "''pvc-'' @ to_str (name t) @ ''.yaml'' \<notin> fst ` set fs \<and>
         (\<exists>cmRef secretRef d.
            cmRef = refs_get ''cmName''
                      (cmRefs (firstPass (namespace p) (appName p) ts (initial_files p)))
                      (to_str (name t)) \<and>
            secretRef = refs_get ''secretName''
                          (secretRefs (firstPass (namespace p) (appName p) ts (initial_files p)))
                          (to_str (name t)) \<and>
            map_of fs (''statefulset-'' @ to_str (name t) @ ''.yaml'') = Some d \<and>
            d = generateStatefulSet t (namespace p) (appName p) cmRef secretRef \<and>
            sublist (''  volumeClaimTemplates:'' @ nl @ ''    - metadata:'' @ nl @
                     ''        name: data'' @ nl) d \<and>
            sublist (''            - name: data'' @ nl @
                     ''              mountPath: '' @ to_str (dflt (pvc_mountPath c) (JStr ''/data''))) d \<and>
            suffix
              (''            - name: data'' @ nl @
               ''              mountPath: '' @ to_str (dflt (pvc_mountPath c) (JStr ''/data'')) @
               (if cmRef = None \<and> secretRef = None then []
                else nl @ ''      volumes:'' @
                     (case cmRef of None \<Rightarrow> [] | Some x \<Rightarrow> nl @ volume_configMap (to_str x)) @
                     (case secretRef of None \<Rightarrow> [] | Some y \<Rightarrow> nl @ volume_secret (to_str y))) @
               nl @
               ''  volumeClaimTemplates:'' @ nl @
               ''    - metadata:'' @ nl @
               ''        name: data'' @ nl @
               ''      spec:'' @ nl @
               ''        accessModes:'' @ nl @
               ''          - '' @ to_str (dflt (pvc_accessMode c) (JStr ''ReadWriteOnce'')) @ nl @
               (if truthy (dflt (pvc_storageClass c) (JStr []))
                then ''        storageClassName: '' @ dq @
                     to_str (dflt (pvc_storageClass c) (JStr [])) @ dq @ nl
                else []) @
               ''        resources:'' @ nl @
               ''          requests:'' @ nl @
               ''            storage: '' @ to_str (dflt (pvc_size c) (JStr ''5Gi'')) @ nl)
              d)"
proof -
  let ?n = "to_str (name t)"
  let ?s1 = "firstPass (namespace p) (appName p) ts (initial_files p)"
  let ?cr = "refs_get ''cmName'' (cmRefs ?s1) ?n"
  let ?sr = "refs_get ''secretName'' (secretRefs ?s1) ?n"
  have k1: "''pvc-'' @ ?n @ ''.yaml'' = file_key ''pvc'' ?n"
    and k2: "''statefulset-'' @ ?n @ ''.yaml'' = file_key ''statefulset'' ?n"
    by (simp_all add: file_key_def)
  have nb: "\<not> pvc_block_runs t"
    using assms(5) by (simp add: pvc_block_runs_def)
  have "\<forall>u\<in>set ts. to_str (name u) = ?n \<longrightarrow> \<not> pvc_block_runs u"
    using same_name_same_tier [OF assms(4,3)] nb by blast
  then have "map_of fs (file_key ''pvc'' ?n) = None"
    by (rule pvc_absent_after_compile [OF assms(1,2)])
  then have a: "file_key ''pvc'' ?n \<notin> fst ` set fs"
    by (simp add: in_keys_iff)
  have "find (\<lambda>u. to_str (name u) = ?n \<and> workloadType u = JStr ''StatefulSet'') (rev ts) =
           (if workloadType t = JStr ''StatefulSet'' then Some t else None)"
    using assms(4,3) by (rule find_unique_rev)
  then have f: "find (\<lambda>u. to_str (name u) = ?n \<and> workloadType u = JStr ''StatefulSet'')
                  (rev ts) = Some t"
    using assms(5) by simp
  have m: "''statefulset'' \<in> {''deployment'', ''statefulset'', ''headless-service'', ''service''}"
    by simp
  have b: "map_of fs (file_key ''statefulset'' ?n) =
             Some (generateStatefulSet t (namespace p) (appName p) ?cr ?sr)"
    using conjunct1 [OF compile_pass2_key [OF assms(1,2) m, of ?n]]
    by (simp only: fold_secondPass_statefulset f option.case)
  show ?thesis
    unfolding k1 k2
    apply (rule conjI [OF a])
    apply (rule exI [of _ ?cr], rule exI [of _ ?sr], rule exI)
    apply (rule conjI [OF refl], rule conjI [OF refl], rule conjI [OF b])
    apply (intro conjI refl ss_claim_template [OF assms(6,7)] ss_mount_data [OF assms(6,7)]
             ss_tail [OF assms(6,7)])
    done
qed

lemma to_str_db: "to_str (name db_tier) = ''db''"
  by (simp add: db_tier_def empty_tier_def)

lemma db_renderConfigMap:
  "renderConfigMap db_tier ns (JStr ''shop'') =
     Some \<lparr> filename = ''configmap-db.yaml'', content = configMap_doc db_tier ns (JStr ''shop''),
            refName = ''shop-db-config'' \<rparr>"
  by (simp add: renderConfigMap_def db_tier_def empty_tier_def)

lemma storage_render_none:
  "renderConfigMap cache_tier ns app = None" "renderSecret cache_tier ns app = None"
  "renderSecret db_tier ns app = None"
  by (simp_all add: renderConfigMap_def renderSecret_def db_tier_def cache_tier_def empty_tier_def)

lemma pass1_pvc_refs [simp]:
  "cmRefs (pass1_pvc ns app t s) = cmRefs s" "secretRefs (pass1_pvc ns app t s) = secretRefs s"
  by (simp_all add: pass1_pvc_def split: option.splits)

lemma pass1_pv_refs [simp]:
  "cmRefs (pass1_pv app t s) = cmRefs s" "secretRefs (pass1_pv app t s) = secretRefs s"
  by (simp_all add: pass1_pv_def split: option.splits)

lemma pass1_secret_cmRefs [simp]: "cmRefs (pass1_secret ns app t s) = cmRefs s"
  by (simp add: pass1_secret_def split: option.splits)

lemma pass1_configMap_secretRefs [simp]: "secretRefs (pass1_configMap ns app t s) = secretRefs s"
  by (simp add: pass1_configMap_def split: option.splits)

lemma storage_refs:
  "refs_get ''cmName''
     (cmRefs (firstPass (JStr ''prod'') (JStr ''shop'') [db_tier, cache_tier]
                (initial_files storage_request)))
     ''db'' = Some (JStr ''shop-db-config'')"
  "refs_get ''secretName''
     (secretRefs (firstPass (JStr ''prod'') (JStr ''shop'') [db_tier, cache_tier]
                    (initial_files storage_request)))
     ''db'' = None"
  by (simp_all add: firstPass_def firstPass_tier_def pass1_configMap_def pass1_secret_def
        db_renderConfigMap storage_render_none to_str_db refs_get_def refs_set_def refs_empty_def
        object_prototype_props_def)

theorem statefulset_pvc_exclusive_witness:
  "\<exists>fs d.
     generateKubernetesManifests storage_request = Inr fs \<and>
     ''pvc-db.yaml'' \<notin> fst ` set fs \<and>
     map_of fs ''statefulset-db.yaml'' = Some d \<and>
     d = generateStatefulSet db_tier (JStr ''prod'') (JStr ''shop'')
           (Some (JStr ''shop-db-config'')) None \<and>
     sublist (''  volumeClaimTemplates:'' @ nl @ ''    - metadata:'' @ nl @
              ''        name: data'' @ nl) d \<and>
     sublist (''            - name: data'' @ nl @ ''              mountPath: /var/lib/pg'') d \<and>
     suffix
       (''            - name: data'' @ nl @
        ''              mountPath: /var/lib/pg'' @ nl @
        ''      volumes:'' @ nl @
        volume_configMap ''shop-db-config'' @ nl @
        ''  volumeClaimTemplates:'' @ nl @
        ''    - metadata:'' @ nl @
        ''        name: data'' @ nl @
        ''      spec:'' @ nl @
        ''        accessModes:'' @ nl @
        ''          - ReadWriteOnce'' @ nl @
        ''        resources:'' @ nl @
        ''          requests:'' @ nl @
        ''            storage: 5Gi'' @ nl)
       d"
proof -
  let ?c = "empty_pvc\<lparr> pvc_enabled := JBool True, pvc_mountPath := JStr ''/var/lib/pg'' \<rparr>"
  obtain fs where c: "generateKubernetesManifests storage_request = Inr fs"
    using storage_compiles by (elim exE)
  have ts: "tiers storage_request = Some [db_tier, cache_tier]"
    by (simp add: storage_request_def empty_payload_def)
  have d: "distinct (map (\<lambda>t. to_str (name t)) [db_tier, cache_tier])"
    by (simp add: db_tier_def cache_tier_def empty_tier_def)
  have w: "workloadType db_tier = JStr ''StatefulSet''"
    by (simp add: db_tier_def empty_tier_def)
  have pv: "pvc db_tier = Some ?c"
    by (simp add: db_tier_def empty_tier_def)
  have en: "truthy (pvc_enabled ?c)"
    by simp
  have mp: "to_str (dflt (pvc_mountPath ?c) (JStr ''/data'')) = ''/var/lib/pg''"
    and am: "to_str (dflt (pvc_accessMode ?c) (JStr ''ReadWriteOnce'')) = ''ReadWriteOnce''"
    and sc: "truthy (dflt (pvc_storageClass ?c) (JStr [])) = False"
    and sz: "to_str (dflt (pvc_size ?c) (JStr ''5Gi'')) = ''5Gi''"
    by (simp_all add: dflt_def empty_pvc_def)
  have ns: "namespace storage_request = JStr ''prod''"
    and app: "appName storage_request = JStr ''shop''"
    by (simp_all add: storage_request_def empty_payload_def)
  have t: "db_tier \<in> set [db_tier, cache_tier]" by simp
  have e: "[] @ x = x" for x :: string by simp
  have k1: "''pvc-'' @ ''db'' @ ''.yaml'' = ''pvc-db.yaml''"
    and k2: "''statefulset-'' @ ''db'' @ ''.yaml'' = ''statefulset-db.yaml''"
    and k3: "''              mountPath: '' @ ''/var/lib/pg'' = ''              mountPath: /var/lib/pg''"
    by simp_all
  have k4: "''              mountPath: '' @ ''/var/lib/pg'' @ r =
            ''              mountPath: /var/lib/pg'' @ r"
    and k5: "''          - '' @ ''ReadWriteOnce'' @ r = ''          - ReadWriteOnce'' @ r"
    and k6: "''            storage: '' @ ''5Gi'' @ r = ''            storage: 5Gi'' @ r"
    for r :: string
    by simp_all
  have vols: "(if Some (JStr ''shop-db-config'') = None \<and> (None :: jsval option) = None then []
               else nl @ ''      volumes:'' @
                    (case Some (JStr ''shop-db-config'') of None \<Rightarrow> []
                     | Some x \<Rightarrow> nl @ volume_configMap (to_str x)) @
                    (case (None :: jsval option) of None \<Rightarrow> []
                     | Some y \<Rightarrow> nl @ volume_secret (to_str y))) @ r =
              nl @ ''      volumes:'' @ nl @ volume_configMap ''shop-db-config'' @ r"
    for r :: string
    by simp
  note th = statefulset_pvc_exclusive [OF c ts t d w pv en,
      unfolded to_str_db ns app storage_refs mp am sc sz if_False e k1 k2 k3 k4 k5 k6]
  from th have a: "''pvc-db.yaml'' \<notin> fst ` set fs"
    by (rule conjunct1)
  from conjunct2 [OF th] obtain cr sr d0 where
    cr: "cr = Some (JStr ''shop-db-config'')" and sr: "sr = None" and
    m: "map_of fs ''statefulset-db.yaml'' = Some d0" and
    rest: "d0 = generateStatefulSet db_tier (JStr ''prod'') (JStr ''shop'') cr sr \<and>
      sublist (''  volumeClaimTemplates:'' @ nl @ ''    - metadata:'' @ nl @
               ''        name: data'' @ nl) d0 \<and>
      sublist (''            - name: data'' @ nl @ ''              mountPath: /var/lib/pg'') d0 \<and>
      suffix
       (''            - name: data'' @ nl @
        ''              mountPath: /var/lib/pg'' @
        (if cr = None \<and> sr = None then []
         else nl @ ''      volumes:'' @
              (case cr of None \<Rightarrow> [] | Some x \<Rightarrow> nl @ volume_configMap (to_str x)) @
              (case sr of None \<Rightarrow> [] | Some y \<Rightarrow> nl @ volume_secret (to_str y))) @
        nl @
        ''  volumeClaimTemplates:'' @ nl @
        ''    - metadata:'' @ nl @
        ''        name: data'' @ nl @
        ''      spec:'' @ nl @
        ''        accessModes:'' @ nl @
        ''          - ReadWriteOnce'' @ nl @
        ''        resources:'' @ nl @
        ''          requests:'' @ nl @
        ''            storage: 5Gi'' @ nl)
       d0"
    by (elim exE conjE) (intro that conjI)
  note rest' = rest [unfolded cr sr vols]
  show ?thesis
    apply (rule exI [of _ fs], rule exI [of _ d0])
    apply (intro conjI c a m)
       apply (rule conjunct1 [OF rest'])
      apply (rule conjunct1 [OF conjunct2 [OF rest']])
     apply (rule conjunct1 [OF conjunct2 [OF conjunct2 [OF rest']]])
    apply (rule conjunct2 [OF conjunct2 [OF conjunct2 [OF rest']]])
    done
qed

subsection \<open>Persistent volumes\<close>

lemma generatePV_Some:
  "generatePV t app = Some r \<Longrightarrow>
   \<exists>v vs. pv t = Some v \<and> pv_volumeSource v (name t) app = Some vs \<and>
          content r = pv_header t v app @ vs"
  by (auto simp: generatePV_def split: option.splits if_splits)

lemma generatePV_eq_None:
  assumes "pv t = Some v" and "truthy (pv_enabled v)" and "truthy (pv_type v)"
      and "pv_type v \<noteq> JStr ''none''"
  shows "generatePV t app = None \<longleftrightarrow> pv_volumeSource v (name t) app = None"
  using assms by (simp add: generatePV_def split: option.splits)

lemma iscsi_volumeSource_None:
  "pv_type v = JStr ''iscsi'' \<Longrightarrow>
   pv_volumeSource v n app = None \<longleftrightarrow>
     \<not> (truthy (iscsiTargetPortal v) \<and> truthy (iscsiIqn v) \<and> truthy (iscsiLun v))"
  by (simp add: pv_volumeSource_def)

lemma iscsi_volumeSource_fsType:
  assumes "pv_type v = JStr ''iscsi''" and "pv_volumeSource v n app = Some vs"
      and "\<not> truthy (iscsiFsType v)"
  shows "suffix (''    fsType: ext4'' @ nl) vs"
  using assms
  apply (clarsimp simp: pv_volumeSource_def js_or_def split: if_splits)
  apply ((rule suffix_order.refl | rule suffix_ConsI | rule suffix_appendI)+)
  done

lemma nfs_volumeSource_None:
  "pv_type v = JStr ''nfs'' \<Longrightarrow>
   pv_volumeSource v n app = None \<longleftrightarrow> \<not> truthy (nfsServer v) \<or> \<not> truthy (nfsPath v)"
  by (simp add: pv_volumeSource_def)

lemma unknown_volumeSource_None:
  "pv_type v \<notin> JStr ` {''hostPath'', ''nfs'', ''local'', ''awsEbs'', ''gcePd'', ''azureDisk'',
                         ''cephRbd'', ''iscsi''} \<Longrightarrow>
   pv_volumeSource v n app = None"
  by (simp add: pv_volumeSource_def)

lemma generatePV_volumeSource_None:
  "pv t = Some v \<Longrightarrow> pv_volumeSource v (name t) app = None \<Longrightarrow> generatePV t app = None"
  by (simp add: generatePV_def)

lemma fold_firstPass_pv_unique:
  assumes "distinct (map (\<lambda>t. to_str (name t)) ts)" and "t \<in> set ts"
  shows "map_of (files (fold (firstPass_tier ns app) ts s)) (file_key ''pv'' (to_str (name t))) =
           (case generatePV t app of
              None \<Rightarrow> map_of (files s) (file_key ''pv'' (to_str (name t)))
            | Some r \<Rightarrow> Some (content r))"
  using assms
proof (induction ts arbitrary: s)
  case Nil
  then show ?case by simp
next
  case (Cons u ts)
  show ?case
  proof (cases "u = t")
    case True
    have "to_str (name t) \<notin> (\<lambda>t. to_str (name t)) ` set ts"
      using Cons.prems(1) True by simp
    then have "\<forall>w\<in>set ts. to_str (name w) = to_str (name t) \<longrightarrow> generatePV w app = None"
      by (auto simp: image_iff)
    from fold_firstPass_pv_absent [OF this]
    have "map_of (files (fold (firstPass_tier ns app) ts (firstPass_tier ns app t s)))
            (file_key ''pv'' (to_str (name t))) =
          map_of (files (firstPass_tier ns app t s)) (file_key ''pv'' (to_str (name t)))" .
    then show ?thesis
      using True by (auto simp: firstPass_tier_pv split: option.splits)
  next
    case False
    then have t: "t \<in> set ts" using Cons.prems(2) by simp
    then have "to_str (name u) \<noteq> to_str (name t)"
      using Cons.prems(1) by auto
    then have "map_of (files (firstPass_tier ns app u s)) (file_key ''pv'' (to_str (name t))) =
               map_of (files s) (file_key ''pv'' (to_str (name t)))"
      by (simp add: firstPass_tier_pv)
    moreover have "distinct (map (\<lambda>t. to_str (name t)) ts)"
      using Cons.prems(1) by simp
    ultimately show ?thesis
      using Cons.IH [OF _ t, of "firstPass_tier ns app u s"]
      by (simp split: option.splits)
  qed
qed

lemma pv_after_compile:
  assumes "generateKubernetesManifests p = Inr fs" and "tiers p = Some ts" and "t \<in> set ts"
      and "distinct (map (\<lambda>t. to_str (name t)) ts)"
  shows "map_of fs (file_key ''pv'' (to_str (name t))) =
           map_option content (generatePV t (appName p))"
proof -
  let ?k = "file_key ''pv'' (to_str (name t))"
  have "map_of fs ?k =
        map_of (files (firstPass (namespace p) (appName p) ts (initial_files p))) ?k"
    by (rule compile_pass1_key [OF assms(1,2)]) simp
  also have "\<dots> = (case generatePV t (appName p) of
                     None \<Rightarrow> map_of (initial_files p) ?k
                   | Some r \<Rightarrow> Some (content r))"
    unfolding firstPass_def using fold_firstPass_pv_unique [OF assms(4,3)]
    by (simp split: option.splits)
  also have "\<dots> = map_option content (generatePV t (appName p))"
    using initial_files_lookup [of ?k p]
    by (cases "generatePV t (appName p)") (simp_all add: file_key_def)
  finally show ?thesis .
qed

subsection \<open>A persistent volume spec that yields no document\<close>

text \<open>No renderer but \<^verbatim>\<open>generatePV\<close> reads \<^verbatim>\<open>tier.pv\<close>.\<close>

lemma drop_pv_renderers:
  "renderConfigMap (t\<lparr>pv := x\<rparr>) ns app = renderConfigMap t ns app"
  "renderSecret (t\<lparr>pv := x\<rparr>) ns app = renderSecret t ns app"
  "generatePVC (t\<lparr>pv := x\<rparr>) ns app = generatePVC t ns app"
  "pvc_block_runs (t\<lparr>pv := x\<rparr>) = pvc_block_runs t"
  "generateService (t\<lparr>pv := x\<rparr>) ns app = generateService t ns app"
  "generateHeadlessService (t\<lparr>pv := x\<rparr>) ns app = generateHeadlessService t ns app"
  by (simp_all add: renderConfigMap_def renderSecret_def generatePVC_def pvc_block_runs_def
        generateService_def generateHeadlessService_def configMap_doc_def secret_doc_def
        pvc_doc_def service_doc_def Let_def
        cong: option.case_cong if_cong)

lemma drop_pv_deployment:
  "generateDeployment (t\<lparr>pv := x\<rparr>) ns app cr sr pr = generateDeployment t ns app cr sr pr"
  by (simp add: generateDeployment_def Let_def cong: option.case_cong if_cong)

lemma drop_pv_statefulset:
  "generateStatefulSet (t\<lparr>pv := x\<rparr>) ns app cr sr = generateStatefulSet t ns app cr sr"
  by (simp add: generateStatefulSet_def ss_volumeMounts_def ss_refMounts_def ss_dataMount_def
        ss_volumeClaimTemplates_def Let_def cong: option.case_cong if_cong)

lemma drop_pv_firstPass_tier:
  assumes "generatePV t app = None"
  shows "firstPass_tier ns app (t\<lparr>pv := None\<rparr>) s = firstPass_tier ns app t s"
proof -
  have "pass1_pv app (t\<lparr>pv := None\<rparr>) s' = pass1_pv app t s'" for s'
    using assms by (simp add: pass1_pv_def)
  then show ?thesis
    by (simp add: firstPass_tier_def pass1_configMap_def pass1_secret_def pass1_pvc_def
          drop_pv_renderers cong: option.case_cong if_cong)
qed

lemma drop_pv_secondPass_tier:
  "secondPass_tier ns app cms secs pvcs (t\<lparr>pv := x\<rparr>) fs = secondPass_tier ns app cms secs pvcs t fs"
  by (simp add: secondPass_tier_def drop_pv_renderers drop_pv_deployment drop_pv_statefulset
        Let_def cong: option.case_cong if_cong)

lemma drop_pv_ingress_addTier:
  "ingress_addTier app (t\<lparr>pv := x\<rparr>) m = ingress_addTier app t m"
  by (simp add: ingress_addTier_def Let_def cong: option.case_cong if_cong)

lemma forEachE_map_cong:
  "(\<And>x s. f (g x) s = f x s) \<Longrightarrow> forEachE f (map g xs) s = forEachE f xs s"
  by (induction xs arbitrary: s) (simp_all split: sum.splits)

lemma fold_map_cong:
  "(\<And>x s. f (g x) s = f x s) \<Longrightarrow> fold f (map g xs) s = fold f xs s"
  by (induction xs arbitrary: s) simp_all

text \<open>
  Replacing PV specs that yield no document by an absent PV spec changes nothing: not
  the files, and not whether the compilation succeeds.
\<close>

lemma drop_bad_pv:
  assumes "tiers p = Some ts"
      and "\<And>u. g u = u \<or> (generatePV u (appName p) = None \<and> g u = u\<lparr>pv := None\<rparr>)"
  shows "generateKubernetesManifests (p\<lparr>tiers := Some (map g ts)\<rparr>) = generateKubernetesManifests p"
proof -
  let ?p = "p\<lparr>tiers := Some (map g ts)\<rparr>"
  have v: "validation_errors ?p = validation_errors p"
    using assms(1) by (simp add: validation_errors_def)
  have i: "initial_files ?p = initial_files p"
    by (simp add: initial_files_def)
  have f1: "firstPass_tier ns (appName p) (g u) s = firstPass_tier ns (appName p) u s" for ns u s
    using assms(2) [of u] by (auto simp: drop_pv_firstPass_tier)
  have f2: "secondPass_tier ns app cms secs pvcs (g u) fs = secondPass_tier ns app cms secs pvcs u fs"
    for ns app cms secs pvcs u fs
    using assms(2) [of u] by (auto simp: drop_pv_secondPass_tier)
  have f3: "ingress_addTier app (g u) m = ingress_addTier app u m" for app u m
    using assms(2) [of u] by (auto simp: drop_pv_ingress_addTier)
  have 1: "firstPass ns (appName p) (map g ts) fs0 = firstPass ns (appName p) ts fs0" for ns fs0
    unfolding firstPass_def by (rule fold_map_cong) (rule f1)
  have 2: "secondPass ns app s1 (map g ts) = secondPass ns app s1 ts" for ns app s1
    unfolding secondPass_def by (rule fold_map_cong) (rule f2)
  have 3: "generateIngress (map g ts) ns app = generateIngress ts ns app" for ns app
  proof -
    have "forEachE (ingress_addTier app) (map g ts) [] = forEachE (ingress_addTier app) ts []"
      by (rule forEachE_map_cong) (rule f3)
    then show ?thesis by (simp add: generateIngress_def)
  qed
  show ?thesis
    unfolding generateKubernetesManifests_def v
    by (simp add: assms(1) i 1 2 3 Let_def cong: sum.case_cong option.case_cong if_cong)
qed

text \<open>When the \<^verbatim>\<open>switch\<close> of \<^verbatim>\<open>generatePV\<close> returns \<^verbatim>\<open>null\<close>.\<close>

lemma pv_volumeSource_None_iff:
  "pv_volumeSource v n app = None \<longleftrightarrow>
     (pv_type v = JStr ''nfs'' \<and> (\<not> truthy (nfsServer v) \<or> \<not> truthy (nfsPath v))) \<or>
     (pv_type v = JStr ''awsEbs'' \<and> \<not> truthy (awsVolumeID v)) \<or>
     (pv_type v = JStr ''gcePd'' \<and> \<not> truthy (gcePdName v)) \<or>
     (pv_type v = JStr ''azureDisk'' \<and> (\<not> truthy (azureDiskName v) \<or> \<not> truthy (azureDiskURI v))) \<or>
     (pv_type v = JStr ''cephRbd'' \<and>
        (\<not> truthy (cephMonitors v) \<or> \<not> truthy (cephPool v) \<or> \<not> truthy (cephImage v) \<or>
         \<not> truthy (cephUser v))) \<or>
     (pv_type v = JStr ''iscsi'' \<and>
        (\<not> truthy (iscsiTargetPortal v) \<or> \<not> truthy (iscsiIqn v) \<or> \<not> truthy (iscsiLun v))) \<or>
     pv_type v \<notin> JStr ` {''hostPath'', ''nfs'', ''local'', ''awsEbs'', ''gcePd'', ''azureDisk'',
                           ''cephRbd'', ''iscsi''}"
  by (auto simp: pv_volumeSource_def)

text \<open>
  A PV spec that lacks a field its backend requires (for \<^verbatim>\<open>nfs\<close>: \<^verbatim>\<open>nfsServer\<close> or
  \<^verbatim>\<open>nfsPath\<close>) or that names an unrecognized type yields no document, and has
  exactly the effect of an absent PV spec: whatever the request, the compilation
  returns the same mapping, or fails in the same way, as without it.
\<close>

lemma bad_pv_skipped:
  assumes "tiers p = Some ts" and "pv t = Some v"
      and "(pv_type v = JStr ''nfs'' \<and> (\<not> truthy (nfsServer v) \<or> \<not> truthy (nfsPath v))) \<or>
           (pv_type v = JStr ''awsEbs'' \<and> \<not> truthy (awsVolumeID v)) \<or>
           (pv_type v = JStr ''gcePd'' \<and> \<not> truthy (gcePdName v)) \<or>
           (pv_type v = JStr ''azureDisk'' \<and>
              (\<not> truthy (azureDiskName v) \<or> \<not> truthy (azureDiskURI v))) \<or>
           (pv_type v = JStr ''cephRbd'' \<and>
              (\<not> truthy (cephMonitors v) \<or> \<not> truthy (cephPool v) \<or> \<not> truthy (cephImage v) \<or>
               \<not> truthy (cephUser v))) \<or>
           (pv_type v = JStr ''iscsi'' \<and>
              (\<not> truthy (iscsiTargetPortal v) \<or> \<not> truthy (iscsiIqn v) \<or>
               \<not> truthy (iscsiLun v))) \<or>
           pv_type v \<notin> JStr ` {''hostPath'', ''nfs'', ''local'', ''awsEbs'', ''gcePd'',
                                 ''azureDisk'', ''cephRbd'', ''iscsi''}"
  shows "generatePV t (appName p) = None \<and>
         generateKubernetesManifests
           (p\<lparr>tiers := Some (map (\<lambda>u. if u = t then u\<lparr>pv := None\<rparr> else u) ts)\<rparr>)
           = generateKubernetesManifests p"
proof -
  have "pv_volumeSource v (name t) (appName p) = None"
    using assms(3) by (simp only: pv_volumeSource_None_iff)
  with assms(2) have none: "generatePV t (appName p) = None"
    by (rule generatePV_volumeSource_None)
  have "generateKubernetesManifests
           (p\<lparr>tiers := Some (map (\<lambda>u. if u = t then u\<lparr>pv := None\<rparr> else u) ts)\<rparr>)
           = generateKubernetesManifests p"
    by (rule drop_bad_pv [OF assms(1)]) (simp add: none)
  with none show ?thesis by (rule conjI)
qed

text \<open>In a mapping that a compilation returns, such a tier has no PV file.\<close>

lemma bad_pv_no_file:
  assumes "generateKubernetesManifests p = Inr fs" and "tiers p = Some ts" and "t \<in> set ts"
      and "distinct (map (\<lambda>t. to_str (name t)) ts)"
      and "pv t = Some v"
      and "(pv_type v = JStr ''nfs'' \<and> (\<not> truthy (nfsServer v) \<or> \<not> truthy (nfsPath v))) \<or>
           (pv_type v = JStr ''awsEbs'' \<and> \<not> truthy (awsVolumeID v)) \<or>
           (pv_type v = JStr ''gcePd'' \<and> \<not> truthy (gcePdName v)) \<or>
           (pv_type v = JStr ''azureDisk'' \<and>
              (\<not> truthy (azureDiskName v) \<or> \<not> truthy (azureDiskURI v))) \<or>
           (pv_type v = JStr ''cephRbd'' \<and>
              (\<not> truthy (cephMonitors v) \<or> \<not> truthy (cephPool v) \<or> \<not> truthy (cephImage v) \<or>
               \<not> truthy (cephUser v))) \<or>
           (pv_type v = JStr ''iscsi'' \<and>
              (\<not> truthy (iscsiTargetPortal v) \<or> \<not> truthy (iscsiIqn v) \<or>
               \<not> truthy (iscsiLun v))) \<or>
           pv_type v \<notin> JStr ` {''hostPath'', ''nfs'', ''local'', ''awsEbs'', ''gcePd'',
                                 ''azureDisk'', ''cephRbd'', ''iscsi''}"
  shows "''pv-'' @ to_str (name t) @ ''.yaml'' \<notin> fst ` set fs"
proof -
  have "pv_volumeSource v (name t) (appName p) = None"
    using assms(6) by (simp only: pv_volumeSource_None_iff)
  with assms(5) have none: "generatePV t (appName p) = None"
    by (rule generatePV_volumeSource_None)
  have "map_of fs (file_key ''pv'' (to_str (name t))) = None"
    using pv_after_compile [OF assms(1-4)] none by simp
  then show ?thesis
    by (simp add: in_keys_iff file_key_def)
qed

text \<open>
  The request \<^verbatim>\<open>storage_request\<close>, whose tier \<^verbatim>\<open>cache\<close> has an NFS volume without its
  server, compiles, and the result has no \<^verbatim>\<open>pv-cache.yaml\<close>.
\<close>

lemma nfs_without_server_skipped:
  "generatePV cache_tier (JStr ''shop'') = None \<and>
   (\<exists>fs. generateKubernetesManifests storage_request = Inr fs \<and>
         ''pv-cache.yaml'' \<notin> fst ` set fs)"
proof -
  let ?v = "empty_pv\<lparr> pv_enabled := JBool True, pv_type := JStr ''nfs'',
                       nfsPath := JStr ''/exports/cache'' \<rparr>"
  obtain fs where c: "generateKubernetesManifests storage_request = Inr fs"
    using storage_compiles by (elim exE)
  have ts: "tiers storage_request = Some [db_tier, cache_tier]"
    by (simp add: storage_request_def empty_payload_def)
  have d: "distinct (map (\<lambda>t. to_str (name t)) [db_tier, cache_tier])"
    by (simp add: db_tier_def cache_tier_def empty_tier_def)
  have pv: "pv cache_tier = Some ?v"
    by (simp add: cache_tier_def empty_tier_def)
  have t: "cache_tier \<in> set [db_tier, cache_tier]" by simp
  have bad: "pv_type ?v = JStr ''nfs'' \<and> (\<not> truthy (nfsServer ?v) \<or> \<not> truthy (nfsPath ?v))"
    by (simp add: empty_pv_def)
  have app: "appName storage_request = JStr ''shop''"
    and nm: "to_str (name cache_tier) = ''cache''"
    by (simp_all add: storage_request_def empty_payload_def cache_tier_def empty_tier_def)
  have g: "generatePV cache_tier (JStr ''shop'') = None"
    using conjunct1 [OF bad_pv_skipped [OF ts pv disjI1 [OF bad]]] unfolding app .
  have "''pv-'' @ to_str (name cache_tier) @ ''.yaml'' \<notin> fst ` set fs"
    by (rule bad_pv_no_file [OF c ts t d pv disjI1 [OF bad]])
  then have "''pv-cache.yaml'' \<notin> fst ` set fs"
    unfolding nm by simp
  with c have "\<exists>fs. generateKubernetesManifests storage_request = Inr fs \<and>
         ''pv-cache.yaml'' \<notin> fst ` set fs"
    by (intro exI [of _ fs] conjI)
  with g show ?thesis by (rule conjI)
qed

text \<open>The same volume in a tier with an Ingress rule on the host \<^verbatim>\<open>constructor\<close>.\<close>

lemma nfs_ctor_generatePV: "generatePV nfs_ctor_tier (JStr ''shop'') = None"
proof -
  let ?v = "empty_pv\<lparr> pv_enabled := JBool True, pv_type := JStr ''nfs'',
                       nfsPath := JStr ''/exports/cache'' \<rparr>"
  have pv: "pv nfs_ctor_tier = Some ?v"
    by (simp add: nfs_ctor_tier_def empty_tier_def)
  have "pv_volumeSource ?v (name nfs_ctor_tier) (JStr ''shop'') = None"
    by (subst nfs_volumeSource_None) (simp_all add: empty_pv_def)
  with pv show ?thesis
    by (rule generatePV_volumeSource_None)
qed

lemma nfs_ctor_ingress:
  "generateIngress [nfs_ctor_tier] ns app = Inl TypeError"
  by (simp add: generateIngress_def ingress_addTier_def nfs_ctor_tier_def
        empty_tier_def object_prototype_props_def Let_def)

text \<open>
  C6. A request with an incomplete PV spec is to compile all the same, to a mapping
  without the PV file. The request \<^verbatim>\<open>nfs_ctor_request\<close> passes validation; its one
  tier has an enabled \<^verbatim>\<open>nfs\<close> volume without \<^verbatim>\<open>nfsServer\<close>, and an Ingress rule on the
  host \<^verbatim>\<open>constructor\<close>. Its compilation returns no mapping: the Ingress step raises a
  \<^verbatim>\<open>TypeError\<close>.
\<close>

theorem bad_pv_request_raises:
  "validation_errors nfs_ctor_request = [] \<and>
   tiers nfs_ctor_request = Some [nfs_ctor_tier] \<and>
   map_option pv_enabled (pv nfs_ctor_tier) = Some (JBool True) \<and>
   map_option pv_type (pv nfs_ctor_tier) = Some (JStr ''nfs'') \<and>
   map_option nfsServer (pv nfs_ctor_tier) = Some JUndef \<and>
   generateKubernetesManifests nfs_ctor_request = Inl TypeError"
proof -
  have v: "validation_errors nfs_ctor_request = []"
    by (simp add: validation_errors_def nfs_ctor_request_def empty_payload_def)
  have ts: "tiers nfs_ctor_request = Some [nfs_ctor_tier]"
    by (simp add: nfs_ctor_request_def empty_payload_def)
  have pv: "map_option pv_enabled (pv nfs_ctor_tier) = Some (JBool True)"
    "map_option pv_type (pv nfs_ctor_tier) = Some (JStr ''nfs'')"
    "map_option nfsServer (pv nfs_ctor_tier) = Some JUndef"
    by (simp_all add: nfs_ctor_tier_def empty_tier_def empty_pv_def)
  have "generateKubernetesManifests nfs_ctor_request = Inl TypeError"
    by (simp add: generateKubernetesManifests_def v ts nfs_ctor_ingress Let_def)
  then show ?thesis
    by (intro conjI v ts pv)
qed

text \<open>
  In the result of a compilation of a request whose tier names are distinct, for a
  tier whose PV spec is enabled with type \<^verbatim>\<open>iscsi\<close>: \<^verbatim>\<open>pv-{tier.name}.yaml\<close> is
  present exactly when \<^verbatim>\<open>iscsiTargetPortal\<close>, \<^verbatim>\<open>iscsiIqn\<close> and \<^verbatim>\<open>iscsiLun\<close> are all
  truthy, which is how \<^verbatim>\<open>generatePV\<close> tests them, and the document ends with
  \<^verbatim>\<open>fsType: ext4\<close> when \<^verbatim>\<open>iscsiFsType\<close> is falsy.
\<close>

lemma iscsi_pv_truthy_iff:
  assumes "generateKubernetesManifests p = Inr fs" and "tiers p = Some ts" and "t \<in> set ts"
      and "distinct (map (\<lambda>t. to_str (name t)) ts)"
      and "pv t = Some v" and "truthy (pv_enabled v)" and "pv_type v = JStr ''iscsi''"
  shows "(''pv-'' @ to_str (name t) @ ''.yaml'' \<in> fst ` set fs \<longleftrightarrow>
            truthy (iscsiTargetPortal v) \<and> truthy (iscsiIqn v) \<and> truthy (iscsiLun v)) \<and>
         (\<forall>d. map_of fs (''pv-'' @ to_str (name t) @ ''.yaml'') = Some d \<longrightarrow>
              \<not> truthy (iscsiFsType v) \<longrightarrow> suffix (''    fsType: ext4'' @ nl) d)"
proof -
  let ?n = "to_str (name t)"
  have k: "''pv-'' @ ?n @ ''.yaml'' = file_key ''pv'' ?n"
    by (simp add: file_key_def)
  have look: "map_of fs (file_key ''pv'' ?n) = map_option content (generatePV t (appName p))"
    by (rule pv_after_compile [OF assms(1-4)])
  have ty: "truthy (pv_type v)" "pv_type v \<noteq> JStr ''none''"
    using assms(7) by simp_all
  have "generatePV t (appName p) = None \<longleftrightarrow>
          \<not> (truthy (iscsiTargetPortal v) \<and> truthy (iscsiIqn v) \<and> truthy (iscsiLun v))"
    using generatePV_eq_None [OF assms(5,6) ty] iscsi_volumeSource_None [OF assms(7)] by simp
  then have a: "file_key ''pv'' ?n \<in> fst ` set fs \<longleftrightarrow>
            truthy (iscsiTargetPortal v) \<and> truthy (iscsiIqn v) \<and> truthy (iscsiLun v)"
    unfolding in_keys_iff look by auto
  have b: "suffix (''    fsType: ext4'' @ nl) d"
    if d: "map_of fs (file_key ''pv'' ?n) = Some d" and nf: "\<not> truthy (iscsiFsType v)" for d
  proof -
    from d look obtain r where r: "generatePV t (appName p) = Some r" and dr: "d = content r"
      by auto
    from generatePV_Some [OF r] assms(5) obtain vs where
      vs: "pv_volumeSource v (name t) (appName p) = Some vs" and
      cr: "content r = pv_header t v (appName p) @ vs"
      by auto
    have "suffix (''    fsType: ext4'' @ nl) vs"
      by (rule iscsi_volumeSource_fsType [OF assms(7) vs nf])
    then show ?thesis unfolding dr cr by (rule suffix_appendI)
  qed
  from a b show ?thesis unfolding k by blast
qed

text \<open>With the LUN given as the string \<^verbatim>\<open>"0"\<close> the volume is emitted.\<close>

lemma iscsi_string_lun_emitted:
  "\<exists>fs d. generateKubernetesManifests storage_request = Inr fs \<and>
          ''pv-db.yaml'' \<in> fst ` set fs \<and>
          map_of fs ''pv-db.yaml'' = Some d \<and>
          suffix (''    fsType: ext4'' @ nl) d"
proof -
  let ?v = "empty_pv\<lparr> pv_enabled := JBool True, pv_type := JStr ''iscsi'',
                       iscsiTargetPortal := JStr ''10.0.0.5:3260'',
                       iscsiIqn := JStr ''iqn.2001-04.com.example:storage'',
                       iscsiLun := JStr ''0'' \<rparr>"
  obtain fs where c: "generateKubernetesManifests storage_request = Inr fs"
    using storage_compiles by (elim exE)
  have ts: "tiers storage_request = Some [db_tier, cache_tier]"
    by (simp add: storage_request_def empty_payload_def)
  have d: "distinct (map (\<lambda>t. to_str (name t)) [db_tier, cache_tier])"
    by (simp add: db_tier_def cache_tier_def empty_tier_def)
  have pv: "pv db_tier = Some ?v"
    by (simp add: db_tier_def empty_tier_def)
  have t: "db_tier \<in> set [db_tier, cache_tier]" by simp
  have en: "truthy (pv_enabled ?v)" and ty: "pv_type ?v = JStr ''iscsi''"
    by simp_all
  have nm: "to_str (name db_tier) = ''db''"
    by (simp add: db_tier_def empty_tier_def)
  have th: "(''pv-'' @ to_str (name db_tier) @ ''.yaml'' \<in> fst ` set fs \<longleftrightarrow>
            truthy (iscsiTargetPortal ?v) \<and> truthy (iscsiIqn ?v) \<and> truthy (iscsiLun ?v)) \<and>
         (\<forall>d. map_of fs (''pv-'' @ to_str (name db_tier) @ ''.yaml'') = Some d \<longrightarrow>
              \<not> truthy (iscsiFsType ?v) \<longrightarrow> suffix (''    fsType: ext4'' @ nl) d)"
    by (rule iscsi_pv_truthy_iff [OF c ts t d pv en ty])
  then have k: "''pv-db.yaml'' \<in> fst ` set fs"
    by (simp add: nm)
  then obtain d where dd: "map_of fs ''pv-db.yaml'' = Some d"
    using in_keys_iff [of "''pv-db.yaml''" fs] by auto
  with th have "suffix (''    fsType: ext4'' @ nl) d"
    by (simp add: nm empty_pv_def)
  with c k dd show ?thesis by blast
qed

text \<open>The renderer itself, on a complete iSCSI spec whose LUN is the number \<open>0\<close>.\<close>

lemma lun0_generatePV: "generatePV lun0_tier (JStr ''shop'') = None"
proof -
  let ?v = "empty_pv\<lparr> pv_enabled := JBool True, pv_type := JStr ''iscsi'',
                       iscsiTargetPortal := JStr ''10.0.0.5:3260'',
                       iscsiIqn := JStr ''iqn.2001-04.com.example:storage'',
                       iscsiLun := JNum 0 \<rparr>"
  have pvt: "pv lun0_tier = Some ?v"
    by (simp add: lun0_tier_def empty_tier_def)
  have "pv_volumeSource ?v (name lun0_tier) (JStr ''shop'') = None"
    by (subst iscsi_volumeSource_None) simp_all
  with pvt show ?thesis
    by (rule generatePV_volumeSource_None)
qed

text \<open>
  C7. An enabled \<^verbatim>\<open>iscsi\<close> volume with \<^verbatim>\<open>iscsiTargetPortal\<close>, \<^verbatim>\<open>iscsiIqn\<close> and
  \<^verbatim>\<open>iscsiLun\<close> all present is to yield \<^verbatim>\<open>pv-{tier.name}.yaml\<close>. The one tier of
  \<^verbatim>\<open>lun0_request\<close> has all three, the LUN being the number \<open>0\<close>; the request
  compiles, and the mapping that the compilation returns has no
  \<^verbatim>\<open>pv-db.yaml\<close>: the guard \<^verbatim>\<open>!iscsiLun\<close> takes the number \<open>0\<close> for a missing field.
\<close>

theorem iscsi_lun_zero_omitted:
  "tiers lun0_request = Some [lun0_tier] \<and>
   map_option pv_enabled (pv lun0_tier) = Some (JBool True) \<and>
   map_option pv_type (pv lun0_tier) = Some (JStr ''iscsi'') \<and>
   map_option iscsiTargetPortal (pv lun0_tier) = Some (JStr ''10.0.0.5:3260'') \<and>
   map_option iscsiIqn (pv lun0_tier) = Some (JStr ''iqn.2001-04.com.example:storage'') \<and>
   map_option iscsiLun (pv lun0_tier) = Some (JNum 0) \<and>
   (\<exists>fs. generateKubernetesManifests lun0_request = Inr fs \<and>
         ''pv-db.yaml'' \<notin> fst ` set fs)"
proof -
  let ?v = "empty_pv\<lparr> pv_enabled := JBool True, pv_type := JStr ''iscsi'',
                       iscsiTargetPortal := JStr ''10.0.0.5:3260'',
                       iscsiIqn := JStr ''iqn.2001-04.com.example:storage'',
                       iscsiLun := JNum 0 \<rparr>"
  have v: "validation_errors lun0_request = []"
    by (simp add: validation_errors_def lun0_request_def empty_payload_def)
  have ts: "tiers lun0_request = Some [lun0_tier]"
    by (simp add: lun0_request_def empty_payload_def)
  have app: "appName lun0_request = JStr ''shop''"
    by (simp add: lun0_request_def empty_payload_def)
  have nm: "to_str (name lun0_tier) = ''db''"
    by (simp add: lun0_tier_def empty_tier_def)
  have pvt: "pv lun0_tier = Some ?v"
    by (simp add: lun0_tier_def empty_tier_def)
  have pv: "map_option pv_enabled (pv lun0_tier) = Some (JBool True)"
    "map_option pv_type (pv lun0_tier) = Some (JStr ''iscsi'')"
    "map_option iscsiTargetPortal (pv lun0_tier) = Some (JStr ''10.0.0.5:3260'')"
    "map_option iscsiIqn (pv lun0_tier) = Some (JStr ''iqn.2001-04.com.example:storage'')"
    "map_option iscsiLun (pv lun0_tier) = Some (JNum 0)"
    unfolding pvt by simp_all
  have i: "generateIngress [lun0_tier] (namespace lun0_request) (appName lun0_request) = Inr None"
    by (rule ingress_none) (simp add: lun0_tier_def empty_tier_def)
  from compile_succeeds [OF v ts i] obtain fs where
    c: "generateKubernetesManifests lun0_request = Inr fs" by (elim exE)
  have "map_of fs (file_key ''pv'' (to_str (name lun0_tier))) =
          map_option content (generatePV lun0_tier (appName lun0_request))"
    by (rule pv_after_compile [OF c ts]) simp_all
  then have "map_of fs (file_key ''pv'' ''db'') = None"
    unfolding nm app lun0_generatePV by simp
  then have "''pv-db.yaml'' \<notin> fst ` set fs"
    by (simp add: in_keys_iff file_key_def)
  with c have e: "\<exists>fs. generateKubernetesManifests lun0_request = Inr fs \<and>
         ''pv-db.yaml'' \<notin> fst ` set fs"
    by (intro exI [of _ fs] conjI)
  show ?thesis
    by (intro conjI ts pv e)
qed

subsection \<open>Namespace lines and labels\<close>

lemma ns_configMap: "sublist (''  namespace: '' @ to_str ns @ nl) (configMap_doc t ns app)"
  unfolding configMap_doc_def Let_def
  apply (((rule sub_here, ((rule pre_step)+)?, (rule pre_end | rule prefix_order.refl)) | rule sub_skip)+)
  done

lemma ns_secret: "sublist (''  namespace: '' @ to_str ns @ nl) (secret_doc t ns app)"
  unfolding secret_doc_def Let_def
  apply (((rule sub_here, ((rule pre_step)+)?, (rule pre_end | rule prefix_order.refl)) | rule sub_skip)+)
  done

lemma ns_pvc: "sublist (''  namespace: '' @ to_str ns @ nl) (pvc_doc t c ns app)"
  unfolding pvc_doc_def Let_def
  apply (((rule sub_here, ((rule pre_step)+)?, (rule pre_end | rule prefix_order.refl)) | rule sub_skip)+)
  done

lemma ns_deployment:
  "sublist (''  namespace: '' @ to_str ns @ nl) (generateDeployment t ns app cr sr pr)"
  unfolding generateDeployment_def Let_def
  apply (((rule sub_here, ((rule pre_step)+)?, (rule pre_end | rule prefix_order.refl)) | rule sub_skip)+)
  done

lemma ns_statefulset:
  "sublist (''  namespace: '' @ to_str ns @ nl) (generateStatefulSet t ns app cr sr)"
  unfolding generateStatefulSet_def Let_def
  apply (((rule sub_here, ((rule pre_step)+)?, (rule pre_end | rule prefix_order.refl)) | rule sub_skip)+)
  done

lemma ns_service: "sublist (''  namespace: '' @ to_str ns @ nl) (service_doc t svc ns app)"
  unfolding service_doc_def
  apply (((rule sub_here, ((rule pre_step)+)?, (rule pre_end | rule prefix_order.refl)) | rule sub_skip)+)
  done

lemma ns_headless:
  "sublist (''  namespace: '' @ to_str ns @ nl) (generateHeadlessService t ns app)"
  unfolding generateHeadlessService_def
  apply (((rule sub_here, ((rule pre_step)+)?, (rule pre_end | rule prefix_order.refl)) | rule sub_skip)+)
  done

lemma ns_ingress: "sublist (''  namespace: '' @ to_str ns @ nl) (ingress_doc ns app blocks)"
  unfolding ingress_doc_def
  apply (((rule sub_here, ((rule pre_step)+)?, (rule pre_end | rule prefix_order.refl)) | rule sub_skip)+)
  done

lemma ns_rbac:
  "(k, d) \<in> set (generateRBAC ns app) \<Longrightarrow> sublist (''  namespace: '' @ to_str ns @ nl) d"
  unfolding generateRBAC_def Let_def
  apply (simp only: set_simps insert_iff empty_iff prod.inject)
  apply (elim disjE conjE FalseE)
    apply (erule ssubst [of d],
      ((rule sub_here, ((rule pre_step)+)?, (rule pre_end | rule prefix_order.refl)) | rule sub_skip)+)+
  done

lemma labels_deployment:
  "sublist (''  labels:'' @ nl @ ''    app: '' @ to_str app @ nl @
            ''    tier: '' @ to_str (name t) @ nl)
     (generateDeployment t ns app cr sr pr)"
  unfolding generateDeployment_def Let_def
  apply (((rule sub_here, ((rule pre_step)+)?, (rule pre_end | rule prefix_order.refl)) | rule sub_skip)+)
  done

lemma labels_statefulset:
  "sublist (''  labels:'' @ nl @ ''    app: '' @ to_str app @ nl @
            ''    tier: '' @ to_str (name t) @ nl)
     (generateStatefulSet t ns app cr sr)"
  unfolding generateStatefulSet_def Let_def
  apply (((rule sub_here, ((rule pre_step)+)?, (rule pre_end | rule prefix_order.refl)) | rule sub_skip)+)
  done

lemma labels_service:
  "sublist (''  labels:'' @ nl @ ''    app: '' @ to_str app @ nl @
            ''    tier: '' @ to_str (name t) @ nl)
     (service_doc t svc ns app)"
  unfolding service_doc_def
  apply (((rule sub_here, ((rule pre_step)+)?, (rule pre_end | rule prefix_order.refl)) | rule sub_skip)+)
  done

lemma labels_headless:
  "sublist (''  labels:'' @ nl @ ''    app: '' @ to_str app @ nl @
            ''    tier: '' @ to_str (name t) @ nl)
     (generateHeadlessService t ns app)"
  unfolding generateHeadlessService_def
  apply (((rule sub_here, ((rule pre_step)+)?, (rule pre_end | rule prefix_order.refl)) | rule sub_skip)+)
  done

subsection \<open>A property of every entry of the file mapping\<close>

lemma set_file_inv:
  assumes "\<forall>e\<in>set fs. I e" and "I (k, v)"
  shows "\<forall>e\<in>set (set_file k v fs). I e"
  using set_set_file [of k v fs] assms by auto

lemma firstPass_tier_inv:
  assumes "\<forall>e\<in>set (files s). I e"
      and "\<And>r. renderConfigMap t ns app = Some r \<Longrightarrow> I (filename r, content r)"
      and "\<And>r. renderSecret t ns app = Some r \<Longrightarrow> I (filename r, content r)"
      and "\<And>r. generatePVC t ns app = Some r \<Longrightarrow> I (filename r, content r)"
      and "\<And>r. generatePV t app = Some r \<Longrightarrow> I (filename r, content r)"
  shows "\<forall>e\<in>set (files (firstPass_tier ns app t s)). I e"
proof -
  have 1: "\<forall>e\<in>set (files (pass1_configMap ns app t s)). I e"
  proof (cases "renderConfigMap t ns app")
    case None
    then show ?thesis using assms(1) by (simp add: pass1_configMap_def)
  next
    case (Some r)
    have "\<forall>e\<in>set (set_file (filename r) (content r) (files s)). I e"
      by (rule set_file_inv [OF assms(1) assms(2) [OF Some]])
    then show ?thesis using Some by (simp add: pass1_configMap_def)
  qed
  have 2: "\<forall>e\<in>set (files (pass1_secret ns app t s')). I e" if h: "\<forall>e\<in>set (files s'). I e" for s'
  proof (cases "renderSecret t ns app")
    case None
    then show ?thesis using h by (simp add: pass1_secret_def)
  next
    case (Some r)
    have "\<forall>e\<in>set (set_file (filename r) (content r) (files s')). I e"
      by (rule set_file_inv [OF h assms(3) [OF Some]])
    then show ?thesis using Some by (simp add: pass1_secret_def)
  qed
  have 3: "\<forall>e\<in>set (files (pass1_pvc ns app t s')). I e" if h: "\<forall>e\<in>set (files s'). I e" for s'
  proof (cases "generatePVC t ns app")
    case None
    then show ?thesis using h by (simp add: pass1_pvc_def)
  next
    case (Some r)
    have "\<forall>e\<in>set (set_file (filename r) (content r) (files s')). I e"
      by (rule set_file_inv [OF h assms(4) [OF Some]])
    then show ?thesis using Some h by (simp add: pass1_pvc_def)
  qed
  have 4: "\<forall>e\<in>set (files (pass1_pv app t s')). I e" if h: "\<forall>e\<in>set (files s'). I e" for s'
  proof (cases "generatePV t app")
    case None
    then show ?thesis using h by (simp add: pass1_pv_def)
  next
    case (Some r)
    have "\<forall>e\<in>set (set_file (filename r) (content r) (files s')). I e"
      by (rule set_file_inv [OF h assms(5) [OF Some]])
    then show ?thesis using Some h by (simp add: pass1_pv_def)
  qed
  show ?thesis
    unfolding firstPass_tier_def by (intro 4 3 2 1)
qed

lemma fold_firstPass_inv:
  assumes "\<forall>e\<in>set (files s). I e"
      and "\<And>t r. renderConfigMap t ns app = Some r \<Longrightarrow> I (filename r, content r)"
      and "\<And>t r. renderSecret t ns app = Some r \<Longrightarrow> I (filename r, content r)"
      and "\<And>t r. generatePVC t ns app = Some r \<Longrightarrow> I (filename r, content r)"
      and "\<And>t r. generatePV t app = Some r \<Longrightarrow> I (filename r, content r)"
  shows "\<forall>e\<in>set (files (fold (firstPass_tier ns app) ts s)). I e"
  using assms(1)
proof (induction ts arbitrary: s)
  case Nil
  then show ?case by simp
next
  case (Cons t ts)
  have "\<forall>e\<in>set (files (firstPass_tier ns app t s)). I e"
    by (rule firstPass_tier_inv [OF Cons.prems assms(2-5)])
  from Cons.IH [OF this] show ?case by simp
qed

lemma secondPass_tier_inv:
  assumes "\<forall>e\<in>set fs. I e"
      and "\<And>cr sr pr. I (''deployment-'' @ to_str (name t) @ ''.yaml'',
                          generateDeployment t ns app cr sr pr)"
      and "\<And>cr sr. I (''statefulset-'' @ to_str (name t) @ ''.yaml'',
                       generateStatefulSet t ns app cr sr)"
      and "I (''headless-service-'' @ to_str (name t) @ ''.yaml'', generateHeadlessService t ns app)"
      and "\<And>d. generateService t ns app = Some d \<Longrightarrow>
                 I (''service-'' @ to_str (name t) @ ''.yaml'', d)"
  shows "\<forall>e\<in>set (secondPass_tier ns app cms secs pvcs t fs). I e"
proof -
  define fs1 where "fs1 =
             (if js_or (workloadType t) (JStr ''Deployment'') = JStr ''StatefulSet''
              then set_file (''statefulset-'' @ to_str (name t) @ ''.yaml'')
                     (generateStatefulSet t ns app (refs_get ''cmName'' cms (to_str (name t)))
                        (refs_get ''secretName'' secs (to_str (name t))))
                     (set_file (''headless-service-'' @ to_str (name t) @ ''.yaml'')
                        (generateHeadlessService t ns app) fs)
              else set_file (''deployment-'' @ to_str (name t) @ ''.yaml'')
                     (generateDeployment t ns app (refs_get ''cmName'' cms (to_str (name t)))
                        (refs_get ''secretName'' secs (to_str (name t)))
                        (refs_get ''pvcName'' pvcs (to_str (name t)))) fs)"
  have 1: "\<forall>e\<in>set fs1. I e"
  proof (cases "js_or (workloadType t) (JStr ''Deployment'') = JStr ''StatefulSet''")
    case True
    have "\<forall>e\<in>set (set_file (''headless-service-'' @ to_str (name t) @ ''.yaml'')
                        (generateHeadlessService t ns app) fs). I e"
      by (rule set_file_inv [OF assms(1) assms(4)])
    then have "\<forall>e\<in>set (set_file (''statefulset-'' @ to_str (name t) @ ''.yaml'')
                     (generateStatefulSet t ns app (refs_get ''cmName'' cms (to_str (name t)))
                        (refs_get ''secretName'' secs (to_str (name t))))
                     (set_file (''headless-service-'' @ to_str (name t) @ ''.yaml'')
                        (generateHeadlessService t ns app) fs)). I e"
      by (rule set_file_inv) (rule assms(3))
    then show ?thesis unfolding fs1_def by (simp only: if_P [OF True])
  next
    case False
    have "\<forall>e\<in>set (set_file (''deployment-'' @ to_str (name t) @ ''.yaml'')
                     (generateDeployment t ns app (refs_get ''cmName'' cms (to_str (name t)))
                        (refs_get ''secretName'' secs (to_str (name t)))
                        (refs_get ''pvcName'' pvcs (to_str (name t)))) fs). I e"
      by (rule set_file_inv [OF assms(1) assms(2)])
    then show ?thesis unfolding fs1_def by (simp only: if_not_P [OF False])
  qed
  have eq: "secondPass_tier ns app cms secs pvcs t fs =
          (case generateService t ns app of
             None \<Rightarrow> fs1
           | Some d \<Rightarrow> set_file (''service-'' @ to_str (name t) @ ''.yaml'') d fs1)"
    unfolding fs1_def by (simp only: secondPass_tier_def Let_def)
  show ?thesis
  proof (cases "generateService t ns app")
    case None
    then show ?thesis using 1 unfolding eq by (simp only: option.case)
  next
    case (Some d)
    have "\<forall>e\<in>set (set_file (''service-'' @ to_str (name t) @ ''.yaml'') d fs1). I e"
      by (rule set_file_inv [OF 1 assms(5) [OF Some]])
    then show ?thesis using Some unfolding eq by (simp only: option.case)
  qed
qed

lemma fold_secondPass_inv:
  assumes "\<forall>e\<in>set fs. I e"
      and "\<And>t cr sr pr. I (''deployment-'' @ to_str (name t) @ ''.yaml'',
                            generateDeployment t ns app cr sr pr)"
      and "\<And>t cr sr. I (''statefulset-'' @ to_str (name t) @ ''.yaml'',
                         generateStatefulSet t ns app cr sr)"
      and "\<And>t. I (''headless-service-'' @ to_str (name t) @ ''.yaml'',
                   generateHeadlessService t ns app)"
      and "\<And>t d. generateService t ns app = Some d \<Longrightarrow>
                 I (''service-'' @ to_str (name t) @ ''.yaml'', d)"
  shows "\<forall>e\<in>set (fold (secondPass_tier ns app cms secs pvcs) ts fs). I e"
  using assms(1)
proof (induction ts arbitrary: fs)
  case Nil
  then show ?case by simp
next
  case (Cons t ts)
  have "\<forall>e\<in>set (secondPass_tier ns app cms secs pvcs t fs). I e"
    by (rule secondPass_tier_inv [OF Cons.prems assms(2-5)])
  from Cons.IH [OF this] show ?case by simp
qed

lemma rbac_inv:
  assumes "\<forall>e\<in>set fs. I e" and "\<forall>e\<in>set (generateRBAC ns app). I e"
  shows "\<forall>e\<in>set (fold (\<lambda>(k, v). set_file k v) (generateRBAC ns app) fs). I e"
proof -
  have "\<forall>e\<in>set (fold (\<lambda>(k, v). set_file k v) xs gs). I e"
    if "\<forall>e\<in>set gs. I e" and "\<forall>e\<in>set xs. I e" for xs gs
    using that
  proof (induction xs arbitrary: gs)
    case Nil
    then show ?case by simp
  next
    case (Cons x xs)
    obtain k v where x: "x = (k, v)" by (cases x)
    have "I (k, v)" using Cons.prems(2) x by simp
    with Cons.prems(1) have "\<forall>e\<in>set (set_file k v gs). I e"
      by (rule set_file_inv)
    with Cons.IH [of "set_file k v gs"] Cons.prems(2) show ?case by (simp add: x)
  qed
  with assms show ?thesis by blast
qed

lemma renderConfigMap_content:
  "renderConfigMap t ns app = Some r \<Longrightarrow> content r = configMap_doc t ns app"
  by (auto simp: renderConfigMap_def Let_def split: if_splits)

lemma renderSecret_content:
  "renderSecret t ns app = Some r \<Longrightarrow> content r = secret_doc t ns app"
  by (auto simp: renderSecret_def Let_def split: if_splits)

lemma generatePVC_content:
  "generatePVC t ns app = Some r \<Longrightarrow> \<exists>c. content r = pvc_doc t c ns app"
  by (auto simp: generatePVC_def split: option.splits if_splits)

lemma generateService_doc:
  "generateService t ns app = Some d \<Longrightarrow> \<exists>svc. d = service_doc t svc ns app"
  by (auto simp: generateService_def split: option.splits)

lemma generateIngress_doc:
  "generateIngress ts ns app = Inr (Some d) \<Longrightarrow> \<exists>blocks. d = ingress_doc ns app blocks"
  by (auto simp: generateIngress_def Let_def split: sum.splits if_splits)

lemma rbac_keys:
  "(k, d) \<in> set (generateRBAC ns app) \<Longrightarrow>
   k \<in> {''serviceaccount.yaml'', ''role.yaml'', ''rolebinding.yaml''}"
  by (auto simp: generateRBAC_def Let_def)

text \<open>
  In the result of a compilation, every document other than the Namespace and the
  PersistentVolumes (both cluster-scoped) contains the line
  \<^verbatim>\<open>namespace: {namespace}\<close>; the Deployment, StatefulSet, Service and headless
  Service documents of a tier name also contain the block \<^verbatim>\<open>labels:\<close> with
  \<^verbatim>\<open>app: {appName}\<close> and \<^verbatim>\<open>tier: {tier.name}\<close>.
\<close>

lemma compile_namespace_labels:
  assumes "generateKubernetesManifests p = Inr fs" and "(k, d) \<in> set fs"
  shows "(k \<noteq> ''namespace.yaml'' \<longrightarrow> (\<forall>n. k \<noteq> ''pv-'' @ n @ ''.yaml'') \<longrightarrow>
            sublist (''  namespace: '' @ to_str (namespace p) @ nl) d) \<and>
         (\<forall>n. k \<in> {''deployment-'' @ n @ ''.yaml'', ''statefulset-'' @ n @ ''.yaml'',
                    ''service-'' @ n @ ''.yaml'', ''headless-service-'' @ n @ ''.yaml''} \<longrightarrow>
              sublist (''  labels:'' @ nl @ ''    app: '' @ to_str (appName p) @ nl @
                       ''    tier: '' @ n @ nl) d)"
proof -
  let ?ns = "namespace p" and ?app = "appName p"
  define I where "I = (\<lambda>(k, d).
       (k \<noteq> ''namespace.yaml'' \<longrightarrow> (\<forall>n. k \<noteq> ''pv-'' @ n @ ''.yaml'') \<longrightarrow>
            sublist (''  namespace: '' @ to_str ?ns @ nl) d) \<and>
       (\<forall>n. k \<in> {''deployment-'' @ n @ ''.yaml'', ''statefulset-'' @ n @ ''.yaml'',
                  ''service-'' @ n @ ''.yaml'', ''headless-service-'' @ n @ ''.yaml''} \<longrightarrow>
            sublist (''  labels:'' @ nl @ ''    app: '' @ to_str ?app @ nl @
                     ''    tier: '' @ n @ nl) d))"
  from assms(1) obtain ts ing where
    ing: "generateIngress ts ?ns ?app = Inr ing" and
    fs: "fs = (if truthy (enableRBAC p)
           then fold (\<lambda>(k, v). set_file k v) (generateRBAC ?ns ?app) else id)
          ((case ing of None \<Rightarrow> id | Some d \<Rightarrow> set_file ''ingress.yaml'' d)
           (secondPass ?ns ?app (firstPass ?ns ?app ts (initial_files p)) ts))"
    by (rule compile_Inr)
  have a0: "\<forall>e\<in>set (initial_files p). I e"
    by (simp add: initial_files_def set_file_def I_def)
  have cm: "I (filename r, content r)" if "renderConfigMap t ?ns ?app = Some r" for t r
    using renderConfigMap_filename [OF that] renderConfigMap_content [OF that]
      ns_configMap [of ?ns t ?app]
    by (simp add: I_def file_key_def)
  have sec: "I (filename r, content r)" if "renderSecret t ?ns ?app = Some r" for t r
    using renderSecret_filename [OF that] renderSecret_content [OF that]
      ns_secret [of ?ns t ?app]
    by (simp add: I_def file_key_def)
  have pvc: "I (filename r, content r)" if "generatePVC t ?ns ?app = Some r" for t r
    using generatePVC_filename [OF that] generatePVC_content [OF that] ns_pvc [of ?ns t _ ?app]
    by (auto simp: I_def file_key_def)
  have pv: "I (filename r, content r)" if "generatePV t ?app = Some r" for t r
    using generatePV_filename [OF that]
    by (simp add: I_def file_key_def)
  have a1: "\<forall>e\<in>set (files (firstPass ?ns ?app ts (initial_files p))). I e"
    unfolding firstPass_def
    by (rule fold_firstPass_inv) (use a0 cm sec pvc pv in simp_all)
  have dep: "I (''deployment-'' @ to_str (name t) @ ''.yaml'',
                generateDeployment t ?ns ?app cr sr pr)" for t cr sr pr
    using ns_deployment [of ?ns t ?app cr sr pr] labels_deployment [of ?app t ?ns cr sr pr]
    by (simp add: I_def)
  have ss: "I (''statefulset-'' @ to_str (name t) @ ''.yaml'',
               generateStatefulSet t ?ns ?app cr sr)" for t cr sr
    using ns_statefulset [of ?ns t ?app cr sr] labels_statefulset [of ?app t ?ns cr sr]
    by (simp add: I_def)
  have hs: "I (''headless-service-'' @ to_str (name t) @ ''.yaml'',
               generateHeadlessService t ?ns ?app)" for t
    using ns_headless [of ?ns t ?app] labels_headless [of ?app t ?ns]
    by (simp add: I_def)
  have svc: "I (''service-'' @ to_str (name t) @ ''.yaml'', d')"
    if "generateService t ?ns ?app = Some d'" for t d'
    using generateService_doc [OF that] ns_service [of ?ns t _ ?app]
      labels_service [of ?app t _ ?ns]
    by (auto simp: I_def)
  have a2: "\<forall>e\<in>set (secondPass ?ns ?app (firstPass ?ns ?app ts (initial_files p)) ts). I e"
    unfolding secondPass_def
    by (rule fold_secondPass_inv [OF a1 dep ss hs svc])
  have a3: "\<forall>e\<in>set ((case ing of None \<Rightarrow> id | Some d \<Rightarrow> set_file ''ingress.yaml'' d)
           (secondPass ?ns ?app (firstPass ?ns ?app ts (initial_files p)) ts)). I e"
  proof (cases ing)
    case None
    then show ?thesis using a2 by simp
  next
    case (Some d')
    from generateIngress_doc [of ts ?ns ?app d'] ing Some obtain blocks where
      "d' = ingress_doc ?ns ?app blocks" by auto
    then have "I (''ingress.yaml'', d')"
      using ns_ingress [of ?ns ?app blocks] by (simp add: I_def)
    with a2 have "\<forall>e\<in>set (set_file ''ingress.yaml'' d'
           (secondPass ?ns ?app (firstPass ?ns ?app ts (initial_files p)) ts)). I e"
      by (rule set_file_inv)
    then show ?thesis using Some by simp
  qed
  have rb: "\<forall>e\<in>set (generateRBAC ?ns ?app). I e"
  proof
    fix e assume e: "e \<in> set (generateRBAC ?ns ?app)"
    obtain k' d' where kd: "e = (k', d')" by (cases e)
    from e kd rbac_keys [of k' d' ?ns ?app] ns_rbac [of k' d' ?ns ?app]
    show "I e" by (auto simp: I_def)
  qed
  have "\<forall>e\<in>set fs. I e"
  proof (cases "truthy (enableRBAC p)")
    case True
    then show ?thesis unfolding fs using rbac_inv [OF a3 rb] by simp
  next
    case False
    then show ?thesis unfolding fs using a3 by simp
  qed
  with assms(2) have "I (k, d)" by blast
  then show ?thesis unfolding I_def by simp
qed

subsection \<open>The metadata of the documents without labels\<close>

text \<open>
  The ConfigMap, Secret, PVC and Ingress templates open with a \<^verbatim>\<open>metadata\<close> block that
  has no \<^verbatim>\<open>labels\<close>: \<^verbatim>\<open>name\<close> and \<^verbatim>\<open>namespace\<close>, and for the Ingress one annotation,
  are followed at once by the next top-level key.
\<close>

lemma head_configMap:
  "prefix (''apiVersion: v1'' @ nl @
           ''kind: ConfigMap'' @ nl @
           ''metadata:'' @ nl @
           ''  name: '' @ (to_str app @ ''-'' @ to_str (name t) @ ''-config'') @ nl @
           ''  namespace: '' @ to_str ns @ nl @
           ''data:'' @ nl)
     (configMap_doc t ns app)"
  unfolding configMap_doc_def Let_def
  apply ((rule pre_step)+, rule pre_end)
  done

lemma head_secret:
  "prefix (''apiVersion: v1'' @ nl @
           ''kind: Secret'' @ nl @
           ''metadata:'' @ nl @
           ''  name: '' @ (to_str app @ ''-'' @ to_str (name t) @ ''-secret'') @ nl @
           ''  namespace: '' @ to_str ns @ nl @
           ''type: Opaque'' @ nl)
     (secret_doc t ns app)"
  unfolding secret_doc_def Let_def
  apply ((rule pre_step)+, rule pre_end)
  done

lemma head_pvc:
  "prefix (''apiVersion: v1'' @ nl @
           ''kind: PersistentVolumeClaim'' @ nl @
           ''metadata:'' @ nl @
           ''  name: '' @ (to_str app @ ''-'' @ to_str (name t) @ ''-pvc'') @ nl @
           ''  namespace: '' @ to_str ns @ nl @
           ''spec:'' @ nl)
     (pvc_doc t c ns app)"
  unfolding pvc_doc_def Let_def
  apply ((rule pre_step)+, rule pre_end)
  done

lemma head_ingress:
  "prefix (''apiVersion: networking.k8s.io/v1'' @ nl @
           ''kind: Ingress'' @ nl @
           ''metadata:'' @ nl @
           ''  name: '' @ to_str app @ ''-ingress'' @ nl @
           ''  namespace: '' @ to_str ns @ nl @
           ''  annotations:'' @ nl @
           ''    nginx.ingress.kubernetes.io/rewrite-target: /'' @ nl @
           ''spec:'' @ nl)
     (ingress_doc ns app blocks)"
  unfolding ingress_doc_def
  apply ((rule pre_step)+, rule pre_end)
  done

lemma compile_metadata:
  assumes "generateKubernetesManifests p = Inr fs" and "(k, d) \<in> set fs"
  shows "(\<forall>n. k = ''configmap-'' @ n @ ''.yaml'' \<longrightarrow>
            prefix (''apiVersion: v1'' @ nl @
                    ''kind: ConfigMap'' @ nl @
                    ''metadata:'' @ nl @
                    ''  name: '' @ (to_str (appName p) @ ''-'' @ n @ ''-config'') @ nl @
                    ''  namespace: '' @ to_str (namespace p) @ nl @
                    ''data:'' @ nl) d) \<and>
         (\<forall>n. k = ''secret-'' @ n @ ''.yaml'' \<longrightarrow>
            prefix (''apiVersion: v1'' @ nl @
                    ''kind: Secret'' @ nl @
                    ''metadata:'' @ nl @
                    ''  name: '' @ (to_str (appName p) @ ''-'' @ n @ ''-secret'') @ nl @
                    ''  namespace: '' @ to_str (namespace p) @ nl @
                    ''type: Opaque'' @ nl) d) \<and>
         (\<forall>n. k = ''pvc-'' @ n @ ''.yaml'' \<longrightarrow>
            prefix (''apiVersion: v1'' @ nl @
                    ''kind: PersistentVolumeClaim'' @ nl @
                    ''metadata:'' @ nl @
                    ''  name: '' @ (to_str (appName p) @ ''-'' @ n @ ''-pvc'') @ nl @
                    ''  namespace: '' @ to_str (namespace p) @ nl @
                    ''spec:'' @ nl) d) \<and>
         (k = ''ingress.yaml'' \<longrightarrow>
            prefix (''apiVersion: networking.k8s.io/v1'' @ nl @
                    ''kind: Ingress'' @ nl @
                    ''metadata:'' @ nl @
                    ''  name: '' @ to_str (appName p) @ ''-ingress'' @ nl @
                    ''  namespace: '' @ to_str (namespace p) @ nl @
                    ''  annotations:'' @ nl @
                    ''    nginx.ingress.kubernetes.io/rewrite-target: /'' @ nl @
                    ''spec:'' @ nl) d)"
proof -
  let ?ns = "namespace p" and ?app = "appName p"
  define CM where "CM n = ''apiVersion: v1'' @ nl @
                    ''kind: ConfigMap'' @ nl @
                    ''metadata:'' @ nl @
                    ''  name: '' @ (to_str ?app @ ''-'' @ n @ ''-config'') @ nl @
                    ''  namespace: '' @ to_str ?ns @ nl @
                    ''data:'' @ nl" for n
  define SEC where "SEC n = ''apiVersion: v1'' @ nl @
                    ''kind: Secret'' @ nl @
                    ''metadata:'' @ nl @
                    ''  name: '' @ (to_str ?app @ ''-'' @ n @ ''-secret'') @ nl @
                    ''  namespace: '' @ to_str ?ns @ nl @
                    ''type: Opaque'' @ nl" for n
  define PVC where "PVC n = ''apiVersion: v1'' @ nl @
                    ''kind: PersistentVolumeClaim'' @ nl @
                    ''metadata:'' @ nl @
                    ''  name: '' @ (to_str ?app @ ''-'' @ n @ ''-pvc'') @ nl @
                    ''  namespace: '' @ to_str ?ns @ nl @
                    ''spec:'' @ nl" for n
  define ING where "ING = ''apiVersion: networking.k8s.io/v1'' @ nl @
                    ''kind: Ingress'' @ nl @
                    ''metadata:'' @ nl @
                    ''  name: '' @ to_str ?app @ ''-ingress'' @ nl @
                    ''  namespace: '' @ to_str ?ns @ nl @
                    ''  annotations:'' @ nl @
                    ''    nginx.ingress.kubernetes.io/rewrite-target: /'' @ nl @
                    ''spec:'' @ nl"
  define I where "I = (\<lambda>(k, d).
       (\<forall>n. k = file_key ''configmap'' n \<longrightarrow> prefix (CM n) d) \<and>
       (\<forall>n. k = file_key ''secret'' n \<longrightarrow> prefix (SEC n) d) \<and>
       (\<forall>n. k = file_key ''pvc'' n \<longrightarrow> prefix (PVC n) d) \<and>
       (k = ''ingress.yaml'' \<longrightarrow> prefix ING d))"
  have other: "I (k', d')"
    if "\<And>n. k' \<noteq> file_key ''configmap'' n" "\<And>n. k' \<noteq> file_key ''secret'' n"
       "\<And>n. k' \<noteq> file_key ''pvc'' n" "k' \<noteq> ''ingress.yaml''" for k' d'
    using that by (simp add: I_def)
  from assms(1) obtain ts ing where
    ing: "generateIngress ts ?ns ?app = Inr ing" and
    fs: "fs = (if truthy (enableRBAC p)
           then fold (\<lambda>(k, v). set_file k v) (generateRBAC ?ns ?app) else id)
          ((case ing of None \<Rightarrow> id | Some d \<Rightarrow> set_file ''ingress.yaml'' d)
           (secondPass ?ns ?app (firstPass ?ns ?app ts (initial_files p)) ts))"
    by (rule compile_Inr)
  have a0: "\<forall>e\<in>set (initial_files p). I e"
    by (simp add: initial_files_def set_file_def I_def file_key_def)
  have cm: "I (filename r, content r)" if "renderConfigMap t ?ns ?app = Some r" for t r
    using renderConfigMap_filename [OF that] renderConfigMap_content [OF that]
      head_configMap [of ?app t ?ns]
    by (simp add: I_def CM_def) (simp add: file_key_def)
  have sec: "I (filename r, content r)" if "renderSecret t ?ns ?app = Some r" for t r
    using renderSecret_filename [OF that] renderSecret_content [OF that]
      head_secret [of ?app t ?ns]
    by (simp add: I_def SEC_def) (simp add: file_key_def)
  have pvc: "I (filename r, content r)" if "generatePVC t ?ns ?app = Some r" for t r
  proof -
    from generatePVC_content [OF that] obtain c where "content r = pvc_doc t c ?ns ?app"
      by (elim exE)
    with generatePVC_filename [OF that] head_pvc [of ?app t ?ns c]
    show ?thesis
      by (simp add: I_def PVC_def) (simp add: file_key_def)
  qed
  have pv: "I (filename r, content r)" if "generatePV t ?app = Some r" for t r
    using generatePV_filename [OF that]
    by (simp add: I_def) (simp add: file_key_def)
  have a1: "\<forall>e\<in>set (files (firstPass ?ns ?app ts (initial_files p))). I e"
    unfolding firstPass_def
    by (rule fold_firstPass_inv) (use a0 cm sec pvc pv in simp_all)
  have dep: "I (''deployment-'' @ to_str (name t) @ ''.yaml'',
                generateDeployment t ?ns ?app cr sr pr)" for t cr sr pr
    by (rule other) (simp_all add: file_key_def)
  have ss: "I (''statefulset-'' @ to_str (name t) @ ''.yaml'',
               generateStatefulSet t ?ns ?app cr sr)" for t cr sr
    by (rule other) (simp_all add: file_key_def)
  have hs: "I (''headless-service-'' @ to_str (name t) @ ''.yaml'',
               generateHeadlessService t ?ns ?app)" for t
    by (rule other) (simp_all add: file_key_def)
  have svc: "I (''service-'' @ to_str (name t) @ ''.yaml'', d')"
    if "generateService t ?ns ?app = Some d'" for t d'
    by (rule other) (simp_all add: file_key_def)
  have a2: "\<forall>e\<in>set (secondPass ?ns ?app (firstPass ?ns ?app ts (initial_files p)) ts). I e"
    unfolding secondPass_def
    by (rule fold_secondPass_inv [OF a1 dep ss hs svc])
  have a3: "\<forall>e\<in>set ((case ing of None \<Rightarrow> id | Some d \<Rightarrow> set_file ''ingress.yaml'' d)
           (secondPass ?ns ?app (firstPass ?ns ?app ts (initial_files p)) ts)). I e"
  proof (cases ing)
    case None
    then show ?thesis using a2 by simp
  next
    case (Some d')
    from generateIngress_doc [of ts ?ns ?app d'] ing Some obtain blocks where
      "d' = ingress_doc ?ns ?app blocks" by auto
    then have "I (''ingress.yaml'', d')"
      using head_ingress [of ?app ?ns blocks]
      by (simp add: I_def ING_def) (simp add: file_key_def)
    with a2 have "\<forall>e\<in>set (set_file ''ingress.yaml'' d'
           (secondPass ?ns ?app (firstPass ?ns ?app ts (initial_files p)) ts)). I e"
      by (rule set_file_inv)
    then show ?thesis using Some by simp
  qed
  have rb: "\<forall>e\<in>set (generateRBAC ?ns ?app). I e"
  proof
    fix e assume e: "e \<in> set (generateRBAC ?ns ?app)"
    obtain k' d' where kd: "e = (k', d')" by (cases e)
    from e kd rbac_keys [of k' d' ?ns ?app]
    have "k' \<in> {''serviceaccount.yaml'', ''role.yaml'', ''rolebinding.yaml''}" by simp
    then have "I (k', d')"
      by (intro other) (auto simp: file_key_def)
    then show "I e" by (simp add: kd)
  qed
  have "\<forall>e\<in>set fs. I e"
  proof (cases "truthy (enableRBAC p)")
    case True
    then show ?thesis unfolding fs using rbac_inv [OF a3 rb] by simp
  next
    case False
    then show ?thesis unfolding fs using a3 by simp
  qed
  with assms(2) have "I (k, d)" by blast
  then show ?thesis
    unfolding I_def CM_def SEC_def PVC_def ING_def file_key_def by simp
qed

lemma cm_request_eval:
  "(case generateKubernetesManifests cm_request of
      Inl e \<Rightarrow> False
    | Inr fs \<Rightarrow>
        (case map_of fs ''configmap-api.yaml'' of
           None \<Rightarrow> False
         | Some d \<Rightarrow> \<not> sublist ''labels:'' d \<and> \<not> sublist ''app: web'' d \<and>
                     \<not> sublist ''tier: api'' d))"
  by code_simp

text \<open>
  C5, as the code has it. In the result of a compilation, every document other than
  the Namespace and the PersistentVolumes (both cluster-scoped) contains the line
  \<^verbatim>\<open>namespace: {namespace}\<close>. The Deployment, StatefulSet, Service and headless
  Service documents of a tier name also contain the block \<^verbatim>\<open>labels:\<close> with
  \<^verbatim>\<open>app: {appName}\<close> and \<^verbatim>\<open>tier: {tier.name}\<close>. The ConfigMap, Secret, PVC and
  Ingress documents carry no labels: the \<^verbatim>\<open>metadata\<close> block of the first three is
  \<^verbatim>\<open>name\<close> and \<^verbatim>\<open>namespace\<close>, that of the Ingress \<^verbatim>\<open>name\<close>, \<^verbatim>\<open>namespace\<close> and one
  annotation.
\<close>

theorem namespace_and_labels:
  assumes "generateKubernetesManifests p = Inr fs" and "(k, d) \<in> set fs"
  shows "(k \<noteq> ''namespace.yaml'' \<longrightarrow> (\<forall>n. k \<noteq> ''pv-'' @ n @ ''.yaml'') \<longrightarrow>
            sublist (''  namespace: '' @ to_str (namespace p) @ nl) d) \<and>
         (\<forall>n. k \<in> {''deployment-'' @ n @ ''.yaml'', ''statefulset-'' @ n @ ''.yaml'',
                    ''service-'' @ n @ ''.yaml'', ''headless-service-'' @ n @ ''.yaml''} \<longrightarrow>
              sublist (''  labels:'' @ nl @ ''    app: '' @ to_str (appName p) @ nl @
                       ''    tier: '' @ n @ nl) d) \<and>
         (\<forall>n. k = ''configmap-'' @ n @ ''.yaml'' \<longrightarrow>
            prefix (''apiVersion: v1'' @ nl @
                    ''kind: ConfigMap'' @ nl @
                    ''metadata:'' @ nl @
                    ''  name: '' @ (to_str (appName p) @ ''-'' @ n @ ''-config'') @ nl @
                    ''  namespace: '' @ to_str (namespace p) @ nl @
                    ''data:'' @ nl) d) \<and>
         (\<forall>n. k = ''secret-'' @ n @ ''.yaml'' \<longrightarrow>
            prefix (''apiVersion: v1'' @ nl @
                    ''kind: Secret'' @ nl @
                    ''metadata:'' @ nl @
                    ''  name: '' @ (to_str (appName p) @ ''-'' @ n @ ''-secret'') @ nl @
                    ''  namespace: '' @ to_str (namespace p) @ nl @
                    ''type: Opaque'' @ nl) d) \<and>
         (\<forall>n. k = ''pvc-'' @ n @ ''.yaml'' \<longrightarrow>
            prefix (''apiVersion: v1'' @ nl @
                    ''kind: PersistentVolumeClaim'' @ nl @
                    ''metadata:'' @ nl @
                    ''  name: '' @ (to_str (appName p) @ ''-'' @ n @ ''-pvc'') @ nl @
                    ''  namespace: '' @ to_str (namespace p) @ nl @
                    ''spec:'' @ nl) d) \<and>
         (k = ''ingress.yaml'' \<longrightarrow>
            prefix (''apiVersion: networking.k8s.io/v1'' @ nl @
                    ''kind: Ingress'' @ nl @
                    ''metadata:'' @ nl @
                    ''  name: '' @ to_str (appName p) @ ''-ingress'' @ nl @
                    ''  namespace: '' @ to_str (namespace p) @ nl @
                    ''  annotations:'' @ nl @
                    ''    nginx.ingress.kubernetes.io/rewrite-target: /'' @ nl @
                    ''spec:'' @ nl) d)"
  apply (rule conjI [OF conjunct1 [OF compile_namespace_labels [OF assms]]])
  apply (rule conjI [OF conjunct2 [OF compile_namespace_labels [OF assms]]])
  apply (rule compile_metadata [OF assms])
  done

theorem namespace_and_labels_witness:
  "(\<exists>fs d. generateKubernetesManifests scenario = Inr fs \<and>
           (''deployment-api.yaml'', d) \<in> set fs \<and>
           sublist (''  namespace: dev'' @ nl) d \<and>
           sublist (''  labels:'' @ nl @ ''    app: web'' @ nl @ ''    tier: api'' @ nl) d) \<and>
   (\<exists>fs d. generateKubernetesManifests cm_request = Inr fs \<and>
           (''configmap-api.yaml'', d) \<in> set fs \<and>
           sublist (''  namespace: dev'' @ nl) d \<and>
           prefix (''apiVersion: v1'' @ nl @
                   ''kind: ConfigMap'' @ nl @
                   ''metadata:'' @ nl @
                   ''  name: web-api-config'' @ nl @
                   ''  namespace: dev'' @ nl @
                   ''data:'' @ nl) d)"
proof
  from scenario_eval obtain fs d where
    c: "generateKubernetesManifests scenario = Inr fs" and
    m: "map_of fs ''deployment-api.yaml'' = Some d"
    by (auto split: sum.splits option.splits)
  from m have e: "(''deployment-api.yaml'', d) \<in> set fs"
    by (rule map_of_SomeD)
  have ns: "namespace scenario = JStr ''dev''" and app: "appName scenario = JStr ''web''"
    by (simp_all add: scenario_def empty_payload_def)
  from namespace_and_labels [OF c e]
  have "sublist (''  namespace: dev'' @ nl) d \<and>
        sublist (''  labels:'' @ nl @ ''    app: web'' @ nl @ ''    tier: api'' @ nl) d"
    by (simp add: ns app)
  with c e show "\<exists>fs d. generateKubernetesManifests scenario = Inr fs \<and>
           (''deployment-api.yaml'', d) \<in> set fs \<and>
           sublist (''  namespace: dev'' @ nl) d \<and>
           sublist (''  labels:'' @ nl @ ''    app: web'' @ nl @ ''    tier: api'' @ nl) d"
    by blast
next
  from cm_request_eval obtain fs d where
    c: "generateKubernetesManifests cm_request = Inr fs" and
    m: "map_of fs ''configmap-api.yaml'' = Some d"
    by (auto split: sum.splits option.splits)
  from m have e: "(''configmap-api.yaml'', d) \<in> set fs"
    by (rule map_of_SomeD)
  have ns: "namespace cm_request = JStr ''dev''" and app: "appName cm_request = JStr ''web''"
    by (simp_all add: cm_request_def empty_payload_def)
  from namespace_and_labels [OF c e]
  have "sublist (''  namespace: dev'' @ nl) d \<and>
        prefix (''apiVersion: v1'' @ nl @
                ''kind: ConfigMap'' @ nl @
                ''metadata:'' @ nl @
                ''  name: web-api-config'' @ nl @
                ''  namespace: dev'' @ nl @
                ''data:'' @ nl) d"
    by (simp add: ns app)
  with c e show "\<exists>fs d. generateKubernetesManifests cm_request = Inr fs \<and>
           (''configmap-api.yaml'', d) \<in> set fs \<and>
           sublist (''  namespace: dev'' @ nl) d \<and>
           prefix (''apiVersion: v1'' @ nl @
                   ''kind: ConfigMap'' @ nl @
                   ''metadata:'' @ nl @
                   ''  name: web-api-config'' @ nl @
                   ''  namespace: dev'' @ nl @
                   ''data:'' @ nl) d"
    by blast
qed

text \<open>
  The ConfigMap document of a request with one tier \<^verbatim>\<open>api\<close> of application \<^verbatim>\<open>web\<close>
  has no \<^verbatim>\<open>labels\<close> block: neither \<^verbatim>\<open>app: web\<close> nor \<^verbatim>\<open>tier: api\<close> occurs in it.
\<close>

theorem configMap_without_labels:
  "\<exists>fs d. generateKubernetesManifests cm_request = Inr fs \<and>
          map_of fs ''configmap-api.yaml'' = Some d \<and>
          \<not> sublist ''labels:'' d \<and> \<not> sublist ''app: web'' d \<and> \<not> sublist ''tier: api'' d"
  using cm_request_eval by (auto split: sum.splits option.splits)

subsection \<open>Ingress\<close>


lemma forEachE_ingress_filter:
  "forEachE (ingress_addTier app) ts m =
   forEachE (ingress_addTier app) (filter (\<lambda>t. ingress t \<noteq> None \<and> service t \<noteq> None) ts) m"
proof (induction ts arbitrary: m)
  case Nil
  then show ?case by simp
next
  case (Cons t ts)
  show ?case
  proof (cases "ingress t \<noteq> None \<and> service t \<noteq> None")
    case True
    then show ?thesis by (simp add: Cons.IH split: sum.splits)
  next
    case False
    then have "ingress_addTier app t m = Inr m"
      by (intro ingress_addTier_skip) auto
    with False show ?thesis by (simp add: Cons.IH)
  qed
qed

lemma ingress_addTier_new:
  assumes "ingress t = Some i" and "service t = Some s"
      and "map_of m (to_str (ing_host i)) = None"
      and "to_str (ing_host i) \<notin> set object_prototype_props"
  shows "ingress_addTier app t m =
           Inr (AList.update (to_str (ing_host i))
                  [\<lparr> rule_path = ing_path i,
                     rule_serviceName = to_str app @ ''-'' @ to_str (name t),
                     rule_servicePort = svc_port s \<rparr>] m)"
  using assms by (simp add: ingress_addTier_def Let_def)

lemma ingress_addTier_old:
  assumes "ingress t = Some i" and "service t = Some s"
      and "map_of m (to_str (ing_host i)) = Some rs"
  shows "ingress_addTier app t m =
           Inr (AList.update (to_str (ing_host i))
                  (rs @ [\<lparr> rule_path = ing_path i,
                           rule_serviceName = to_str app @ ''-'' @ to_str (name t),
                           rule_servicePort = svc_port s \<rparr>]) m)"
  using assms by (simp add: ingress_addTier_def Let_def)

lemma ingress_addTier_inherited:
  assumes "ingress t = Some i" and "service t = Some s"
      and "map_of m (to_str (ing_host i)) = None"
      and "to_str (ing_host i) \<in> set object_prototype_props"
  shows "ingress_addTier app t m = Inl TypeError"
  using assms by (simp add: ingress_addTier_def Let_def)

lemma object_keys_one: "object_keys [(h, x)] = [h]"
  by (simp add: object_keys_def)

lemma object_keys_two:
  "object_keys [(h1, x), (h2, y)] = [h1, h2] \<or> object_keys [(h1, x), (h2, y)] = [h2, h1]"
  by (auto simp: object_keys_def insort_key.simps)

text \<open>
  Two qualifying tiers on one host, which is not an inherited property name: one
  document, one host block, two path rules in input order.
\<close>

lemma ingress_same_host:
  assumes "filter (\<lambda>t. ingress t \<noteq> None \<and> service t \<noteq> None) ts = [t1, t2]"
      and "ingress t1 = Some i1" and "service t1 = Some s1"
      and "ingress t2 = Some i2" and "service t2 = Some s2"
      and "to_str (ing_host i1) = h" and "to_str (ing_host i2) = h"
      and "h \<notin> set object_prototype_props"
  shows "generateIngress ts ns app =
           Inr (Some (ingress_doc ns app
             [ingress_host_block h
                [\<lparr> rule_path = ing_path i1,
                   rule_serviceName = to_str app @ ''-'' @ to_str (name t1),
                   rule_servicePort = svc_port s1 \<rparr>,
                 \<lparr> rule_path = ing_path i2,
                   rule_serviceName = to_str app @ ''-'' @ to_str (name t2),
                   rule_servicePort = svc_port s2 \<rparr>]]))"
proof -
  let ?r1 = "\<lparr> rule_path = ing_path i1,
                rule_serviceName = to_str app @ ''-'' @ to_str (name t1),
                rule_servicePort = svc_port s1 \<rparr>"
  let ?r2 = "\<lparr> rule_path = ing_path i2,
                rule_serviceName = to_str app @ ''-'' @ to_str (name t2),
                rule_servicePort = svc_port s2 \<rparr>"
  have 1: "ingress_addTier app t1 [] = Inr [(h, [?r1])]"
    using ingress_addTier_new [OF assms(2,3), of "[]" app] assms(6,8) by simp
  have 2: "ingress_addTier app t2 [(h, [?r1])] = Inr [(h, [?r1, ?r2])]"
    using ingress_addTier_old [OF assms(4,5), of "[(h, [?r1])]" "[?r1]" app] assms(7) by simp
  have "forEachE (ingress_addTier app) ts [] = forEachE (ingress_addTier app) [t1, t2] []"
    by (subst forEachE_ingress_filter) (simp only: assms(1))
  moreover have "forEachE (ingress_addTier app) [t1, t2] [] = Inr [(h, [?r1, ?r2])]"
    using 1 2 by simp
  ultimately have "forEachE (ingress_addTier app) ts [] = Inr [(h, [?r1, ?r2])]"
    by (rule trans)
  then show ?thesis
    by (simp add: generateIngress_def object_keys_one)
qed

text \<open>Two qualifying tiers on two hosts: one document with two host blocks.\<close>

lemma ingress_two_hosts:
  assumes "filter (\<lambda>t. ingress t \<noteq> None \<and> service t \<noteq> None) ts = [t1, t2]"
      and "ingress t1 = Some i1" and "service t1 = Some s1"
      and "ingress t2 = Some i2" and "service t2 = Some s2"
      and "to_str (ing_host i1) = h1" and "to_str (ing_host i2) = h2" and "h1 \<noteq> h2"
      and "h1 \<notin> set object_prototype_props" and "h2 \<notin> set object_prototype_props"
  shows "\<exists>b1 b2. generateIngress ts ns app = Inr (Some (ingress_doc ns app [b1, b2])) \<and>
           {b1, b2} =
             {ingress_host_block h1
                [\<lparr> rule_path = ing_path i1,
                   rule_serviceName = to_str app @ ''-'' @ to_str (name t1),
                   rule_servicePort = svc_port s1 \<rparr>],
              ingress_host_block h2
                [\<lparr> rule_path = ing_path i2,
                   rule_serviceName = to_str app @ ''-'' @ to_str (name t2),
                   rule_servicePort = svc_port s2 \<rparr>]}"
proof -
  let ?r1 = "\<lparr> rule_path = ing_path i1,
                rule_serviceName = to_str app @ ''-'' @ to_str (name t1),
                rule_servicePort = svc_port s1 \<rparr>"
  let ?r2 = "\<lparr> rule_path = ing_path i2,
                rule_serviceName = to_str app @ ''-'' @ to_str (name t2),
                rule_servicePort = svc_port s2 \<rparr>"
  let ?m = "[(h1, [?r1]), (h2, [?r2])]"
  have 1: "ingress_addTier app t1 [] = Inr [(h1, [?r1])]"
    using ingress_addTier_new [OF assms(2,3), of "[]" app] assms(6,9) by simp
  have 2: "ingress_addTier app t2 [(h1, [?r1])] = Inr ?m"
    using ingress_addTier_new [OF assms(4,5), of "[(h1, [?r1])]" app] assms(7,8,10) by simp
  have "forEachE (ingress_addTier app) ts [] = forEachE (ingress_addTier app) [t1, t2] []"
    by (subst forEachE_ingress_filter) (simp only: assms(1))
  moreover have "forEachE (ingress_addTier app) [t1, t2] [] = Inr ?m"
    using 1 2 by simp
  ultimately have m: "forEachE (ingress_addTier app) ts [] = Inr ?m"
    by (rule trans)
  from object_keys_two [of h1 "[?r1]" h2 "[?r2]"] show ?thesis
  proof
    assume k: "object_keys ?m = [h1, h2]"
    have "generateIngress ts ns app = Inr (Some (ingress_doc ns app
            [ingress_host_block h1 [?r1], ingress_host_block h2 [?r2]]))"
      using assms(8) k by (simp add: generateIngress_def m Let_def)
    then show ?thesis by blast
  next
    assume k: "object_keys ?m = [h2, h1]"
    have "generateIngress ts ns app = Inr (Some (ingress_doc ns app
            [ingress_host_block h2 [?r2], ingress_host_block h1 [?r1]]))"
      using assms(8) k by (simp add: generateIngress_def m Let_def)
    then show ?thesis by blast
  qed
qed

text \<open>The entry \<^verbatim>\<open>ingress.yaml\<close> of a result is what the Ingress step returned.\<close>

lemma compile_ingress_key:
  assumes "generateKubernetesManifests p = Inr fs" and "tiers p = Some ts"
  shows "generateIngress ts (namespace p) (appName p) = Inr (map_of fs ''ingress.yaml'')"
proof -
  let ?ns = "namespace p" and ?app = "appName p"
  from assms(1) obtain ts' ing where
    ts': "tiers p = Some ts'" and
    ing: "generateIngress ts' ?ns ?app = Inr ing" and
    fs: "fs = (if truthy (enableRBAC p)
           then fold (\<lambda>(k, v). set_file k v) (generateRBAC ?ns ?app) else id)
          ((case ing of None \<Rightarrow> id | Some d \<Rightarrow> set_file ''ingress.yaml'' d)
           (secondPass ?ns ?app (firstPass ?ns ?app ts' (initial_files p)) ts'))"
    by (rule compile_Inr)
  from ts' assms(2) have eq: "ts' = ts" by simp
  let ?fs2 = "secondPass ?ns ?app (firstPass ?ns ?app ts (initial_files p)) ts"
  have "map_of ?fs2 ''ingress.yaml'' =
        map_of (files (firstPass ?ns ?app ts (initial_files p))) ''ingress.yaml''"
    unfolding secondPass_def by (rule fold_secondPass_other) (simp add: file_key_def)
  also have "\<dots> = map_of (initial_files p) ''ingress.yaml''"
    unfolding firstPass_def by (subst fold_firstPass_other) (simp_all add: file_key_def)
  also have "\<dots> = None"
    by (rule initial_files_lookup) simp
  finally have 2: "map_of ?fs2 ''ingress.yaml'' = None" .
  have "map_of fs ''ingress.yaml'' =
        map_of ((case ing of None \<Rightarrow> id | Some d \<Rightarrow> set_file ''ingress.yaml'' d) ?fs2)
          ''ingress.yaml''"
    unfolding fs eq by (cases "truthy (enableRBAC p)") (simp_all add: rbac_files)
  also have "\<dots> = ing"
    using 2 by (cases ing) (simp_all add: map_of_set_file)
  finally show ?thesis using ing eq by simp
qed



text \<open>
  The dictionary never holds an inherited property name as an own key, so a qualifying
  tier whose host is such a name ends the loop with a \<^verbatim>\<open>TypeError\<close> wherever it stands in
  the list.
\<close>

lemma ingress_addTier_own_keys:
  assumes "fst ` set m \<inter> set object_prototype_props = {}"
      and "ingress_addTier app t m = Inr m'"
  shows "fst ` set m' \<inter> set object_prototype_props = {}"
proof (cases "ingress t")
  case None
  with assms show ?thesis by (simp add: ingress_addTier_def)
next
  case i: (Some i)
  show ?thesis
  proof (cases "service t")
    case None
    with i assms show ?thesis by (simp add: ingress_addTier_def)
  next
    case s: (Some s)
    show ?thesis
    proof (cases "map_of m (to_str (ing_host i))")
      case None
      with i s assms(2) have nh: "to_str (ing_host i) \<notin> set object_prototype_props"
        by (simp add: ingress_addTier_def Let_def split: if_splits)
      from ingress_addTier_new [OF i s None nh, of app] assms(2)
      obtain rs where "m' = AList.update (to_str (ing_host i)) rs m" by simp
      then have "fst ` set m' = {to_str (ing_host i)} \<union> fst ` set m"
        by (simp only: AList.dom_update)
      with nh assms(1) show ?thesis by auto
    next
      case (Some rs)
      then have "to_str (ing_host i) \<in> fst ` set m"
        by (metis domI dom_map_of_conv_image_fst)
      moreover from ingress_addTier_old [OF i s Some, of app] assms(2)
      obtain rs' where "m' = AList.update (to_str (ing_host i)) rs' m" by simp
      then have "fst ` set m' = {to_str (ing_host i)} \<union> fst ` set m"
        by (simp only: AList.dom_update)
      ultimately show ?thesis using assms(1) by auto
    qed
  qed
qed

lemma ingress_addTier_error: "ingress_addTier app t m = Inl e \<Longrightarrow> e = TypeError"
  by (auto simp: ingress_addTier_def Let_def split: option.splits if_splits)

lemma forEachE_ingress_error:
  "forEachE (ingress_addTier app) ts m = Inl e \<Longrightarrow> e = TypeError"
proof (induction ts arbitrary: m)
  case Nil
  then show ?case by simp
next
  case (Cons t ts)
  then show ?case
    by (cases "ingress_addTier app t m") (auto dest: ingress_addTier_error)
qed

lemma forEachE_ingress_inherited:
  assumes "t \<in> set ts" and "ingress t = Some i" and "service t = Some s"
      and "to_str (ing_host i) \<in> set object_prototype_props"
      and "fst ` set m \<inter> set object_prototype_props = {}"
  shows "forEachE (ingress_addTier app) ts m = Inl TypeError"
  using assms(1,5)
proof (induction ts arbitrary: m)
  case Nil
  then show ?case by simp
next
  case (Cons u ts)
  show ?case
  proof (cases "ingress_addTier app u m")
    case (Inl e)
    then show ?thesis by (simp add: ingress_addTier_error [OF Inl])
  next
    case (Inr m')
    have own: "fst ` set m' \<inter> set object_prototype_props = {}"
      by (rule ingress_addTier_own_keys [OF Cons.prems(2) Inr])
    show ?thesis
    proof (cases "u = t")
      case True
      from Cons.prems(2) assms(4) have "to_str (ing_host i) \<notin> fst ` set m" by auto
      then have "map_of m (to_str (ing_host i)) = None"
        by (simp add: map_of_eq_None_iff)
      from ingress_addTier_inherited [OF assms(2,3) this assms(4), of app] Inr True
      show ?thesis by simp
    next
      case False
      with Cons.prems(1) have "t \<in> set ts" by simp
      from Cons.IH [OF this own] Inr show ?thesis by simp
    qed
  qed
qed

lemma generateIngress_inherited:
  assumes "t \<in> set ts" and "ingress t = Some i" and "service t = Some s"
      and "to_str (ing_host i) \<in> set object_prototype_props"
  shows "generateIngress ts ns app = Inl TypeError"
  using forEachE_ingress_inherited [OF assms, of "[]" app]
  by (simp add: generateIngress_def)

lemma compile_inherited_host_raises:
  assumes "validation_errors p = []" and "tiers p = Some ts"
      and "t \<in> set ts" and "ingress t = Some i" and "service t = Some s"
      and "to_str (ing_host i) \<in> set object_prototype_props"
  shows "generateKubernetesManifests p = Inl TypeError"
  using generateIngress_inherited [OF assms(3-6)] assms(1,2)
  by (simp add: generateKubernetesManifests_def Let_def)


text \<open>
  What a compilation that returns holds under \<^verbatim>\<open>ingress.yaml\<close>: the grouped document
  when two tiers qualify, nothing when none does. A compilation that returns never met
  an inherited host name.
\<close>

lemma compile_host_not_inherited:
  assumes "generateKubernetesManifests p = Inr fs" and "tiers p = Some ts"
      and "t \<in> set ts" and "ingress t = Some i" and "service t = Some s"
  shows "to_str (ing_host i) \<notin> set object_prototype_props"
proof
  assume "to_str (ing_host i) \<in> set object_prototype_props"
  from generateIngress_inherited [OF assms(3-5) this, of "namespace p" "appName p"]
       compile_ingress_key [OF assms(1,2)]
  show False by simp
qed

lemma compile_ingress_same_host:
  assumes "generateKubernetesManifests p = Inr fs" and "tiers p = Some ts"
      and "filter (\<lambda>t. ingress t \<noteq> None \<and> service t \<noteq> None) ts = [t1, t2]"
      and "ingress t1 = Some i1" and "service t1 = Some s1"
      and "ingress t2 = Some i2" and "service t2 = Some s2"
      and "to_str (ing_host i1) = to_str (ing_host i2)"
  shows "map_of fs ''ingress.yaml'' =
           Some (ingress_doc (namespace p) (appName p)
             [ingress_host_block (to_str (ing_host i1))
                [\<lparr> rule_path = ing_path i1,
                   rule_serviceName = to_str (appName p) @ ''-'' @ to_str (name t1),
                   rule_servicePort = svc_port s1 \<rparr>,
                 \<lparr> rule_path = ing_path i2,
                   rule_serviceName = to_str (appName p) @ ''-'' @ to_str (name t2),
                   rule_servicePort = svc_port s2 \<rparr>]])"
proof -
  have "t1 \<in> set (filter (\<lambda>t. ingress t \<noteq> None \<and> service t \<noteq> None) ts)"
    by (simp only: assms(3)) simp
  then have "t1 \<in> set ts" by simp
  from compile_host_not_inherited [OF assms(1,2) this assms(4,5)]
  have nh: "to_str (ing_host i1) \<notin> set object_prototype_props" .
  from ingress_same_host [OF assms(3-7) refl assms(8) [symmetric] nh,
         of "namespace p" "appName p"]
       compile_ingress_key [OF assms(1,2)]
  show ?thesis by (simp only: sum.inject)
qed

lemma compile_ingress_two_hosts:
  assumes "generateKubernetesManifests p = Inr fs" and "tiers p = Some ts"
      and "filter (\<lambda>t. ingress t \<noteq> None \<and> service t \<noteq> None) ts = [t1, t2]"
      and "ingress t1 = Some i1" and "service t1 = Some s1"
      and "ingress t2 = Some i2" and "service t2 = Some s2"
      and "to_str (ing_host i1) \<noteq> to_str (ing_host i2)"
  shows "\<exists>b1 b2. map_of fs ''ingress.yaml'' =
                   Some (ingress_doc (namespace p) (appName p) [b1, b2]) \<and>
           {b1, b2} =
             {ingress_host_block (to_str (ing_host i1))
                [\<lparr> rule_path = ing_path i1,
                   rule_serviceName = to_str (appName p) @ ''-'' @ to_str (name t1),
                   rule_servicePort = svc_port s1 \<rparr>],
              ingress_host_block (to_str (ing_host i2))
                [\<lparr> rule_path = ing_path i2,
                   rule_serviceName = to_str (appName p) @ ''-'' @ to_str (name t2),
                   rule_servicePort = svc_port s2 \<rparr>]}"
proof -
  have "t1 \<in> set (filter (\<lambda>t. ingress t \<noteq> None \<and> service t \<noteq> None) ts)"
   and "t2 \<in> set (filter (\<lambda>t. ingress t \<noteq> None \<and> service t \<noteq> None) ts)"
    by (simp only: assms(3), simp)+
  then have in1: "t1 \<in> set ts" and in2: "t2 \<in> set ts" by simp_all
  from compile_host_not_inherited [OF assms(1,2) in1 assms(4,5)]
  have nh1: "to_str (ing_host i1) \<notin> set object_prototype_props" .
  from compile_host_not_inherited [OF assms(1,2) in2 assms(6,7)]
  have nh2: "to_str (ing_host i2) \<notin> set object_prototype_props" .
  from ingress_two_hosts [OF assms(3-7) refl refl assms(8) nh1 nh2,
         of "namespace p" "appName p"]
  obtain b1 b2 where
    g: "generateIngress ts (namespace p) (appName p) =
          Inr (Some (ingress_doc (namespace p) (appName p) [b1, b2]))" and
    b: "{b1, b2} =
             {ingress_host_block (to_str (ing_host i1))
                [\<lparr> rule_path = ing_path i1,
                   rule_serviceName = to_str (appName p) @ ''-'' @ to_str (name t1),
                   rule_servicePort = svc_port s1 \<rparr>],
              ingress_host_block (to_str (ing_host i2))
                [\<lparr> rule_path = ing_path i2,
                   rule_serviceName = to_str (appName p) @ ''-'' @ to_str (name t2),
                   rule_servicePort = svc_port s2 \<rparr>]}"
    by (elim exE conjE)
  from g compile_ingress_key [OF assms(1,2)]
  have "map_of fs ''ingress.yaml'' = Some (ingress_doc (namespace p) (appName p) [b1, b2])"
    by (simp only: sum.inject)
  with b show ?thesis by (intro exI conjI)
qed

lemma compile_ingress_none:
  assumes "generateKubernetesManifests p = Inr fs" and "tiers p = Some ts"
      and "\<forall>t\<in>set ts. ingress t = None \<or> service t = None"
  shows "''ingress.yaml'' \<notin> fst ` set fs"
proof -
  from ingress_none [OF assms(3), of "namespace p" "appName p"]
       compile_ingress_key [OF assms(1,2)]
  have "map_of fs ''ingress.yaml'' = None" by simp
  then show ?thesis by (simp add: map_of_eq_None_iff)
qed

text \<open>
  The two tiers of \<^verbatim>\<open>ctor_request\<close> share the host \<^verbatim>\<open>constructor\<close>, which every object
  inherits from \<^verbatim>\<open>Object.prototype\<close>.
\<close>

lemma ctor_ingress:
  "generateIngress [ctor_tier1, ctor_tier2] ns app = Inl TypeError"
  by (simp add: generateIngress_def ingress_addTier_def ctor_tier1_def ctor_tier2_def
        empty_tier_def object_prototype_props_def Let_def)

text \<open>
  C4. Two tiers that each have an \<^verbatim>\<open>ingress\<close> and a \<^verbatim>\<open>service\<close> block and share one host
  are to yield one Ingress document with two path rules under one host block. The
  request \<^verbatim>\<open>ctor_request\<close> passes validation and has two such tiers on the host
  \<^verbatim>\<open>constructor\<close>, yet its compilation returns no mapping at all: the Ingress step
  raises a \<^verbatim>\<open>TypeError\<close>, because the lookup in the dictionary of rules finds the
  inherited property and no array is ever stored under the host.
\<close>

theorem ingress_inherited_host_raises:
  "validation_errors ctor_request = [] \<and>
   generateKubernetesManifests ctor_request = Inl TypeError"
proof -
  have v: "validation_errors ctor_request = []"
    by (simp add: validation_errors_def ctor_request_def empty_payload_def)
  have ts: "tiers ctor_request = Some [ctor_tier1, ctor_tier2]"
    by (simp add: ctor_request_def empty_payload_def)
  have "generateKubernetesManifests ctor_request = Inl TypeError"
    by (simp add: generateKubernetesManifests_def v ts ctor_ingress Let_def)
  with v show ?thesis by simp
qed

end
